(* ===== verification/Prelude.thy ===== *)
theory Prelude
  imports Main "HOL-Library.Sublist" "HOL-Library.List_Lexorder" "HOL-Library.Char_ord"
begin

text \<open>
  Shared vocabulary of the development: the types that name the model's data (paths as lists
  of components, strings as byte lists), the Python string operations that \<open>src/main.py\<close>
  uses (\<open>str(int)\<close>, \<open>str.join\<close>, \<open>str.lower\<close>, \<open>str(Path)\<close>, \<open>Path.name\<close>,
  \<open>Path.suffix\<close>), and the collection \<open>py_eval\<close> of the rules that evaluate them on
  concrete arguments, so that witnesses are proved by \<open>simp add: py_eval\<close>.
\<close>

named_theorems py_eval "rules that evaluate the Python helpers of the model on literals"

section \<open>Paths\<close>

text \<open>
  A path is the list of its components below the root \<open>/\<close>: \<open>/Users/ann/Desktop\<close> is
  \<open>[''Users'', ''ann'', ''Desktop'']\<close> and the root is \<open>[]\<close>. Python's
  \<open>p / name\<close> is \<open>p @ [name]\<close>, \<open>p.parent\<close> is \<open>butlast p\<close> (the root is its own
  parent, as in pathlib), and \<open>p.name\<close> is the last component (\<open>''''\<close> for the root).
\<close>

type_synonym path = "string list"

definition path_name :: "path \<Rightarrow> string" where
  "path_name p = (if p = [] then '''' else last p)"

definition nl :: string where
  "nl = [CHR 0x0A]"

section \<open>Python's \<open>str\<close> of integers\<close>

definition digit :: "nat \<Rightarrow> char" where
  "digit d = ''0123456789'' ! d"

fun str_nat :: "nat \<Rightarrow> string" where
  "str_nat n = (if n < 10 then [digit n] else str_nat (n div 10) @ [digit (n mod 10)])"

section \<open>\<open>str.join\<close>, \<open>str(Path)\<close>, \<open>str.lower\<close>\<close>

fun join_str :: "string \<Rightarrow> string list \<Rightarrow> string" where
  "join_str sep [] = []"
| "join_str sep [x] = x"
| "join_str sep (x # y # ys) = x @ sep @ join_str sep (y # ys)"

text \<open>\<open>str(PosixPath)\<close>: the components joined by \<open>/\<close> after a leading \<open>/\<close>.\<close>

definition render_path :: "path \<Rightarrow> string" where
  "render_path p = ''/'' @ join_str ''/'' p"

text \<open>
  \<open>str.lower\<close> on the bytes of the string: ASCII capitals become small letters, every
  other byte is kept. Python lowers every Unicode letter; the program compares the result
  with \<open>''yes''\<close> only, and no code point other than \<open>Y\<close>, \<open>E\<close>, \<open>S\<close> and their small
  forms lowers to one of \<open>y\<close>, \<open>e\<close>, \<open>s\<close>, so the comparison is the same.
\<close>

definition lower_char :: "char \<Rightarrow> char" where
  "lower_char c =
     (case map_of (zip ''ABCDEFGHIJKLMNOPQRSTUVWXYZ'' ''abcdefghijklmnopqrstuvwxyz'') c of
        Some l \<Rightarrow> l
      | None \<Rightarrow> c)"

definition lower :: "string \<Rightarrow> string" where
  "lower s = map lower_char s"

section \<open>\<open>Path.suffix\<close>\<close>

text \<open>
  pathlib's \<open>suffix\<close>: with \<open>i = name.rfind('.')\<close>, the text from \<open>i\<close> on when
  \<open>0 < i < len(name) - 1\<close>, and \<open>''''\<close> otherwise.
\<close>

fun rfind_aux :: "char \<Rightarrow> string \<Rightarrow> nat \<Rightarrow> nat option \<Rightarrow> nat option" where
  "rfind_aux c [] i r = r"
| "rfind_aux c (x # xs) i r = rfind_aux c xs (Suc i) (if x = c then Some i else r)"

definition rfind :: "char \<Rightarrow> string \<Rightarrow> nat option" where
  "rfind c s = rfind_aux c s 0 None"

definition path_suffix :: "string \<Rightarrow> string" where
  "path_suffix name =
     (case rfind CHR ''.'' name of
        Some i \<Rightarrow> if 0 < i \<and> i < length name - 1 then drop i name else ''''
      | None \<Rightarrow> '''')"

declare nl_def [py_eval] digit_def [py_eval] render_path_def [py_eval] lower_def [py_eval]
  lower_char_def [py_eval] rfind_def [py_eval] path_suffix_def [py_eval] path_name_def [py_eval]

section \<open>Shared lemmas\<close>

declare str_nat.simps [simp del]

lemma str_nat_small [py_eval]: "n < 10 \<Longrightarrow> str_nat n = [digit n]"
  by (simp add: str_nat.simps)

lemma str_nat_large [py_eval]: "\<not> n < 10 \<Longrightarrow> str_nat n = str_nat (n div 10) @ [digit (n mod 10)]"
  by (subst str_nat.simps) simp

lemma str_nat_not_Nil [simp]: "str_nat n \<noteq> []"
  by (cases "n < 10") (simp_all add: str_nat_small str_nat_large)


lemma rfind_aux_last:
  "rfind_aux c (xs @ [c]) i r = Some (i + length xs)"
  by (induction xs arbitrary: i r) simp_all

lemma rfind_aux_no_c:
  "c \<notin> set ys \<Longrightarrow> rfind_aux c (xs @ ys) i r = rfind_aux c xs i r"
proof (induction xs arbitrary: i r)
  case Nil
  then show ?case
    by (induction ys arbitrary: i r) auto
next
  case (Cons x xs)
  then show ?case by simp
qed

text \<open>The suffix of a name that ends in \<open>.ext\<close>, with no dot in \<open>ext\<close>, is \<open>.ext\<close>.\<close>

lemma path_suffix_ext:
  assumes "CHR ''.'' \<notin> set ext" and "ext \<noteq> []" and "base \<noteq> []"
  shows "path_suffix (base @ CHR ''.'' # ext) = CHR ''.'' # ext"
proof -
  have "rfind CHR ''.'' (base @ CHR ''.'' # ext) = Some (length base)"
    using assms(1) rfind_aux_no_c [of _ ext "base @ [CHR ''.'']"] rfind_aux_last [of _ base]
    by (simp add: rfind_def)
  with assms(2,3) show ?thesis
    by (simp add: path_suffix_def)
qed

lemma lower_length [simp]: "length (lower s) = length s"
  by (simp add: lower_def)

text \<open>Splitting a string at the first occurrence of a separator.\<close>

lemma takeWhile_upto: "c \<notin> set xs \<Longrightarrow> takeWhile (\<lambda>x. x \<noteq> c) (xs @ c # ys) = xs"
  by (induction xs) auto

lemma dropWhile_upto: "c \<notin> set xs \<Longrightarrow> dropWhile (\<lambda>x. x \<noteq> c) (xs @ c # ys) = c # ys"
  by (induction xs) auto

text \<open>Floor division by a positive constant, as bounds on the quotient.\<close>

lemma div_eqI: "0 < (b::int) \<Longrightarrow> b * q \<le> a \<Longrightarrow> a < b * q + b \<Longrightarrow> a div b = q"
  by (rule int_div_pos_eq [where r = "a - b * q"]) auto

lemma div_bounds: "0 < (b::int) \<Longrightarrow> b * (a div b) \<le> a \<and> a < b * (a div b) + b"
proof -
  assume b: "0 < b"
  have "a = b * (a div b) + a mod b" by simp
  with pos_mod_bound [OF b, of a] pos_mod_sign [OF b, of a] show ?thesis by linarith
qed

end
