(* ===== verification/Glob.thy ===== *)
theory Glob
  imports Prelude
begin

text \<open>
  The filename filter of discovery (\<open>src/main.py\<close>, \<open>find_screenshots\<close>, line 23:
  \<open>location.glob("Screenshot*.png")\<close>). pathlib matches each directory entry's name
  against the pattern with \<open>fnmatch\<close> semantics, case-sensitively on POSIX paths: \<open>*\<close>
  matches any run of characters, \<open>?\<close> any one character, every other character itself.
  The theory compiles a pattern into tokens, matches a name against them, and proves that
  for the program's pattern the match is exactly ``starts with \<open>Screenshot\<close> and ends
  with \<open>.png\<close>'', the predicate the specification states.
\<close>

datatype glob_tok = GLit char | GAny | GStar

text \<open>
  Character classes (\<open>[...]\<close>) are not modelled: a \<open>[\<close> is read as itself, which is
  what fnmatch does when no \<open>]\<close> closes it; the program's only pattern has neither.
\<close>

fun compile_glob :: "string \<Rightarrow> glob_tok list" where
  "compile_glob [] = []"
| "compile_glob (c # cs) =
     (if c = CHR ''*'' then GStar else if c = CHR ''?'' then GAny else GLit c) # compile_glob cs"

fun fnmatch :: "glob_tok list \<Rightarrow> string \<Rightarrow> bool" where
  "fnmatch [] s = (s = [])"
| "fnmatch (GLit c # ps) s = (case s of [] \<Rightarrow> False | x # xs \<Rightarrow> x = c \<and> fnmatch ps xs)"
| "fnmatch (GAny # ps) s = (case s of [] \<Rightarrow> False | x # xs \<Rightarrow> fnmatch ps xs)"
| "fnmatch (GStar # ps) s =
     (fnmatch ps s \<or> (case s of [] \<Rightarrow> False | x # xs \<Rightarrow> fnmatch (GStar # ps) xs))"

definition screenshot_pattern :: string where
  "screenshot_pattern = ''Screenshot*.png''"

text \<open>The specification's predicate (spec section 4.1 and 9): a literal prefix and suffix.\<close>

definition is_screenshot_name :: "string \<Rightarrow> bool" where
  "is_screenshot_name n \<longleftrightarrow> prefix ''Screenshot'' n \<and> suffix ''.png'' n"

section \<open>Matching literals and a star\<close>

lemma fnmatch_lits [simp]: "fnmatch (map GLit a) s \<longleftrightarrow> s = a"
  by (induction a arbitrary: s) (auto split: list.splits)

lemma fnmatch_lits_append:
  "fnmatch (map GLit a @ ps) s \<longleftrightarrow> (\<exists>r. s = a @ r \<and> fnmatch ps r)"
  by (induction a arbitrary: s) (auto split: list.splits)

lemma fnmatch_star_lits: "fnmatch (GStar # map GLit b) s \<longleftrightarrow> suffix b s"
proof (induction s)
  case Nil
  then show ?case by auto
next
  case (Cons x xs)
  have "suffix b (x # xs) \<longleftrightarrow> b = x # xs \<or> suffix b xs"
    by (auto simp: suffix_Cons)
  with Cons show ?case by auto
qed

text \<open>A pattern \<open>A*B\<close> of two literals matches exactly the names \<open>A @ m @ B\<close>.\<close>

lemma fnmatch_prefix_star_suffix:
  "fnmatch (map GLit a @ GStar # map GLit b) s \<longleftrightarrow> (\<exists>m. s = a @ m @ b)"
proof -
  have "fnmatch (map GLit a @ GStar # map GLit b) s \<longleftrightarrow> (\<exists>r. s = a @ r \<and> suffix b r)"
    by (simp only: fnmatch_lits_append fnmatch_star_lits)
  then show ?thesis by (auto simp: suffix_def)
qed

lemma compile_screenshot_pattern:
  "compile_glob screenshot_pattern = map GLit ''Screenshot'' @ GStar # map GLit ''.png''"
  by (simp add: screenshot_pattern_def)

text \<open>
  The prefix \<open>Screenshot\<close> and the suffix \<open>.png\<close> cannot overlap: the suffix starts with
  a dot and the prefix has none. So a name with both is \<open>Screenshot @ m @ .png\<close>.
\<close>

lemma screenshot_no_overlap:
  assumes "suffix ''.png'' (''Screenshot'' @ r)"
  shows "suffix ''.png'' r"
proof -
  from assms obtain zs where "''Screenshot'' @ r = zs @ ''.png''"
    by (auto simp: suffix_def)
  then have "\<exists>us. ''Screenshot'' = zs @ us \<and> us @ r = ''.png'' \<or>
      ''Screenshot'' @ us = zs \<and> r = us @ ''.png''"
    by (simp only: append_eq_append_conv2)
  then obtain us where
    "(''Screenshot'' = zs @ us \<and> us @ r = ''.png'') \<or> (''Screenshot'' @ us = zs \<and> r = us @ ''.png'')"
    by blast
  then show ?thesis
  proof
    assume a: "''Screenshot'' = zs @ us \<and> us @ r = ''.png''"
    show ?thesis
    proof (cases us)
      case Nil
      with a show ?thesis by simp
    next
      case (Cons c cs)
      with a have dot: "c = CHR ''.''" by simp
      from Cons have "c \<in> set (zs @ us)" by simp
      with a have "c \<in> set ''Screenshot''" by simp
      with dot show ?thesis by simp
    qed
  next
    assume "''Screenshot'' @ us = zs \<and> r = us @ ''.png''"
    then show ?thesis by (simp add: suffix_def)
  qed
qed

section \<open>The program's pattern\<close>

lemma screenshot_glob_form:
  "fnmatch (compile_glob screenshot_pattern) n \<longleftrightarrow> (\<exists>m. n = ''Screenshot'' @ m @ ''.png'')"
  by (simp only: compile_screenshot_pattern fnmatch_prefix_star_suffix)

lemma screenshot_form_iff:
  "(\<exists>m. n = ''Screenshot'' @ m @ ''.png'') \<longleftrightarrow> is_screenshot_name n"
proof
  assume "\<exists>m. n = ''Screenshot'' @ m @ ''.png''"
  then obtain m where n: "n = ''Screenshot'' @ m @ ''.png''" ..
  have "prefix ''Screenshot'' n"
    by (rule prefixI [of _ _ "m @ ''.png''"]) (simp only: n)
  moreover have "suffix ''.png'' n"
    by (rule suffixI [where zs = "''Screenshot'' @ m"]) (simp only: n append_assoc)
  ultimately show "is_screenshot_name n"
    by (simp only: is_screenshot_name_def)
next
  assume "is_screenshot_name n"
  then obtain r where n: "n = ''Screenshot'' @ r" and sfx: "suffix ''.png'' (''Screenshot'' @ r)"
    by (auto simp: is_screenshot_name_def prefix_def)
  from sfx have "suffix ''.png'' r" by (rule screenshot_no_overlap)
  with n show "\<exists>m. n = ''Screenshot'' @ m @ ''.png''"
    by (auto simp: suffix_def)
qed

text \<open>
  C3: the glob that discovery uses is equivalent to the specification's filter (section
  4.1): \<open>fnmatch\<close> of the compiled pattern \<open>Screenshot*.png\<close> accepts a directory
  entry's name exactly when the name starts with the literal \<open>Screenshot\<close> and ends
  with \<open>.png\<close>, case-sensitively.
\<close>

theorem screenshot_glob_iff:
  "fnmatch (compile_glob screenshot_pattern) n \<longleftrightarrow> is_screenshot_name n"
  by (simp only: screenshot_glob_form screenshot_form_iff)

end
