(* ===== verification/FileSystem.thy ===== *)
theory FileSystem
  imports Prelude "HOL-Library.AList"
begin

text \<open>
  The part of the macOS filesystem and of the Python library that \<open>src/main.py\<close> calls:
  \<open>Path.exists\<close>, \<open>Path.is_dir\<close>, \<open>Path.stat\<close>, \<open>os.mkdir\<close> and pathlib's
  \<open>Path.mkdir(parents, exist_ok)\<close>, \<open>os.rename\<close>, \<open>shutil.move\<close> with its copy
  fallback, and \<open>Path.unlink\<close>. Each operation is a function on the filesystem that
  returns the new filesystem or the exception Python raises, \<open>exn + fs\<close>.

  The filesystem is an association list from paths to inodes. Its order is the order in
  which a directory lists its entries (the order \<open>os.scandir\<close>, hence \<open>glob\<close>,
  yields them); new entries go to the end. The invariant \<open>wf_fs\<close> says the list is a
  tree: keys are distinct, the root is a directory, and every other entry's parent is a
  directory. Symbolic links, permissions and file contents (beyond the size) are not
  modelled; a directory's \<open>st_size\<close> is the 64 bytes an empty APFS directory reports.
\<close>

section \<open>Data\<close>

datatype kind = RegFile | Directory

record inode =
  kind :: kind
  st_size :: nat
  st_ctime :: int

type_synonym fs = "(path \<times> inode) list"

datatype errno = EPERM | ENOENT | EEXIST | ENOTDIR | EISDIR | EINVAL | ENOTEMPTY

text \<open>
  The exceptions of the model: an \<open>OSError\<close> with its errno, its path and, for
  \<open>os.rename\<close>, the second path; the two \<open>shutil.Error\<close>s of \<open>shutil.move\<close>; the
  \<open>EOFError\<close> and \<open>KeyboardInterrupt\<close> that \<open>input()\<close> raises.
\<close>

datatype exn =
    OSError errno path "path option"
  | ShutilDestExists path
  | ShutilIntoItself path path
  | EOFError
  | KeyboardInterrupt

section \<open>Queries\<close>

definition path_exists :: "fs \<Rightarrow> path \<Rightarrow> bool" where
  "path_exists fs p \<longleftrightarrow> map_of fs p \<noteq> None"

definition is_dir :: "fs \<Rightarrow> path \<Rightarrow> bool" where
  "is_dir fs p \<longleftrightarrow> (case map_of fs p of Some i \<Rightarrow> kind i = Directory | None \<Rightarrow> False)"

definition is_file :: "fs \<Rightarrow> path \<Rightarrow> bool" where
  "is_file fs p \<longleftrightarrow> (case map_of fs p of Some i \<Rightarrow> kind i = RegFile | None \<Rightarrow> False)"

text \<open>The entries of a directory, in listing order.\<close>

definition children :: "fs \<Rightarrow> path \<Rightarrow> path list" where
  "children fs d = filter (\<lambda>p. p \<noteq> [] \<and> butlast p = d) (map fst fs)"

text \<open>
  The errno of a lookup of a path that is not there: \<open>ENOTDIR\<close> when a proper ancestor is
  a regular file, \<open>ENOENT\<close> otherwise (path resolution stops at the first component that
  is missing or not a directory).
\<close>

definition lookup_errno :: "fs \<Rightarrow> path \<Rightarrow> errno" where
  "lookup_errno fs p = (if list_ex (is_file fs) (butlast (prefixes p)) then ENOTDIR else ENOENT)"

text \<open>\<open>Path.stat()\<close>: the inode, or \<open>FileNotFoundError\<close>/\<open>NotADirectoryError\<close>.\<close>

definition os_stat :: "fs \<Rightarrow> path \<Rightarrow> exn + inode" where
  "os_stat fs p =
     (case map_of fs p of Some i \<Rightarrow> Inr i | None \<Rightarrow> Inl (OSError (lookup_errno fs p) p None))"

section \<open>Creating directories\<close>

definition dir_inode :: "int \<Rightarrow> inode" where
  "dir_inode t = \<lparr>kind = Directory, st_size = 64, st_ctime = t\<rparr>"

text \<open>\<open>os.mkdir(p)\<close> at clock time \<open>t\<close>.\<close>

definition os_mkdir :: "int \<Rightarrow> path \<Rightarrow> fs \<Rightarrow> exn + fs" where
  "os_mkdir t p fs =
     (if path_exists fs p then Inl (OSError EEXIST p None)
      else if is_dir fs (butlast p) then Inr (fs @ [(p, dir_inode t)])
      else Inl (OSError (lookup_errno fs p) p None))"

definition is_not_found :: "exn \<Rightarrow> bool" where
  "is_not_found e \<longleftrightarrow> (case e of OSError ENOENT _ _ \<Rightarrow> True | _ \<Rightarrow> False)"

text \<open>
  pathlib's \<open>Path.mkdir(mode, parents, exist_ok)\<close>, clause by clause:
  \<^verbatim>\<open>
  try: os.mkdir(self, mode)
  except FileNotFoundError:
      if not parents or self.parent == self: raise
      self.parent.mkdir(parents=True, exist_ok=True)
      self.mkdir(mode, parents=False, exist_ok=exist_ok)
  except OSError:
      if not exist_ok or not self.is_dir(): raise
  \<close>
  The recursion is on the parent, then once more on the path itself with
  \<open>parents = False\<close>; the measure is the length of the path, then the flag.
\<close>

function path_mkdir :: "bool \<Rightarrow> bool \<Rightarrow> int \<Rightarrow> path \<Rightarrow> fs \<Rightarrow> exn + fs" where
  "path_mkdir parents exist_ok t p fs =
     (case os_mkdir t p fs of
        Inr fs' \<Rightarrow> Inr fs'
      | Inl e \<Rightarrow>
          if is_not_found e then
            (if \<not> parents \<or> butlast p = p then Inl e
             else (case path_mkdir True True t (butlast p) fs of
                     Inl e' \<Rightarrow> Inl e'
                   | Inr fs' \<Rightarrow> path_mkdir False exist_ok t p fs'))
          else if \<not> exist_ok \<or> \<not> is_dir fs p then Inl e else Inr fs)"
  by pat_completeness auto
termination
  by (relation "measures [\<lambda>(par, ok, t, p, fs). length p, \<lambda>(par, ok, t, p, fs). if par then 1 else 0]")
     (auto simp: butlast_conv_take)

section \<open>Removing files\<close>

text \<open>
  \<open>Path.unlink()\<close>: \<open>unlink(2)\<close> removes a regular file; on a directory macOS fails with
  \<open>EPERM\<close> (Python's \<open>PermissionError\<close>).
\<close>

definition os_unlink :: "path \<Rightarrow> fs \<Rightarrow> exn + fs" where
  "os_unlink p fs =
     (case map_of fs p of
        None \<Rightarrow> Inl (OSError (lookup_errno fs p) p None)
      | Some i \<Rightarrow> if kind i = Directory then Inl (OSError EPERM p None) else Inr (AList.delete p fs))"

section \<open>Renaming and moving\<close>

text \<open>Every entry at or below \<open>src\<close> is re-rooted at \<open>dst\<close>, in place in the listing.\<close>

definition reroot :: "path \<Rightarrow> path \<Rightarrow> path \<Rightarrow> path" where
  "reroot src dst p = (if prefix src p then dst @ drop (length src) p else p)"

definition move_tree :: "path \<Rightarrow> path \<Rightarrow> fs \<Rightarrow> fs" where
  "move_tree src dst fs = map (\<lambda>(p, i). (reroot src dst p, i)) fs"

text \<open>
  \<open>os.rename(src, dst)\<close> (\<open>rename(2)\<close>): a missing source or a destination whose parent
  is not a directory fail with the lookup's errno; renaming onto itself does nothing; a
  directory cannot move below itself (\<open>EINVAL\<close>); an existing destination is replaced
  when both are files or the destination is an empty directory, and otherwise the call
  fails with \<open>EISDIR\<close>, \<open>ENOTDIR\<close> or \<open>ENOTEMPTY\<close>. Replacing a file is silent.
\<close>

definition os_rename :: "path \<Rightarrow> path \<Rightarrow> fs \<Rightarrow> exn + fs" where
  "os_rename src dst fs =
     (case map_of fs src of
        None \<Rightarrow> Inl (OSError (lookup_errno fs src) src (Some dst))
      | Some si \<Rightarrow>
          if \<not> is_dir fs (butlast dst) then Inl (OSError (lookup_errno fs dst) src (Some dst))
          else if src = dst then Inr fs
          else if prefix src dst then Inl (OSError EINVAL src (Some dst))
          else (case map_of fs dst of
                  None \<Rightarrow> Inr (move_tree src dst fs)
                | Some di \<Rightarrow>
                    if kind si = RegFile \<and> kind di = Directory
                    then Inl (OSError EISDIR src (Some dst))
                    else if kind si = Directory \<and> kind di = RegFile
                    then Inl (OSError ENOTDIR src (Some dst))
                    else if children fs dst \<noteq> [] then Inl (OSError ENOTEMPTY src (Some dst))
                    else Inr (move_tree src dst (AList.delete dst fs))))"

text \<open>
  shutil's fallback for a file when \<open>os.rename\<close> fails: \<open>copy2(src, dst)\<close>, which
  opens the source (its lookup error) and creates or truncates the destination (an error
  when its parent is not a directory or it is a directory), followed by
  \<open>os.unlink(src)\<close>. The copy is a new inode written at time \<open>t\<close>.
\<close>

definition copy_fallback :: "int \<Rightarrow> path \<Rightarrow> path \<Rightarrow> fs \<Rightarrow> exn + fs" where
  "copy_fallback t src dst fs =
     (case map_of fs src of
        None \<Rightarrow> Inl (OSError (lookup_errno fs src) src None)
      | Some si \<Rightarrow>
          if \<not> is_dir fs (butlast dst) then Inl (OSError (lookup_errno fs dst) dst None)
          else if is_dir fs dst then Inl (OSError EISDIR dst None)
          else Inr (AList.delete src (AList.update dst (si\<lparr>st_ctime := t\<rparr>) fs)))"

text \<open>
  shutil's fallback for a directory: refuse to move a directory into itself
  (\<open>_destinsrc\<close>), then \<open>copytree(src, real_dst)\<close>, whose \<open>os.makedirs\<close> fails when
  the target exists, and \<open>rmtree(src)\<close>. Copy and removal together are modelled as
  moving the subtree onto the directory that \<open>makedirs\<close> created.
\<close>

definition copytree_fallback :: "int \<Rightarrow> path \<Rightarrow> path \<Rightarrow> path \<Rightarrow> fs \<Rightarrow> exn + fs" where
  "copytree_fallback t src dst real_dst fs =
     (if prefix src dst then Inl (ShutilIntoItself src dst)
      else (case path_mkdir True False t real_dst fs of
              Inl e \<Rightarrow> Inl e
            | Inr fs' \<Rightarrow> Inr (move_tree src real_dst (AList.delete real_dst fs'))))"

text \<open>
  \<open>shutil.move(src, dst)\<close>:
  \<^verbatim>\<open>
  real_dst = dst
  if os.path.isdir(dst):
      if _samefile(src, dst): os.rename(src, dst); return
      real_dst = os.path.join(dst, _basename(src))
      if os.path.exists(real_dst): raise Error("Destination path ... already exists")
  try: os.rename(src, real_dst)
  except OSError:
      if os.path.isdir(src): ... copytree(src, real_dst); rmtree(src)
      else: copy2(src, real_dst); os.unlink(src)
  \<close>
  When \<open>dst\<close> is not a directory, \<open>os.rename\<close> replaces an existing file there.
\<close>

definition shutil_move :: "int \<Rightarrow> path \<Rightarrow> path \<Rightarrow> fs \<Rightarrow> exn + fs" where
  "shutil_move t src dst fs =
     (if is_dir fs dst \<and> src = dst then os_rename src dst fs
      else
        let real_dst = (if is_dir fs dst then dst @ [path_name src] else dst)
        in if is_dir fs dst \<and> path_exists fs real_dst then Inl (ShutilDestExists real_dst)
           else (case os_rename src real_dst fs of
                   Inr fs' \<Rightarrow> Inr fs'
                 | Inl e \<Rightarrow>
                     if is_dir fs src then copytree_fallback t src dst real_dst fs
                     else copy_fallback t src real_dst fs))"

section \<open>Exception messages\<close>

text \<open>
  \<open>str(e)\<close> of the exceptions, as the script prints them after \<open>Error moving ...: \<close>,
  \<open>Error deleting ...: \<close> and \<open>Error: \<close>: macOS errno numbers and \<open>strerror\<close> texts,
  and the paths in quotes (Python's \<open>repr\<close>, which switches to double quotes for a
  path containing a single quote; not modelled). \<open>str(KeyboardInterrupt())\<close> is empty.
\<close>

primrec errno_code :: "errno \<Rightarrow> nat" where
  "errno_code EPERM = 1"
| "errno_code ENOENT = 2"
| "errno_code EEXIST = 17"
| "errno_code ENOTDIR = 20"
| "errno_code EISDIR = 21"
| "errno_code EINVAL = 22"
| "errno_code ENOTEMPTY = 66"

primrec strerror :: "errno \<Rightarrow> string" where
  "strerror EPERM = ''Operation not permitted''"
| "strerror ENOENT = ''No such file or directory''"
| "strerror EEXIST = ''File exists''"
| "strerror ENOTDIR = ''Not a directory''"
| "strerror EISDIR = ''Is a directory''"
| "strerror EINVAL = ''Invalid argument''"
| "strerror ENOTEMPTY = ''Directory not empty''"

definition quoted :: "path \<Rightarrow> string" where
  "quoted p = CHR 0x27 # render_path p @ [CHR 0x27]"

primrec exn_str :: "exn \<Rightarrow> string" where
  "exn_str (OSError en p p2) =
     ''[Errno '' @ str_nat (errno_code en) @ ''] '' @ strerror en @ '': '' @ quoted p @
     (case p2 of None \<Rightarrow> [] | Some q \<Rightarrow> '' -> '' @ quoted q)"
| "exn_str (ShutilDestExists p) = ''Destination path '' @ quoted p @ '' already exists''"
| "exn_str (ShutilIntoItself p q) =
     ''Cannot move a directory '' @ quoted p @ '' into itself '' @ quoted q @ ''.''"
| "exn_str EOFError = ''EOF when reading a line''"
| "exn_str KeyboardInterrupt = []"

section \<open>The invariant\<close>

definition wf_fs :: "fs \<Rightarrow> bool" where
  "wf_fs fs \<longleftrightarrow> distinct (map fst fs) \<and> is_dir fs [] \<and>
     (\<forall>p \<in> set (map fst fs). p \<noteq> [] \<longrightarrow> is_dir fs (butlast p))"

lemma map_of_SomeD_keys: "map_of fs p = Some i \<Longrightarrow> p \<in> fst ` set fs"
  by (metis map_of_eq_None_iff option.distinct(1))

lemma path_exists_iff: "path_exists fs p \<longleftrightarrow> p \<in> fst ` set fs"
  by (simp add: path_exists_def map_of_eq_None_iff)

lemma is_dir_exists: "is_dir fs p \<Longrightarrow> p \<in> fst ` set fs"
  by (cases "map_of fs p") (auto simp: is_dir_def dest: map_of_SomeD_keys)

lemma is_dir_not_file: "is_dir fs p \<Longrightarrow> \<not> is_file fs p"
  by (auto simp: is_dir_def is_file_def split: option.splits)

lemma map_of_append_old: "p \<in> fst ` set fs \<Longrightarrow> map_of (fs @ ys) p = map_of fs p"
  by (cases "map_of fs p") (auto simp: map_add_def map_of_eq_None_iff)

lemma is_dir_append_old: "p \<in> fst ` set fs \<Longrightarrow> is_dir (fs @ ys) p = is_dir fs p"
  using map_of_append_old [of p fs ys] by (simp add: is_dir_def del: map_of_append)

lemma wf_fs_os_mkdir:
  assumes "wf_fs fs" and "os_mkdir t p fs = Inr fs'"
  shows "wf_fs fs'"
proof -
  from assms(2) have new: "p \<notin> fst ` set fs" and par: "is_dir fs (butlast p)"
    and fs': "fs' = fs @ [(p, dir_inode t)]"
    by (auto simp: os_mkdir_def path_exists_iff split: if_splits)
  from par have "butlast p \<in> fst ` set fs"
    by (rule is_dir_exists)
  with assms(1) new par show ?thesis
    unfolding fs' wf_fs_def
    by (auto simp: is_dir_append_old is_dir_exists)
qed

lemma wf_fs_os_unlink:
  assumes "wf_fs fs" and "os_unlink p fs = Inr fs'"
  shows "wf_fs fs'"
proof -
  from assms(2) obtain i where pi: "map_of fs p = Some i" and reg: "kind i \<noteq> Directory"
    and fs': "fs' = AList.delete p fs"
    by (auto simp: os_unlink_def split: option.splits if_splits)
  have nd: "\<And>q. is_dir fs q \<Longrightarrow> q \<noteq> p"
    using pi reg by (auto simp: is_dir_def)
  have keep: "\<And>q. is_dir fs q \<Longrightarrow> is_dir fs' q"
    using nd by (simp add: fs' is_dir_def)
  from assms(1) show ?thesis
    unfolding wf_fs_def fs'
    using keep [unfolded fs'] by (auto simp: delete_keys distinct_removeAll)
qed

section \<open>Moving onto an existing file\<close>

lemma wf_fs_ancestor_dir:
  assumes "wf_fs fs" and "p \<in> fst ` set fs" and "prefix q p" and "q \<noteq> p"
  shows "is_dir fs q"
  using assms(2-4)
proof (induction p rule: rev_induct)
  case Nil
  then show ?case by simp
next
  case (snoc x p)
  from snoc.prems(2,3) have qp: "prefix q p"
    by (metis prefix_snoc)
  have "p @ [x] \<in> set (map fst fs)"
    using snoc.prems(1) by simp
  with assms(1) have "is_dir fs (butlast (p @ [x]))"
    unfolding wf_fs_def by blast
  then have d: "is_dir fs p" by simp
  show ?case
  proof (cases "q = p")
    case True
    with d show ?thesis by simp
  next
    case False
    from d have "p \<in> fst ` set fs" by (rule is_dir_exists)
    then show ?thesis using qp False by (rule snoc.IH)
  qed
qed

lemma keys_delete: "fst ` set (AList.delete k al) = fst ` set al - {k}"
  by (metis delete_keys set_map set_removeAll)

lemma wf_fs_file_no_children:
  assumes "wf_fs fs" and "is_file fs p"
  shows "children fs p = []"
  using assms by (auto simp: children_def wf_fs_def filter_empty_conv dest: is_dir_not_file)

lemma map_of_rename_key:
  assumes "d \<notin> fst ` set xs" and "s \<noteq> d"
  shows "map_of (map (\<lambda>(p, i). (if p = s then d else p, i)) xs) q =
           (if q = d then map_of xs s else if q = s then None else map_of xs q)"
  using assms by (induction xs arbitrary: q) auto

lemma move_tree_single:
  assumes "\<forall>p \<in> fst ` set fs. prefix s p \<longrightarrow> p = s"
  shows "move_tree s d fs = map (\<lambda>(p, i). (if p = s then d else p, i)) fs"
  using assms by (induction fs) (auto simp: move_tree_def reroot_def)

lemma shutil_move_replaces_file:
  assumes wf: "wf_fs fs"
    and src: "map_of fs src = Some si" "kind si = RegFile"
    and dst: "map_of fs dst = Some di" "kind di = RegFile"
    and ne: "src \<noteq> dst"
  shows "\<exists>fs'. shutil_move t src dst fs = Inr fs' \<and> map_of fs' dst = Some si \<and>
           map_of fs' src = None \<and> (\<forall>p. p \<noteq> src \<and> p \<noteq> dst \<longrightarrow> map_of fs' p = map_of fs p)"
proof -
  have sf: "is_file fs src" and df: "is_file fs dst"
    using src dst by (simp_all add: is_file_def)
  have nd: "\<not> is_dir fs dst"
    using df is_dir_not_file by blast
  have dk: "dst \<in> fst ` set fs" and sk: "src \<in> fst ` set fs"
    using src dst by (simp_all add: map_of_SomeD_keys)
  have "dst \<noteq> []"
    using wf nd by (auto simp: wf_fs_def)
  then have par: "is_dir fs (butlast dst)"
    using wf dk by (auto simp: wf_fs_def)
  have np: "\<not> prefix src dst"
    using wf_fs_ancestor_dir [OF wf dk] ne sf is_dir_not_file by blast
  have nc: "children fs dst = []"
    using wf df by (rule wf_fs_file_no_children)
  have only: "\<forall>p \<in> fst ` set (AList.delete dst fs). prefix src p \<longrightarrow> p = src"
    using wf_fs_ancestor_dir [OF wf] sf is_dir_not_file by (auto simp: keys_delete)
  have "shutil_move t src dst fs = Inr (move_tree src dst (AList.delete dst fs))"
    using src dst ne nd par np nc by (simp add: shutil_move_def os_rename_def)
  moreover have "dst \<notin> fst ` set (AList.delete dst fs)"
    by (simp add: keys_delete)
  ultimately show ?thesis
    using ne src by (simp add: move_tree_single [OF only] map_of_rename_key delete_conv)
qed

section \<open>Evaluating \<open>path_mkdir\<close>\<close>

text \<open>
  The defining equation of \<open>path_mkdir\<close> unfolds forever under the simplifier; these
  rules unfold it once the result of \<open>os.mkdir\<close> is known.
\<close>

declare path_mkdir.simps [simp del]

lemma path_mkdir_created [py_eval]:
  "os_mkdir t p fs = Inr fs' \<Longrightarrow> path_mkdir parents ok t p fs = Inr fs'"
  by (simp add: path_mkdir.simps)

lemma path_mkdir_failed [py_eval]:
  "os_mkdir t p fs = Inl e \<Longrightarrow> \<not> is_not_found e \<Longrightarrow>
   path_mkdir parents ok t p fs = (if \<not> ok \<or> \<not> is_dir fs p then Inl e else Inr fs)"
  by (simp add: path_mkdir.simps)

lemma path_mkdir_no_parent [py_eval]:
  "os_mkdir t p fs = Inl e \<Longrightarrow> is_not_found e \<Longrightarrow>
   path_mkdir parents ok t p fs =
     (if \<not> parents \<or> butlast p = p then Inl e
      else (case path_mkdir True True t (butlast p) fs of
              Inl e' \<Rightarrow> Inl e'
            | Inr fs' \<Rightarrow> path_mkdir False ok t p fs'))"
  by (simp add: path_mkdir.simps)

declare os_stat_def [py_eval] os_mkdir_def [py_eval] is_not_found_def [py_eval] os_unlink_def [py_eval]
  path_exists_def [py_eval] is_dir_def [py_eval] is_file_def [py_eval] children_def [py_eval]
  lookup_errno_def [py_eval] dir_inode_def [py_eval] reroot_def [py_eval] move_tree_def [py_eval] os_rename_def [py_eval]
  copy_fallback_def [py_eval] copytree_fallback_def [py_eval] shutil_move_def [py_eval]
  quoted_def [py_eval]

end
