(* ===== verification/Discovery.thy ===== *)
theory Discovery
  imports Glob FileSystem
begin

text \<open>
  \<open>find_screenshots\<close> (\<open>src/main.py\<close>, lines 10--26): for each of
  \<open>~/Desktop\<close>, \<open>~/Downloads\<close>, \<open>~/Pictures\<close> in this order, if the location exists,
  the entries that \<open>location.glob("Screenshot*.png")\<close> yields, concatenated.
  pathlib's glob of a pattern with a wildcard and no separator lists the directory with
  \<open>os.scandir\<close> (listing order) and keeps the entries whose name matches; on a path that
  is not a directory it yields nothing. It keeps directories as well as files.
\<close>

definition screenshot_locations :: "path \<Rightarrow> path list" where
  "screenshot_locations home =
     [home @ [''Desktop''], home @ [''Downloads''], home @ [''Pictures'']]"

definition path_glob :: "fs \<Rightarrow> path \<Rightarrow> string \<Rightarrow> path list" where
  "path_glob fs d pat =
     (if is_dir fs d then filter (\<lambda>p. fnmatch (compile_glob pat) (path_name p)) (children fs d)
      else [])"

definition find_screenshots :: "fs \<Rightarrow> path \<Rightarrow> path list" where
  "find_screenshots fs home =
     concat (map (\<lambda>loc. if path_exists fs loc then path_glob fs loc screenshot_pattern else [])
                 (screenshot_locations home))"

text \<open>
  A small home directory for the examples: \<open>/Users/ann\<close> with a Desktop holding a
  screenshot, an unrelated file and a directory whose name matches the pattern, no
  Downloads, and Pictures holding a screenshot.
\<close>

definition demo_file :: "nat \<Rightarrow> int \<Rightarrow> inode" where
  "demo_file n t = \<lparr>kind = RegFile, st_size = n, st_ctime = t\<rparr>"

definition demo_home :: path where
  "demo_home = [''Users'', ''ann'']"

definition demo_fs :: fs where
  "demo_fs =
     [([], dir_inode 0), ([''Users''], dir_inode 0), (demo_home, dir_inode 0),
      (demo_home @ [''Desktop''], dir_inode 0),
      (demo_home @ [''Desktop'', ''Screenshot 1.png''], demo_file 1536 1700000000),
      (demo_home @ [''Desktop'', ''notes.txt''], demo_file 10 1700000000),
      (demo_home @ [''Desktop'', ''Screenshot dir.png''], dir_inode 1700000000),
      (demo_home @ [''Pictures''], dir_inode 0),
      (demo_home @ [''Pictures'', ''Screenshot 2.png''], demo_file 2048 1709251199)]"

section \<open>Membership\<close>

lemma children_iff: "p \<in> set (children fs d) \<longleftrightarrow> p \<in> fst ` set fs \<and> p \<noteq> [] \<and> butlast p = d"
  by (auto simp: children_def)

lemma path_glob_iff:
  "p \<in> set (path_glob fs d screenshot_pattern) \<longleftrightarrow>
     is_dir fs d \<and> p \<in> fst ` set fs \<and> p \<noteq> [] \<and> butlast p = d \<and>
     is_screenshot_name (last p)"
proof -
  have g: "fnmatch (compile_glob screenshot_pattern) n \<longleftrightarrow> is_screenshot_name n" for n
    by (simp only: screenshot_glob_form screenshot_form_iff)
  show ?thesis
    by (auto simp: path_glob_def children_iff g path_name_def)
qed

lemma screenshot_locations_iff:
  "loc \<in> set (screenshot_locations home) \<longleftrightarrow>
     loc \<in> {home @ [''Desktop''], home @ [''Downloads''], home @ [''Pictures'']}"
  by (simp add: screenshot_locations_def)

lemma path_glob_not_dir: "\<not> is_dir fs d \<Longrightarrow> path_glob fs d pat = []"
  by (simp add: path_glob_def)

text \<open>The existence check is subsumed by the glob's own directory check.\<close>

lemma find_screenshots_globs:
  "find_screenshots fs home =
     path_glob fs (home @ [''Desktop'']) screenshot_pattern @
     path_glob fs (home @ [''Downloads'']) screenshot_pattern @
     path_glob fs (home @ [''Pictures'']) screenshot_pattern"
proof -
  have "\<And>loc. \<not> path_exists fs loc \<Longrightarrow> path_glob fs loc screenshot_pattern = []"
    using is_dir_exists path_exists_iff path_glob_not_dir by blast
  then show ?thesis
    by (auto simp: find_screenshots_def screenshot_locations_def)
qed

lemma path_glob_parent:
  "p \<in> set (path_glob fs d screenshot_pattern) \<Longrightarrow> butlast p = d"
  by (simp add: path_glob_iff)

lemma find_screenshots_entry:
  "p \<in> set (find_screenshots fs h) \<Longrightarrow> p \<in> fst ` set fs \<and> is_screenshot_name (path_name p)"
  by (auto simp: find_screenshots_def screenshot_locations_def path_glob_iff path_name_def split: if_splits)

section \<open>Properties of discovery\<close>

text \<open>
  C1: a path is discovered exactly when it is an entry of the filesystem whose parent is
  one of the three locations, that location is a directory, and the entry's name starts
  with \<open>Screenshot\<close> and ends with \<open>.png\<close> (specification, sections 3 and 4.1).
\<close>

theorem find_screenshots_iff:
  "p \<in> set (find_screenshots fs home) \<longleftrightarrow>
     p \<in> fst ` set fs \<and> p \<noteq> [] \<and> butlast p \<in> set (screenshot_locations home) \<and>
     is_dir fs (butlast p) \<and> is_screenshot_name (last p)"
proof -
  have "\<And>loc. is_dir fs loc \<Longrightarrow> path_exists fs loc"
    by (simp add: path_exists_iff is_dir_exists)
  then show ?thesis
    by (auto simp: find_screenshots_def path_glob_iff)
qed

text \<open>
  C18: a location that does not exist is skipped without an error and the other two are
  still searched, in order (specification, section 8): with no Downloads, discovery is
  the Desktop matches followed by the Pictures matches.
\<close>

theorem find_screenshots_missing_location:
  assumes "\<not> path_exists fs (home @ [''Downloads''])"
  shows "find_screenshots fs home =
     path_glob fs (home @ [''Desktop'']) screenshot_pattern @
     path_glob fs (home @ [''Pictures'']) screenshot_pattern"
proof -
  have "\<not> is_dir fs (home @ [''Downloads''])"
    using assms is_dir_exists path_exists_iff by blast
  then show ?thesis
    by (simp add: find_screenshots_globs path_glob_not_dir)
qed

theorem find_screenshots_missing_location_witness:
  "\<not> path_exists demo_fs (demo_home @ [''Downloads'']) \<and>
   find_screenshots demo_fs demo_home =
     path_glob demo_fs (demo_home @ [''Desktop'']) screenshot_pattern @
     path_glob demo_fs (demo_home @ [''Pictures'']) screenshot_pattern"
proof -
  have m: "\<not> path_exists demo_fs (demo_home @ [''Downloads''])"
    by (simp add: path_exists_def demo_fs_def demo_home_def)
  show ?thesis using find_screenshots_missing_location [OF m] m by simp
qed

text \<open>
  C19: on a well-formed filesystem discovery never reports a path twice: the three
  locations are distinct directories and each lists an entry once.
\<close>

theorem find_screenshots_distinct:
  assumes "wf_fs fs"
  shows "distinct (find_screenshots fs home)"
proof -
  have d: "distinct (path_glob fs d screenshot_pattern)" for d
    using assms by (simp add: path_glob_def children_def wf_fs_def distinct_map_filter)
  have disj: "a = b" if "x \<in> set (path_glob fs (home @ [a]) screenshot_pattern)"
    and "x \<in> set (path_glob fs (home @ [b]) screenshot_pattern)" for x a b
    using path_glob_parent [OF that(1)] path_glob_parent [OF that(2)] by simp
  show ?thesis
    unfolding find_screenshots_globs distinct_append
    by (auto simp: d dest: disj)
qed

theorem find_screenshots_distinct_witness:
  "wf_fs demo_fs \<and> distinct (find_screenshots demo_fs demo_home)"
proof -
  have wf: "wf_fs demo_fs"
    by (simp add: wf_fs_def demo_fs_def demo_home_def is_dir_def dir_inode_def demo_file_def)
  show ?thesis using find_screenshots_distinct [OF wf] wf by simp
qed

end
