(* ===== verification/FsInvariant.thy ===== *)
theory FsInvariant
  imports FileSystem
begin

text \<open>
  The tree invariant \<open>wf_fs\<close> under the operations of \<open>FileSystem\<close> that the script
  calls: re-rooting a subtree (\<open>move_tree\<close>), removing an entry without children,
  \<open>os.rename\<close>, pathlib's recursive \<open>mkdir\<close> and what it adds to the listing,
  both fallbacks of \<open>shutil.move\<close> and \<open>shutil.move\<close> itself; when
  \<open>mkdir -p\<close> succeeds; and the effect of \<open>shutil.move\<close> of a file onto a fresh path,
  the step of the move action.
\<close>

section \<open>Lemmas on the tree\<close>

lemma prefix_butlast: "prefix (butlast xs) xs"
  unfolding prefix_def by (cases xs rule: rev_cases) auto

lemma map_of_map_key_inj:
  assumes "inj_on f (fst ` set xs)" and "q \<in> fst ` set xs"
  shows "map_of (map (\<lambda>(p, i). (f p, i)) xs) (f q) = map_of xs q"
  using assms
proof (induction xs)
  case Nil
  then show ?case by simp
next
  case (Cons a xs)
  obtain p i where a: "a = (p, i)" by (cases a)
  show ?case
  proof (cases "q = p")
    case True
    with a show ?thesis by simp
  next
    case False
    with Cons.prems a have "f q \<noteq> f p" and "q \<in> fst ` set xs" and "inj_on f (fst ` set xs)"
      by (auto simp: inj_on_def)
    with Cons.IH a False show ?thesis by simp
  qed
qed

lemma map_of_map_key_notin:
  assumes "\<forall>p \<in> fst ` set xs. f p \<noteq> k"
  shows "map_of (map (\<lambda>(p, i). (f p, i)) xs) k = None"
  using assms by (induction xs) auto

lemma wf_fs_no_key_below:
  assumes "wf_fs fs" and "d \<notin> fst ` set fs" and "p \<in> fst ` set fs"
  shows "\<not> prefix d p"
  using wf_fs_ancestor_dir [OF assms(1) assms(3)] assms(2,3) is_dir_exists by blast

lemma reroot_inj:
  assumes "wf_fs fs" and "dst \<notin> fst ` set fs"
  shows "inj_on (reroot src dst) (fst ` set fs)"
proof (rule inj_onI)
  fix p q assume p: "p \<in> fst ` set fs" and q: "q \<in> fst ` set fs" and e: "reroot src dst p = reroot src dst q"
  have np: "\<not> prefix dst p" and nq: "\<not> prefix dst q"
    using wf_fs_no_key_below [OF assms] p q by blast+
  show "p = q"
  proof (cases "prefix src p"; cases "prefix src q")
    assume "prefix src p" "prefix src q"
    with e show ?thesis by (auto simp: reroot_def prefix_def)
  next
    assume "prefix src p" "\<not> prefix src q"
    with e nq show ?thesis by (auto simp: reroot_def)
  next
    assume "\<not> prefix src p" "prefix src q"
    with e np show ?thesis by (auto simp: reroot_def)
  next
    assume "\<not> prefix src p" "\<not> prefix src q"
    with e show ?thesis by (simp add: reroot_def)
  qed
qed

lemma is_dir_move_tree:
  assumes "wf_fs fs" and "dst \<notin> fst ` set fs" and "q \<in> fst ` set fs"
  shows "is_dir (move_tree src dst fs) (reroot src dst q) = is_dir fs q"
  using map_of_map_key_inj [OF reroot_inj [OF assms(1,2)] assms(3)]
  by (simp add: is_dir_def move_tree_def)

lemma reroot_butlast:
  assumes "prefix src p" and "p \<noteq> src"
  shows "prefix src (butlast p) \<and> reroot src dst (butlast p) = butlast (reroot src dst p)"
proof -
  from assms obtain r where p: "p = src @ r" and "r \<noteq> []"
    by (auto simp: prefix_def)
  then show ?thesis
    by (simp add: reroot_def butlast_append)
qed

lemma wf_fs_move_tree:
  assumes wf: "wf_fs fs" and src: "src \<in> fst ` set fs" "src \<noteq> []"
    and dst: "dst \<notin> fst ` set fs" "dst \<noteq> []" "is_dir fs (butlast dst)"
    and np: "\<not> prefix src dst"
  shows "wf_fs (move_tree src dst fs)"
proof -
  let ?r = "reroot src dst"
  have keys: "fst ` set (move_tree src dst fs) = ?r ` fst ` set fs"
    by (force simp: move_tree_def)
  have dist: "distinct (map fst (move_tree src dst fs))"
  proof -
    have d0: "distinct (map fst fs)" using wf by (simp add: wf_fs_def)
    have "distinct (map ?r (map fst fs))"
      using d0 reroot_inj [OF wf dst(1)] by (simp only: distinct_map [of ?r] set_map)
    then show ?thesis by (simp add: move_tree_def case_prod_unfold comp_def)
  qed
  have root: "is_dir (move_tree src dst fs) []"
  proof -
    have "[] \<in> fst ` set fs" using wf is_dir_exists by (auto simp: wf_fs_def)
    moreover have "?r [] = []" using src(2) by (simp add: reroot_def)
    ultimately show ?thesis
      using is_dir_move_tree [OF wf dst(1), where src = src and q = "[]"] wf by (simp add: wf_fs_def)
  qed
  have par: "is_dir (move_tree src dst fs) (butlast (?r k))" if k: "k \<in> fst ` set fs" and ne: "?r k \<noteq> []" for k
  proof (cases "prefix src k")
    case True
    show ?thesis
    proof (cases "k = src")
      case ks: True
      have "\<not> prefix src (butlast dst)"
        using np prefix_order.trans [OF _ prefix_butlast] by blast
      then have "?r (butlast dst) = butlast dst" by (simp add: reroot_def)
      moreover have "butlast dst \<in> fst ` set fs" using dst(3) by (rule is_dir_exists)
      ultimately show ?thesis
        using ks is_dir_move_tree [OF wf dst(1), where src = src and q = "butlast dst"] dst(3) by (simp add: reroot_def)
    next
      case False
      with True have b: "prefix src (butlast k)" "?r (butlast k) = butlast (?r k)"
        using reroot_butlast by blast+
      have "k \<noteq> []" using True False src(2) by auto
      with wf k have "is_dir fs (butlast k)" by (auto simp: wf_fs_def)
      then show ?thesis
        using is_dir_move_tree [OF wf dst(1) is_dir_exists, where src = src] b by metis
    qed
  next
    case False
    then have r: "?r k = k" by (simp add: reroot_def)
    have "\<not> prefix src (butlast k)"
      using False prefix_order.trans [OF _ prefix_butlast] by blast
    then have rb: "?r (butlast k) = butlast k" by (simp add: reroot_def)
    from wf k ne r have "is_dir fs (butlast k)" by (auto simp: wf_fs_def)
    then show ?thesis
      using is_dir_move_tree [OF wf dst(1) is_dir_exists, where src = src] r rb by metis
  qed
  show ?thesis
    unfolding wf_fs_def using dist root par keys by auto
qed

lemma map_of_delete_other: "q \<noteq> d \<Longrightarrow> map_of (AList.delete d fs) q = map_of fs q"
  by (simp add: delete_conv)

lemma is_dir_delete_other: "q \<noteq> d \<Longrightarrow> is_dir (AList.delete d fs) q = is_dir fs q"
  by (simp add: is_dir_def map_of_delete_other)

lemma wf_fs_delete_leaf:
  assumes "wf_fs fs" and "children fs d = []" and "d \<noteq> []"
  shows "wf_fs (AList.delete d fs)"
proof -
  have "butlast k \<noteq> d" if "k \<in> fst ` set fs" "k \<noteq> []" for k
    using assms(2) that by (auto simp: children_def filter_empty_conv)
  with assms show ?thesis
    unfolding wf_fs_def
    by (auto simp: is_dir_delete_other delete_keys distinct_removeAll keys_delete)
qed

lemma wf_fs_root_children:
  assumes "wf_fs fs" and "k \<in> fst ` set fs" and "k \<noteq> []"
  shows "children fs [] \<noteq> []"
proof -
  let ?q = "take 1 k"
  have "?q \<in> fst ` set fs"
  proof (cases "?q = k")
    case True
    with assms(2) show ?thesis by simp
  next
    case False
    then show ?thesis
      using wf_fs_ancestor_dir [OF assms(1,2), of ?q] is_dir_exists by (simp add: take_is_prefix)
  qed
  moreover have "?q \<noteq> []" and "butlast ?q = []"
    using assms(3) by (cases k; simp)+
  ultimately have "?q \<in> set (children fs [])"
    by (simp add: children_def)
  then show ?thesis by auto
qed

lemma wf_fs_os_rename:
  assumes wf: "wf_fs fs" and r: "os_rename src dst fs = Inr fs'"
  shows "wf_fs fs'"
proof -
  from r obtain si where src: "map_of fs src = Some si" and par: "is_dir fs (butlast dst)"
    by (auto simp: os_rename_def split: option.splits if_splits)
  show ?thesis
  proof (cases "src = dst")
    case True
    with r src par have "fs' = fs" by (simp add: os_rename_def)
    with wf show ?thesis by simp
  next
    case ne: False
    with r src par have np: "\<not> prefix src dst"
      by (auto simp: os_rename_def split: if_splits)
    have sk: "src \<in> fst ` set fs" using src by (rule map_of_SomeD_keys)
    have sne: "src \<noteq> []" using np by auto
    have root: "[] \<in> fst ` set fs" using wf is_dir_exists by (auto simp: wf_fs_def)
    show ?thesis
    proof (cases "map_of fs dst")
      case None
      then have dk: "dst \<notin> fst ` set fs" by (simp add: map_of_eq_None_iff)
      with root have "dst \<noteq> []" by auto
      moreover have "fs' = move_tree src dst fs"
        using r src par ne np None by (simp add: os_rename_def)
      ultimately show ?thesis
        using wf_fs_move_tree [OF wf sk sne dk _ par np] by simp
    next
      case (Some di)
      with r src par ne np have nc: "children fs dst = []"
        and fs': "fs' = move_tree src dst (AList.delete dst fs)"
        by (auto simp: os_rename_def split: if_splits)
      have dne: "dst \<noteq> []" using nc wf_fs_root_children [OF wf sk sne] by auto
      have wf': "wf_fs (AList.delete dst fs)"
        using wf nc dne by (rule wf_fs_delete_leaf)
      have "butlast dst \<noteq> dst" using dne by (cases dst rule: rev_cases) auto
      then have par': "is_dir (AList.delete dst fs) (butlast dst)"
        using par by (simp add: is_dir_delete_other)
      have sk': "src \<in> fst ` set (AList.delete dst fs)" using sk ne by (simp add: keys_delete)
      have dk': "dst \<notin> fst ` set (AList.delete dst fs)" by (simp add: keys_delete)
      show ?thesis
        unfolding fs' using wf_fs_move_tree [OF wf' sk' sne dk' dne par' np] .
    qed
  qed
qed

lemma path_mkdir_InrE:
  assumes "path_mkdir par ok t p fs = Inr fs'"
  obtains (created) "os_mkdir t p fs = Inr fs'"
  | (existing) "fs' = fs" "ok" "is_dir fs p"
  | (parents) e fs1 where "os_mkdir t p fs = Inl e" "is_not_found e" "\<not> (\<not> par \<or> butlast p = p)"
      "path_mkdir True True t (butlast p) fs = Inr fs1" "path_mkdir False ok t p fs1 = Inr fs'"
  using assms by (subst (asm) path_mkdir.simps) (auto split: sum.splits if_splits)

text \<open>What \<open>Path.mkdir\<close> adds: directories on the path, at the end of the listing.\<close>

lemma path_mkdir_adds:
  "path_mkdir par ok t p fs = Inr fs' \<Longrightarrow>
   \<exists>zs. fs' = fs @ zs \<and> (\<forall>(q, i) \<in> set zs. prefix q p \<and> i = dir_inode t)"
proof (induction par ok t p fs arbitrary: fs' rule: path_mkdir.induct)
  case (1 par ok t p fs)
  from "1.prems" show ?case
  proof (cases rule: path_mkdir_InrE)
    case created
    then show ?thesis by (auto simp: os_mkdir_def split: if_splits)
  next
    case existing
    then show ?thesis by simp
  next
    case (parents e fs1)
    obtain zs1 where z1: "fs1 = fs @ zs1" "\<forall>(q, i) \<in> set zs1. prefix q (butlast p) \<and> i = dir_inode t"
      using "1.IH"(1) [OF parents(1-4)] by blast
    obtain zs2 where z2: "fs' = fs1 @ zs2" "\<forall>(q, i) \<in> set zs2. prefix q p \<and> i = dir_inode t"
      using "1.IH"(2) [OF parents(1-5)] by blast
    have "\<forall>(q, i) \<in> set zs1. prefix q p \<and> i = dir_inode t"
      using z1(2) prefix_butlast prefix_order.trans by fastforce
    with z1 z2 show ?thesis by (rule_tac x = "zs1 @ zs2" in exI) auto
  qed
qed

lemma wf_fs_path_mkdir:
  "wf_fs fs \<Longrightarrow> path_mkdir par ok t p fs = Inr fs' \<Longrightarrow> wf_fs fs'"
proof (induction par ok t p fs arbitrary: fs' rule: path_mkdir.induct)
  case (1 par ok t p fs)
  from "1.prems"(2) show ?case
  proof (cases rule: path_mkdir_InrE)
    case created
    then show ?thesis using "1.prems"(1) wf_fs_os_mkdir by blast
  next
    case existing
    then show ?thesis using "1.prems"(1) by simp
  next
    case (parents e fs1)
    have "wf_fs fs1" using "1.IH"(1) [OF parents(1-3) "1.prems"(1) parents(4)] .
    then show ?thesis using "1.IH"(2) [OF parents(1-4) _ parents(5)] by blast
  qed
qed

lemma path_mkdir_new:
  "path_mkdir par ok t p fs = Inr fs' \<Longrightarrow> \<not> ok \<Longrightarrow> p \<notin> fst ` set fs \<and> p \<in> fst ` set fs'"
proof (induction par ok t p fs arbitrary: fs' rule: path_mkdir.induct)
  case (1 par ok t p fs)
  from "1.prems"(1) show ?case
  proof (cases rule: path_mkdir_InrE)
    case created
    then show ?thesis by (auto simp: os_mkdir_def path_exists_iff split: if_splits)
  next
    case existing
    with "1.prems"(2) show ?thesis by simp
  next
    case (parents e fs1)
    have "p \<notin> fst ` set fs1 \<and> p \<in> fst ` set fs'"
      using "1.IH"(2) [OF parents(1-5) "1.prems"(2)] .
    moreover obtain zs where "fs1 = fs @ zs"
      using path_mkdir_adds [OF parents(4)] by blast
    ultimately show ?thesis by auto
  qed
qed

lemma butlast_shorter: "k \<noteq> [] \<Longrightarrow> length (butlast k) < length k"
  by simp

lemma is_dir_update:
  "is_dir (AList.update k v fs) q = (if q = k then kind v = Directory else is_dir fs q)"
  by (simp add: is_dir_def update_conv')

lemma keys_update: "fst ` set (AList.update k v fs) = insert k (fst ` set fs)"
  by (induction fs) auto

lemma wf_fs_copy_fallback:
  assumes wf: "wf_fs fs" and nd: "\<not> is_dir fs src" and c: "copy_fallback t src dst fs = Inr fs'"
  shows "wf_fs fs'"
proof -
  from c obtain si where si: "map_of fs src = Some si" and par: "is_dir fs (butlast dst)"
    and ndd: "\<not> is_dir fs dst" and fs': "fs' = AList.delete src (AList.update dst (si\<lparr>st_ctime := t\<rparr>) fs)"
    by (auto simp: copy_fallback_def split: option.splits if_splits)
  let ?u = "AList.update dst (si\<lparr>st_ctime := t\<rparr>) fs"
  have kd: "kind si \<noteq> Directory" using si nd by (simp add: is_dir_def)
  have du: "is_dir ?u q = is_dir fs q" for q
    using kd ndd by (simp add: is_dir_update)
  have dne: "dst \<noteq> []" using par ndd by auto
  have wfu: "wf_fs ?u"
    using wf par dne unfolding wf_fs_def by (auto simp: du keys_update distinct_update)
  have sk: "src \<in> fst ` set fs" using si by (rule map_of_SomeD_keys)
  have sne: "src \<noteq> []" using sk wf nd by (auto simp: wf_fs_def)
  have "is_file fs src" using si kd by (cases "kind si") (auto simp: is_file_def)
  then have "children fs src = []" by (rule wf_fs_file_no_children [OF wf])
  moreover have "butlast dst \<noteq> src" using par nd by auto
  ultimately have "children ?u src = []"
    by (auto simp: children_def filter_empty_conv keys_update)
  then show ?thesis
    unfolding fs' using wf_fs_delete_leaf [OF wfu _ sne] by simp
qed

lemma wf_fs_copytree_fallback:
  assumes wf: "wf_fs fs" and sk: "src \<in> fst ` set fs" and np: "\<not> prefix src real_dst"
    and c: "copytree_fallback t src dst real_dst fs = Inr fs'"
  shows "wf_fs fs'"
proof -
  from c obtain fs1 where npd: "\<not> prefix src dst" and m: "path_mkdir True False t real_dst fs = Inr fs1"
    and fs': "fs' = move_tree src real_dst (AList.delete real_dst fs1)"
    by (auto simp: copytree_fallback_def split: if_splits sum.splits)
  have sne: "src \<noteq> []" using npd by auto
  have new: "real_dst \<notin> fst ` set fs" "real_dst \<in> fst ` set fs1"
    using path_mkdir_new [OF m] by simp_all
  obtain zs where z: "fs1 = fs @ zs" "\<forall>(q, i) \<in> set zs. prefix q real_dst \<and> i = dir_inode t"
    using path_mkdir_adds [OF m] by blast
  have wf1: "wf_fs fs1" using wf m by (rule wf_fs_path_mkdir)
  have rne: "real_dst \<noteq> []" using new(1) wf is_dir_exists by (auto simp: wf_fs_def)
  have nc: "children fs1 real_dst = []"
  proof -
    have "butlast k \<noteq> real_dst" if k: "k \<in> fst ` set fs1" and kne: "k \<noteq> []" for k
    proof
      assume b: "butlast k = real_dst"
      have len: "length real_dst < length k" using b butlast_shorter [OF kne] by simp
      show False
      proof (cases "k \<in> fst ` set fs")
        case True
        have "prefix real_dst k" using prefix_butlast [of k] b by simp
        moreover have "real_dst \<noteq> k" using len by auto
        ultimately have "is_dir fs real_dst" by (rule wf_fs_ancestor_dir [OF wf True])
        with new(1) is_dir_exists show False by blast
      next
        case False
        with k z(1) obtain i where "(k, i) \<in> set zs" by auto
        with z(2) have "prefix k real_dst" by auto
        then have "length k \<le> length real_dst" by (rule prefix_length_le)
        with len show False by simp
      qed
    qed
    then show ?thesis by (auto simp: children_def filter_empty_conv)
  qed
  have wf2: "wf_fs (AList.delete real_dst fs1)" using wf1 nc rne by (rule wf_fs_delete_leaf)
  have "src \<noteq> real_dst" using sk new(1) by blast
  then have sk2: "src \<in> fst ` set (AList.delete real_dst fs1)"
    using sk by (simp add: keys_delete z(1) image_Un)
  have dk2: "real_dst \<notin> fst ` set (AList.delete real_dst fs1)" by (simp add: keys_delete)
  have "butlast real_dst \<noteq> real_dst" using rne by (cases real_dst rule: rev_cases) auto
  moreover have "is_dir fs1 (butlast real_dst)" using wf1 new(2) rne by (auto simp: wf_fs_def)
  ultimately have par2: "is_dir (AList.delete real_dst fs1) (butlast real_dst)"
    by (simp add: is_dir_delete_other)
  show ?thesis
    unfolding fs' using wf_fs_move_tree [OF wf2 sk2 sne dk2 rne par2 np] .
qed

lemma wf_fs_shutil_move:
  assumes wf: "wf_fs fs" and m: "shutil_move t src dst fs = Inr fs'"
  shows "wf_fs fs'"
proof (cases "is_dir fs dst \<and> src = dst")
  case True
  with m have "os_rename src dst fs = Inr fs'" by (simp add: shutil_move_def)
  with wf show ?thesis by (rule wf_fs_os_rename)
next
  case False
  define real_dst where "real_dst = (if is_dir fs dst then dst @ [path_name src] else dst)"
  have eq: "shutil_move t src dst fs =
     (if is_dir fs dst \<and> path_exists fs real_dst then Inl (ShutilDestExists real_dst)
      else (case os_rename src real_dst fs of Inr fs' \<Rightarrow> Inr fs'
            | Inl e \<Rightarrow> if is_dir fs src then copytree_fallback t src dst real_dst fs
                      else copy_fallback t src real_dst fs))"
    unfolding shutil_move_def real_dst_def Let_def using False by simp
  have free: "\<not> (is_dir fs dst \<and> path_exists fs real_dst)"
    using m by (auto simp: eq split: if_splits)
  have m': "(case os_rename src real_dst fs of Inr fs' \<Rightarrow> Inr fs'
             | Inl e \<Rightarrow> if is_dir fs src then copytree_fallback t src dst real_dst fs
                       else copy_fallback t src real_dst fs) = Inr fs'"
    using m free by (simp add: eq)
  show ?thesis
  proof (cases "os_rename src real_dst fs")
    case (Inr fs1)
    with m' have "os_rename src real_dst fs = Inr fs'" by simp
    with wf show ?thesis by (rule wf_fs_os_rename)
  next
    case (Inl e)
    show ?thesis
    proof (cases "is_dir fs src")
      case True
      with m' Inl have c: "copytree_fallback t src dst real_dst fs = Inr fs'" by simp
      then have npd: "\<not> prefix src dst" by (auto simp: copytree_fallback_def split: if_splits)
      have np: "\<not> prefix src real_dst"
      proof
        assume p: "prefix src real_dst"
        show False
        proof (cases "is_dir fs dst")
          case True
          with p npd have "src = real_dst" by (simp add: real_dst_def prefix_snoc)
          with free True \<open>is_dir fs src\<close> is_dir_exists show False by (simp add: path_exists_iff)
        next
          case False
          with p npd show False by (simp add: real_dst_def)
        qed
      qed
      have "src \<in> fst ` set fs" using True by (rule is_dir_exists)
      from wf this np c show ?thesis by (rule wf_fs_copytree_fallback)
    next
      case False
      with m' Inl have "copy_fallback t src real_dst fs = Inr fs'" by simp
      with wf False show ?thesis by (rule wf_fs_copy_fallback)
    qed
  qed
qed

lemma lookup_errno_no_file:
  "(\<forall>q. prefix q p \<longrightarrow> \<not> is_file fs q) \<Longrightarrow> lookup_errno fs p = ENOENT"
  by (auto simp: lookup_errno_def list_ex_iff dest: in_set_butlastD)

lemma is_dir_appended:
  "p \<notin> fst ` set fs \<Longrightarrow> is_dir (fs @ [(p, dir_inode t)]) p"
  using map_of_eq_None_iff [of fs p] by (simp add: is_dir_def dir_inode_def map_add_def)

lemma os_mkdir_fresh:
  assumes "wf_fs fs" and "p \<notin> fst ` set fs" and "is_dir fs (butlast p)"
  shows "os_mkdir t p fs = Inr (fs @ [(p, dir_inode t)]) \<and> is_dir (fs @ [(p, dir_inode t)]) p \<and>
         wf_fs (fs @ [(p, dir_inode t)])"
proof -
  have m: "os_mkdir t p fs = Inr (fs @ [(p, dir_inode t)])"
    using assms(2,3) by (simp add: os_mkdir_def path_exists_iff)
  with assms(1) have "wf_fs (fs @ [(p, dir_inode t)])" by (rule wf_fs_os_mkdir)
  with m assms(2) show ?thesis by (simp add: is_dir_appended)
qed

lemma path_mkdir_parents_succeeds:
  assumes wf: "wf_fs fs" and nf: "\<forall>q. prefix q p \<longrightarrow> \<not> is_file fs q"
  shows "\<exists>fs'. path_mkdir True True t p fs = Inr fs' \<and> is_dir fs' p \<and> wf_fs fs'"
  using wf nf
proof (induction p arbitrary: fs rule: rev_induct)
  case Nil
  then have "path_exists fs []" and "is_dir fs []"
    using is_dir_exists path_exists_iff by (auto simp: wf_fs_def)
  then show ?case
    using Nil.prems(1) by (auto simp: path_mkdir_failed os_mkdir_def is_not_found_def)
next
  case (snoc x p0)
  let ?p = "p0 @ [x]"
  show ?case
  proof (cases "?p \<in> fst ` set fs")
    case True
    then obtain i where i: "map_of fs ?p = Some i"
      by (metis map_of_eq_None_iff option.exhaust)
    have "\<not> is_file fs ?p" using snoc.prems(2) by simp
    with i have "is_dir fs ?p" by (cases "kind i") (auto simp: is_dir_def is_file_def)
    moreover have "os_mkdir t ?p fs = Inl (OSError EEXIST ?p None)"
      using True by (simp add: os_mkdir_def path_exists_iff)
    ultimately show ?thesis
      using snoc.prems(1) by (auto simp: path_mkdir_failed is_not_found_def)
  next
    case fresh: False
    show ?thesis
    proof (cases "is_dir fs p0")
      case True
      then show ?thesis
        using os_mkdir_fresh [OF snoc.prems(1) fresh] path_mkdir_created by fastforce
    next
      case False
      have "lookup_errno fs ?p = ENOENT"
        using snoc.prems(2) by (rule lookup_errno_no_file)
      then have e: "os_mkdir t ?p fs = Inl (OSError ENOENT ?p None)"
        using fresh False by (simp add: os_mkdir_def path_exists_iff)
      have "\<forall>q. prefix q p0 \<longrightarrow> \<not> is_file fs q"
        using snoc.prems(2) by (auto dest: prefix_order.trans [OF _ prefixI [of p0 "[x]"]])
      then obtain fs1 where m1: "path_mkdir True True t p0 fs = Inr fs1" and d1: "is_dir fs1 p0"
        and w1: "wf_fs fs1"
        using snoc.IH [OF snoc.prems(1)] by blast
      obtain zs where z: "fs1 = fs @ zs" "\<forall>(q, i) \<in> set zs. prefix q p0 \<and> i = dir_inode t"
        using path_mkdir_adds [OF m1] by blast
      have "?p \<notin> fst ` set fs1"
      proof
        assume "?p \<in> fst ` set fs1"
        with fresh z obtain i where "(?p, i) \<in> set zs" by auto
        with z(2) have "prefix ?p p0" by auto
        then show False by (auto dest: prefix_length_le)
      qed
      then have "os_mkdir t ?p fs1 = Inr (fs1 @ [(?p, dir_inode t)]) \<and>
          is_dir (fs1 @ [(?p, dir_inode t)]) ?p \<and> wf_fs (fs1 @ [(?p, dir_inode t)])"
        using os_mkdir_fresh [OF w1] d1 by simp
      moreover have "path_mkdir True True t ?p fs = path_mkdir False True t ?p fs1"
        using e m1 by (simp add: path_mkdir_no_parent is_not_found_def)
      ultimately show ?thesis
        using path_mkdir_created by fastforce
    qed
  qed
qed

lemma file_only_prefix_self:
  assumes "wf_fs fs" and "is_file fs src"
  shows "\<forall>p \<in> fst ` set fs. prefix src p \<longrightarrow> p = src"
  using wf_fs_ancestor_dir [OF assms(1)] assms(2) is_dir_not_file by blast

lemma shutil_move_fresh_file:
  assumes wf: "wf_fs fs" and si: "map_of fs src = Some si" "kind si = RegFile"
    and fresh: "dst \<notin> fst ` set fs" and par: "is_dir fs (butlast dst)" and np: "\<not> prefix src dst"
  shows "\<exists>fs'. shutil_move t src dst fs = Inr fs' \<and> wf_fs fs' \<and>
           (\<forall>q. map_of fs' q = (if q = dst then Some si else if q = src then None else map_of fs q))"
proof -
  have sf: "is_file fs src" using si by (simp add: is_file_def)
  have dn: "map_of fs dst = None" using fresh by (simp add: map_of_eq_None_iff)
  then have nd: "\<not> is_dir fs dst" and ne: "src \<noteq> dst"
    using si by (auto simp: is_dir_def)
  have r: "os_rename src dst fs = Inr (move_tree src dst fs)"
    using si par ne np dn by (simp add: os_rename_def)
  then have m: "shutil_move t src dst fs = Inr (move_tree src dst fs)"
    using nd by (simp add: shutil_move_def)
  have "map_of (move_tree src dst fs) q =
      (if q = dst then Some si else if q = src then None else map_of fs q)" for q
    using fresh ne si
    by (simp add: move_tree_single [OF file_only_prefix_self [OF wf sf]] map_of_rename_key)
  with m wf_fs_os_rename [OF wf r] show ?thesis by blast
qed

lemma path_mkdir_existing_ok:
  assumes wf: "wf_fs fs" and par: "is_dir fs (butlast md)" and nf: "\<not> is_file fs md"
  shows "\<exists>fs'. path_mkdir False True t md fs = Inr fs' \<and> is_dir fs' md \<and> wf_fs fs' \<and>
           (\<forall>q. q \<noteq> md \<longrightarrow> map_of fs' q = map_of fs q) \<and>
           fst ` set fs' = insert md (fst ` set fs)"
proof (cases "md \<in> fst ` set fs")
  case True
  then obtain i where i: "map_of fs md = Some i"
    by (metis map_of_eq_None_iff option.exhaust)
  with nf have d: "is_dir fs md" by (cases "kind i") (auto simp: is_dir_def is_file_def)
  have "os_mkdir t md fs = Inl (OSError EEXIST md None)"
    using True by (simp add: os_mkdir_def path_exists_iff)
  then have "path_mkdir False True t md fs = Inr fs"
    using d by (simp add: path_mkdir_failed is_not_found_def)
  with d wf True show ?thesis by blast
next
  case False
  have "map_of (fs @ [(md, dir_inode t)]) q = map_of fs q" if "q \<noteq> md" for q
    using that by (simp add: map_add_def split: option.splits)
  then show ?thesis
    using os_mkdir_fresh [OF wf False par] path_mkdir_created by fastforce
qed

end
