(* ===== verification/HumanSize.thy ===== *)
theory HumanSize
  imports Prelude Complex_Main
begin

text \<open>
  \<open>human_size\<close> (\<open>src/main.py\<close>, lines 28--34): the loop over the units
  \<open>B, KB, MB, GB\<close> that stops at the first unit where the magnitude is below 1024 and
  divides by 1024 otherwise, and the \<open>f"{size:.2f} {unit}"\<close> that prints the result.

  The magnitude is a rational. Python's \<open>size /= 1024\<close> turns the integer into a float;
  division by \<open>1024 = 2^10\<close> is exact in binary floating point, so the float is the
  rational \<open>n / 1024^k\<close> as long as \<open>n\<close> has at most 53 significant bits, which holds
  for every size below 8 PiB. The format \<open>.2f\<close> rounds the exact binary value to two
  decimals, ties to even (\<open>f"{0.125:.2f}"\<close> is \<open>0.12\<close>); \<open>round_half_even\<close> is that
  rounding and \<open>format_2f\<close> the printing, sign first.
\<close>

section \<open>Fixed-point printing\<close>

definition round_half_even :: "rat \<Rightarrow> int" where
  "round_half_even q =
     (let f = \<lfloor>q\<rfloor>; d = q - of_int f
      in if d < 1/2 then f else if 1/2 < d then f + 1 else if even f then f else f + 1)"

text \<open>The same rounding of a quotient, by integer division: what evaluation uses.\<close>

definition rdiv_even :: "int \<Rightarrow> int \<Rightarrow> int" where
  "rdiv_even a d =
     (let f = a div d; r = a mod d
      in if 2 * r < d then f else if d < 2 * r then f + 1 else if even f then f else f + 1)"

definition show_hundredths :: "nat \<Rightarrow> string" where
  "show_hundredths h = str_nat (h div 100) @ ''.'' @ [digit (h mod 100 div 10), digit (h mod 10)]"

definition format_2f :: "rat \<Rightarrow> string" where
  "format_2f q =
     (if q < 0 then ''-'' else '''') @ show_hundredths (nat (round_half_even (\<bar>q\<bar> * 100)))"

section \<open>The unit loop\<close>

definition size_units :: "string list" where
  "size_units = [''B'', ''KB'', ''MB'', ''GB'']"

text \<open>
  \<open>for unit in (...): if size < 1024: break; size /= 1024\<close>. The third argument is the
  loop variable \<open>unit\<close>: after a \<open>break\<close> it is the current unit, after the last
  iteration it keeps the last unit, \<open>GB\<close>, although the magnitude has been divided once
  more.
\<close>

fun human_size_loop :: "string list \<Rightarrow> rat \<Rightarrow> string \<Rightarrow> rat \<times> string" where
  "human_size_loop [] mag cur = (mag, cur)"
| "human_size_loop (u # us) mag cur =
     (if mag < 1024 then (mag, u) else human_size_loop us (mag / 1024) u)"

definition human_size :: "int \<Rightarrow> string" where
  "human_size n =
     (case human_size_loop size_units (of_int n) '''' of
        (v, u) \<Rightarrow> format_2f v @ '' '' @ u)"

text \<open>The number of divisions the loop makes on a size.\<close>

definition size_exp :: "int \<Rightarrow> nat" where
  "size_exp n =
     (if n < 1024 then 0 else if n < 1024^2 then 1 else if n < 1024^3 then 2
      else if n < 1024^4 then 3 else 4)"

section \<open>Rounding\<close>

lemma frac_lt_half_iff:
  assumes dpos: "(0::rat) < of_int d"
  shows "of_int r / of_int d < (1/2 :: rat) \<longleftrightarrow> 2 * r < d"
proof -
  have "of_int r / of_int d < (1/2 :: rat) \<longleftrightarrow> of_int (2 * r) < (of_int d :: rat)"
    by (simp add: pos_divide_less_eq [OF dpos] mult.commute)
  then show ?thesis by (simp only: of_int_less_iff)
qed

lemma frac_gt_half_iff:
  assumes dpos: "(0::rat) < of_int d"
  shows "(1/2 :: rat) < of_int r / of_int d \<longleftrightarrow> d < 2 * r"
proof -
  have "(1/2 :: rat) < of_int r / of_int d \<longleftrightarrow> (of_int d :: rat) < of_int (2 * r)"
    by (simp add: pos_less_divide_eq [OF dpos] mult.commute)
  then show ?thesis by (simp only: of_int_less_iff)
qed

lemma round_half_even_div:
  assumes "0 < d"
  shows "round_half_even (of_int a / of_int d) = rdiv_even a d"
proof -
  let ?q = "of_int a / of_int d :: rat"
  have dpos: "(0::rat) < of_int d"
    using assms by simp
  have fl: "\<lfloor>?q\<rfloor> = a div d"
    by (rule floor_divide_of_int_eq)
  have "(of_int a :: rat) = of_int d * of_int (a div d) + of_int (a mod d)"
    by (metis div_mult_mod_eq mult.commute of_int_add of_int_mult)
  then have "?q = of_int (a div d) + of_int (a mod d) / of_int d"
    using dpos by (simp add: add_divide_distrib)
  then have frac: "?q - of_int (a div d) = of_int (a mod d) / of_int d"
    by simp
  note lt = frac_lt_half_iff [OF dpos, of "a mod d"]
  note gt = frac_gt_half_iff [OF dpos, of "a mod d"]
  show ?thesis
    unfolding round_half_even_def rdiv_even_def Let_def fl frac lt gt ..
qed

lemma round_half_even_numeral [py_eval]:
  "round_half_even (numeral a / numeral b) = rdiv_even (numeral a) (numeral b)"
  using round_half_even_div [of "numeral b" "numeral a"] by simp

lemma round_half_even_of_int [simp]: "round_half_even (of_int k) = k"
  by (simp add: round_half_even_def)

lemma round_half_even_zero [py_eval]: "round_half_even 0 = 0"
  using round_half_even_of_int [of 0] by simp

lemma round_half_even_whole [py_eval]: "round_half_even (numeral k) = numeral k"
  using round_half_even_of_int [of "numeral k"] by simp

lemma format_2f_of_nat: "format_2f (of_nat n) = str_nat n @ ''.00''"
proof -
  have "nat (round_half_even (\<bar>of_nat n\<bar> * 100)) = n * 100"
    using round_half_even_of_int [of "int (n * 100)"] by simp
  then show ?thesis
    by (simp add: format_2f_def show_hundredths_def digit_def)
qed

declare rdiv_even_def [py_eval] show_hundredths_def [py_eval] format_2f_def [py_eval]
  size_units_def [py_eval] human_size_def [py_eval]

section \<open>The unit loop in closed form\<close>

lemma magnitude_steps:
  "(of_int n :: rat) < 1024 \<longleftrightarrow> n < 1024"
  "(of_int n :: rat) / 1024 < 1024 \<longleftrightarrow> n < 1024^2"
  "(of_int n :: rat) / 1024 / 1024 < 1024 \<longleftrightarrow> n < 1024^3"
  "(of_int n :: rat) / 1024 / 1024 / 1024 < 1024 \<longleftrightarrow> n < 1024^4"
  by (simp_all add: divide_less_eq)

text \<open>
  The loop divides \<open>size_exp n\<close> times and reports the unit of that index, capped at
  \<open>GB\<close>: for sizes of at least \<open>1024^4\<close> it divides four times.
\<close>

lemma human_size_loop_closed:
  "human_size_loop size_units (of_int n) u =
     (of_int n / 1024 ^ size_exp n, size_units ! min (size_exp n) 3)"
  by (simp add: size_units_def size_exp_def magnitude_steps divide_divide_eq_left)

section \<open>Properties of \<open>human_size\<close>\<close>

text \<open>
  C5: \<open>human_size\<close> prints the size divided by \<open>1024^k\<close>, where \<open>k\<close> is the number
  of powers of 1024 (at most four) that the size reaches, with two decimals, followed by
  the \<open>k\<close>-th unit of \<open>B, KB, MB, GB\<close>, and \<open>GB\<close> when \<open>k\<close> is four.
\<close>

theorem human_size_closed_form:
  "human_size n =
     format_2f (of_int n / 1024 ^ size_exp n) @ '' '' @ size_units ! min (size_exp n) 3"
  by (simp add: human_size_def human_size_loop_closed)

text \<open>
  C20: a size of \<open>0\<close> to \<open>1023\<close> bytes prints as the integer, \<open>.00\<close> and the unit
  \<open>B\<close>; in particular it ends in \<open>'' B''\<close> (specification, section 8).
\<close>

theorem human_size_bytes:
  assumes "0 \<le> n" and "n < 1024"
  shows "human_size n = str_nat (nat n) @ ''.00 B''"
proof -
  have e: "size_exp n = 0"
    using assms(2) by (simp add: size_exp_def)
  have v: "(of_int n :: rat) / 1024 ^ size_exp n = of_nat (nat n)"
    using assms(1) e by simp
  have "human_size n = format_2f (of_nat (nat n)) @ '' '' @ size_units ! 0"
    unfolding human_size_def human_size_loop_closed v by (simp only: e min_0L case_prod_conv)
  then show ?thesis
    by (simp add: format_2f_of_nat size_units_def)
qed

theorem human_size_bytes_witness:
  "0 \<le> (1000::int) \<and> (1000::int) < 1024 \<and> human_size 1000 = ''1000.00 B''"
  using human_size_bytes [of 1000] by (simp add: py_eval)

text \<open>
  C21: for sizes of 1 TiB (\<open>1024^4\<close> bytes) and more the loop runs out of units after
  dividing a fourth time, so the printed number is the size in TiB while the unit says
  \<open>GB\<close>: 2 TiB prints as \<open>2.00 GB\<close>, 1024 times too small. The specification asks for
  the magnitude to stop at GB.
\<close>

theorem human_size_tebibyte:
  assumes "1024^4 \<le> n"
  shows "human_size n = format_2f (of_int n / 1024^4) @ '' GB''"
proof -
  have "size_exp n = 4" using assms by (simp add: size_exp_def)
  then show ?thesis
    unfolding human_size_def human_size_loop_closed by (simp add: size_units_def)
qed

theorem human_size_tebibyte_witness:
  "1024^4 \<le> (2 * 1024^4 :: int) \<and> human_size (2 * 1024^4) = ''2.00 GB''"
  using human_size_tebibyte [of "2 * 1024^4"] by (simp add: py_eval)

text \<open>
  C22: below 1 TiB the magnitude the loop leaves is in \<open>[0, 1024)\<close> for a non-negative
  size; the printed number can still read \<open>1024.00\<close>, since it is rounded after the
  loop: 1048575 bytes print as \<open>1024.00 KB\<close>.
\<close>

theorem human_size_magnitude_bound:
  assumes "0 \<le> n" and "n < 1024^4"
  shows "0 \<le> fst (human_size_loop size_units (of_int n) u) \<and>
         fst (human_size_loop size_units (of_int n) u) < 1024"
  using assms
  by (simp add: human_size_loop_closed size_exp_def divide_less_eq)

theorem human_size_magnitude_bound_witness:
  "0 \<le> (1048575::int) \<and> (1048575::int) < 1024^4 \<and>
   fst (human_size_loop size_units (of_int 1048575) '''') < 1024 \<and>
   human_size 1048575 = ''1024.00 KB''"
  using human_size_magnitude_bound [of 1048575 "''''"] by (simp add: py_eval)

end
