(* ===== verification/Calendar.thy ===== *)
theory Calendar
  imports Prelude
begin

text \<open>
  The month folder of a file (\<open>src/main.py\<close>, lines 71--72):
  \<open>datetime.fromtimestamp(file.stat().st_ctime).strftime("%Y-%m")\<close>.
  \<open>fromtimestamp\<close> converts a POSIX time to local civil time; the local offset from UTC
  at that instant (\<open>tz t\<close> seconds, daylight saving time included) is a parameter of the
  model, read from the world. Seconds are whole: the fraction of \<open>st_ctime\<close> only matters
  for an instant within a second of midnight at the turn of a month.
  The civil date of a day count is Howard Hinnant's \<open>civil_from_days\<close>, in integer
  arithmetic with floor division, for the proleptic Gregorian calendar. The theory proves
  that the month it computes is always between 1 and 12 and the day between 1 and 31,
  whatever the timestamp and the offset, so \<open>%m\<close> prints a month \<open>01\<close> to \<open>12\<close>.
\<close>

definition civil_from_days :: "int \<Rightarrow> int \<times> int \<times> int" where
  "civil_from_days z0 =
     (let z = z0 + 719468;
          era = z div 146097;
          doe = z - era * 146097;
          yoe = (doe - doe div 1460 + doe div 36524 - doe div 146096) div 365;
          y = yoe + era * 400;
          doy = doe - (365 * yoe + yoe div 4 - yoe div 100);
          mp = (5 * doy + 2) div 153;
          d = doy - (153 * mp + 2) div 5 + 1;
          m = (if mp < 10 then mp + 3 else mp - 9)
      in (if m \<le> 2 then y + 1 else y, m, d))"

definition local_year_month :: "(int \<Rightarrow> int) \<Rightarrow> int \<Rightarrow> int \<times> int" where
  "local_year_month tz t =
     (case civil_from_days ((t + tz t) div 86400) of (y, m, d) \<Rightarrow> (y, m))"

text \<open>
  \<open>%Y\<close> prints the year in decimal and \<open>%m\<close> the month with two digits. Years are
  those of \<open>datetime\<close>, 1 to 9999; years below 1000 are printed without padding, as
  macOS's \<open>strftime\<close> does.
\<close>

definition two_digits :: "nat \<Rightarrow> string" where
  "two_digits n = [digit (n div 10), digit (n mod 10)]"

definition strftime_year_month :: "int \<times> int \<Rightarrow> string" where
  "strftime_year_month ym = (case ym of (y, m) \<Rightarrow> str_nat (nat y) @ ''-'' @ two_digits (nat m))"

definition month_folder :: "(int \<Rightarrow> int) \<Rightarrow> int \<Rightarrow> string" where
  "month_folder tz t = strftime_year_month (local_year_month tz t)"

text \<open>
  Two checks used by the range proofs below: the month and the day that
  \<open>civil_from_days\<close> computes from a day of the March-based year \<open>doy\<close>, and the twelve
  strings \<open>%m\<close> may print.
\<close>

definition md_ok :: "int \<Rightarrow> bool" where
  "md_ok doy = (let mp = (5 * doy + 2) div 153; d = doy - (153 * mp + 2) div 5 + 1 in
     0 \<le> mp \<and> mp \<le> 11 \<and> 1 \<le> d \<and> d \<le> 31)"

definition month_strings :: "string list" where
  "month_strings = [''01'', ''02'', ''03'', ''04'', ''05'', ''06'', ''07'', ''08'', ''09'', ''10'', ''11'', ''12'']"

text \<open>
  A reader of folder names, the inverse that the round-trip lemmas are stated with:
  the decimal digits before the first dash are the year, those after it the month.
\<close>

definition digit_val :: "char \<Rightarrow> nat option" where
  "digit_val c = (if CHR ''0'' \<le> c \<and> c \<le> CHR ''9'' then Some (of_char c - of_char CHR ''0'') else None)"

fun read_nat_acc :: "nat \<Rightarrow> string \<Rightarrow> nat option" where
  "read_nat_acc a [] = Some a"
| "read_nat_acc a (c # cs) = (case digit_val c of None \<Rightarrow> None | Some d \<Rightarrow> read_nat_acc (10 * a + d) cs)"

definition read_nat :: "string \<Rightarrow> nat option" where
  "read_nat s = (if s = [] then None else read_nat_acc 0 s)"

definition parse_month_folder :: "string \<Rightarrow> (int \<times> int) option" where
  "parse_month_folder s =
     (case dropWhile (\<lambda>c. c \<noteq> CHR ''-'') s of
        [] \<Rightarrow> None
      | _ # mm \<Rightarrow>
          (case (read_nat (takeWhile (\<lambda>c. c \<noteq> CHR ''-'') s), read_nat mm) of
             (Some y, Some m) \<Rightarrow> Some (int y, int m)
           | _ \<Rightarrow> None))"

declare two_digits_def [py_eval]
  strftime_year_month_def [py_eval]

section \<open>Evaluated examples\<close>

text \<open>
  \<open>civil_from_days\<close> is evaluated by \<open>code_simp\<close>; these instances serve the examples
  of the other theories. 1700000000 is 2023-11-14 22:13:20 UTC; 1709251199 is the last
  second of February 2024 in UTC, and already March one hour east of it.
\<close>

lemma month_folder_1700000000 [py_eval]: "month_folder (\<lambda>_. 0) 1700000000 = ''2023-11''"
  by code_simp

lemma month_folder_1709251199 [py_eval]: "month_folder (\<lambda>_. 0) 1709251199 = ''2024-02''"
  by code_simp

lemma month_folder_1709251199_cet: "month_folder (\<lambda>_. 3600) 1709251199 = ''2024-03''"
  by code_simp

section \<open>Ranges of the civil date\<close>

text \<open>
  The day of the March-based year lies in \<open>[0, 365]\<close> for every day of a 400-year era.
  The proof splits the day of the era \<open>doe\<close> into a century \<open>c\<close>, a four-year
  group \<open>f\<close> of the century and a day \<open>s\<close> of the group; each floor division of
  the code is then fixed by its bounds.
\<close>

lemma doy_range:
  fixes doe :: int
  assumes "0 \<le> doe" "doe \<le> 146096"
  defines "yoe \<equiv> (doe - doe div 1460 + doe div 36524 - doe div 146096) div 365"
  shows "0 \<le> doe - (365 * yoe + yoe div 4 - yoe div 100) \<and>
         doe - (365 * yoe + yoe div 4 - yoe div 100) \<le> 365"
proof (cases "doe = 146096")
  case True
  then show ?thesis by (simp add: yoe_def)
next
  case False
  with assms have lt: "doe < 146096" by simp
  define c where "c = doe div 36524"
  define r where "r = doe - 36524 * c"
  define f where "f = r div 1461"
  define s where "s = r - 1461 * f"
  define e where "e = (24 * c + f + s) div 1460"
  define g where "g = (s - e) div 365"
  have c: "36524 * c \<le> doe" "doe < 36524 * c + 36524" using div_bounds [of 36524 doe] by (simp_all add: c_def)
  have f: "1461 * f \<le> r" "r < 1461 * f + 1461" using div_bounds [of 1461 r] by (simp_all add: f_def)
  have e: "1460 * e \<le> 24 * c + f + s" "24 * c + f + s < 1460 * e + 1460"
    using div_bounds [of 1460 "24 * c + f + s"] by (simp_all add: e_def)
  have g: "365 * g \<le> s - e" "s - e < 365 * g + 365"
    using div_bounds [of 365 "s - e"] by (simp_all add: g_def)
  have c03: "0 \<le> c" "c \<le> 3" using c assms lt by linarith+
  have f024: "0 \<le> f" "f \<le> 24" using f c r_def by linarith+
  have s0: "0 \<le> s" "s \<le> 1460" using f s_def by linarith+
  have e01: "0 \<le> e" "e \<le> 1" using e c03 f024 s0 by linarith+
  have se: "0 \<le> s - e" "s - e \<le> 1459"
  proof -
    show "0 \<le> s - e"
    proof (cases "e = 0")
      case False with e01 have "e = 1" by simp
      with e c03 f024 show ?thesis by linarith
    qed (use s0 in simp)
    show "s - e \<le> 1459"
    proof (cases "e = 0")
      case True with e have "s < 1460" using c03 f024 by linarith
      with True show ?thesis by simp
    qed (use s0 e01 in simp)
  qed
  have g03: "0 \<le> g" "g \<le> 3" using g se by linarith+
  have d1460: "doe div 1460 = 25 * c + f + e"
    by (rule div_eqI, unfold distrib_left) (use e r_def s_def in linarith)+
  have d36524: "doe div 36524 = c" by (simp add: c_def)
  have d146096: "doe div 146096 = 0" using assms lt by simp
  have y: "yoe = 100 * c + 4 * f + g"
    unfolding yoe_def d1460 d36524 d146096
    by (rule div_eqI, unfold distrib_left) (use g r_def s_def in linarith)+
  have y4: "yoe div 4 = 25 * c + f"
    unfolding y by (rule div_eqI, unfold distrib_left) (use g03 in linarith)+
  have y100: "yoe div 100 = c"
    unfolding y by (rule div_eqI) (use g03 f024 in linarith)+
  show ?thesis
    unfolding y4 y100 unfolding y distrib_left using g e01 r_def s_def by (intro conjI) linarith+
qed
text \<open>The month and the day, checked for each of the 366 days of the year.\<close>

lemma md_all: "list_all md_ok [0..365]"
  by code_simp

lemma civil_from_days_ranges:
  assumes "civil_from_days z = (y, m, d)"
  shows "1 \<le> m \<and> m \<le> 12 \<and> 1 \<le> d \<and> d \<le> 31"
proof -
  define doe where "doe = z + 719468 - (z + 719468) div 146097 * 146097"
  have "doe = (z + 719468) mod 146097" by (simp add: doe_def minus_div_mult_eq_mod)
  then have doe: "0 \<le> doe" "doe \<le> 146096" by simp_all
  define yoe where "yoe = (doe - doe div 1460 + doe div 36524 - doe div 146096) div 365"
  define doy where "doy = doe - (365 * yoe + yoe div 4 - yoe div 100)"
  have "0 \<le> doy \<and> doy \<le> 365" unfolding doy_def yoe_def by (rule doy_range [OF doe])
  then have "md_ok doy" using md_all by (auto simp: list_all_iff)
  moreover have "fst (snd (civil_from_days z)) =
      (if (5 * doy + 2) div 153 < 10 then (5 * doy + 2) div 153 + 3 else (5 * doy + 2) div 153 - 9)"
    and "snd (snd (civil_from_days z)) = doy - (153 * ((5 * doy + 2) div 153) + 2) div 5 + 1"
    unfolding civil_from_days_def Let_def prod.sel doy_def yoe_def doe_def by (rule refl)+
  ultimately show ?thesis using assms by (auto simp: md_ok_def Let_def)
qed

lemma two_digits_months: "list_all (\<lambda>n. two_digits n \<in> set month_strings) [1..<13]"
  by code_simp

text \<open>
  C23: whatever the timestamp and the local offset, the folder name that \<open>strftime("%Y-%m")\<close>
  yields ends in a dash and one of the twelve months \<open>01\<close> to \<open>12\<close>: the civil month
  is between 1 and 12, so the two-digit rendering is exact.
\<close>

theorem month_folder_month:
  "\<exists>y mm. month_folder tz t = str_nat (nat y) @ ''-'' @ mm \<and> mm \<in> set month_strings"
proof -
  obtain y m d where c: "civil_from_days ((t + tz t) div 86400) = (y, m, d)"
    by (metis prod_cases3)
  then have "1 \<le> m \<and> m \<le> 12" using civil_from_days_ranges by blast
  then have "nat m \<in> set [1..<13]" by auto
  then have "two_digits (nat m) \<in> set month_strings" using two_digits_months by (auto simp: list_all_iff)
  moreover have "month_folder tz t = str_nat (nat y) @ ''-'' @ two_digits (nat m)"
    by (simp add: month_folder_def local_year_month_def c strftime_year_month_def)
  ultimately show ?thesis by blast
qed
section \<open>Reading a folder name back\<close>

lemma digit_val_digits: "list_all (\<lambda>d. digit_val (digit d) = Some d \<and> digit d \<noteq> CHR ''-'') [0..<10]"
  by code_simp

lemma digit_val_digit: "d < 10 \<Longrightarrow> digit_val (digit d) = Some d"
  and digit_not_dash: "d < 10 \<Longrightarrow> digit d \<noteq> CHR ''-''"
  using digit_val_digits by (auto simp: list_all_iff)

lemma read_nat_acc_append:
  "read_nat_acc a (xs @ ys) = Option.bind (read_nat_acc a xs) (\<lambda>b. read_nat_acc b ys)"
  by (induction a xs rule: read_nat_acc.induct) (auto split: option.splits)

lemma read_nat_acc_str_nat: "read_nat_acc 0 (str_nat n) = Some n"
proof (induction n rule: str_nat.induct)
  case (1 n)
  show ?case
  proof (cases "n < 10")
    case True
    then show ?thesis by (simp add: str_nat_small digit_val_digit)
  next
    case False
    with 1 show ?thesis by (simp add: str_nat_large read_nat_acc_append digit_val_digit)
  qed
qed

lemma read_nat_str_nat: "read_nat (str_nat n) = Some n"
  by (simp add: read_nat_def read_nat_acc_str_nat)

lemma str_nat_no_dash: "CHR ''-'' \<notin> set (str_nat n)"
proof (induction n rule: str_nat.induct)
  case (1 n)
  then show ?case
    using digit_not_dash [of n] digit_not_dash [of "n mod 10"]
    by (cases "n < 10") (auto simp: str_nat_small str_nat_large)
qed

lemma read_nat_two_digits: "m < 100 \<Longrightarrow> read_nat (two_digits m) = Some m"
  by (simp add: read_nat_def two_digits_def digit_val_digit less_mult_imp_div_less)

lemma parse_strftime_year_month:
  assumes "0 \<le> y" "1 \<le> m" "m \<le> 12"
  shows "parse_month_folder (strftime_year_month (y, m)) = Some (y, m)"
proof -
  have tw: "takeWhile (\<lambda>c. c \<noteq> CHR ''-'') (str_nat (nat y) @ CHR ''-'' # two_digits (nat m)) = str_nat (nat y)"
    and dw: "dropWhile (\<lambda>c. c \<noteq> CHR ''-'') (str_nat (nat y) @ CHR ''-'' # two_digits (nat m)) = CHR ''-'' # two_digits (nat m)"
    using str_nat_no_dash [of "nat y"] by (simp_all add: takeWhile_upto dropWhile_upto)
  have "nat m < 100" using assms by simp
  then show ?thesis
    using assms by (simp add: parse_month_folder_def strftime_year_month_def tw dw read_nat_str_nat read_nat_two_digits)
qed
lemma local_year_month_range: "local_year_month tz t = (y, m) \<Longrightarrow> 1 \<le> m \<and> m \<le> 12"
  by (cases "civil_from_days ((t + tz t) div 86400)") (auto simp: local_year_month_def dest: civil_from_days_ranges)

text \<open>
  C24: the folder name is a faithful record of the local year and month: reading it back
  gives the \<open>(year, month)\<close> of the timestamp in local time, for every year from 0 on
  (\<open>datetime\<close>'s years are 1 to 9999).
\<close>

theorem month_folder_roundtrip:
  assumes "0 \<le> fst (local_year_month tz t)"
  shows "parse_month_folder (month_folder tz t) = Some (local_year_month tz t)"
proof -
  obtain y m where ym: "local_year_month tz t = (y, m)" by (cases "local_year_month tz t")
  with assms local_year_month_range [OF ym] show ?thesis
    by (simp add: month_folder_def parse_strftime_year_month)
qed

theorem month_folder_roundtrip_witness:
  "0 \<le> fst (local_year_month (\<lambda>_. 0) 1700000000) \<and>
   parse_month_folder (month_folder (\<lambda>_. 0) 1700000000) = Some (local_year_month (\<lambda>_. 0) 1700000000)"
proof -
  have h: "0 \<le> fst (local_year_month (\<lambda>_. 0) 1700000000)" by code_simp
  show ?thesis using month_folder_roundtrip [OF h] h by simp
qed

end
