(* ===== verification/Organizer.thy ===== *)
theory Organizer
  imports Discovery FsInvariant HumanSize Calendar
begin

text \<open>
  \<open>get_size_ext\<close> and \<open>organize_screenshots\<close> (\<open>src/main.py\<close>, lines 36--100). The
  state is a \<open>world\<close>: the filesystem (\<open>disk\<close>), the home directory, the lines still to
  be read from standard input, what has been written to standard output (one element per
  \<open>print\<close> and per \<open>input\<close> prompt), the clock (the \<open>st_ctime\<close> of directories created
  now) and the local UTC offset of a POSIX time. A step of the script that may raise
  returns \<open>(exn + 'a) \<times> world\<close>: the world keeps every effect made before the exception,
  as Python does.
\<close>

section \<open>The world\<close>

datatype input_line = Line string | EOF | Interrupt

record world =
  disk :: fs
  home :: path
  stdin :: "input_line list"
  stdout :: "string list"
  clock :: int
  tz :: "int \<Rightarrow> int"

definition print_line :: "string \<Rightarrow> world \<Rightarrow> world" where
  "print_line s w = w\<lparr>stdout := stdout w @ [s]\<rparr>"

text \<open>
  \<open>input(prompt)\<close>: writes the prompt, then reads a line without its newline; at end of
  input it raises \<open>EOFError\<close>, on Ctrl-C \<open>KeyboardInterrupt\<close>.
\<close>

definition py_input :: "string \<Rightarrow> world \<Rightarrow> (exn + string) \<times> world" where
  "py_input prompt w =
     (let w' = w\<lparr>stdout := stdout w @ [prompt]\<rparr>
      in case stdin w of
           [] \<Rightarrow> (Inl EOFError, w')
         | Line s # rest \<Rightarrow> (Inr s, w'\<lparr>stdin := rest\<rparr>)
         | EOF # rest \<Rightarrow> (Inl EOFError, w'\<lparr>stdin := rest\<rparr>)
         | Interrupt # rest \<Rightarrow> (Inl KeyboardInterrupt, w'\<lparr>stdin := rest\<rparr>))"

section \<open>Size and extensions\<close>

text \<open>\<open>sum(f.stat().st_size for f in files)\<close>: the first failing \<open>stat\<close> raises.\<close>

fun stat_sizes :: "fs \<Rightarrow> path list \<Rightarrow> exn + nat" where
  "stat_sizes fs [] = Inr 0"
| "stat_sizes fs (f # rest) =
     (case os_stat fs f of
        Inl e \<Rightarrow> Inl e
      | Inr i \<Rightarrow> (case stat_sizes fs rest of Inl e \<Rightarrow> Inl e | Inr s \<Rightarrow> Inr (st_size i + s)))"

definition get_size_ext :: "fs \<Rightarrow> path list \<Rightarrow> exn + nat \<times> string set" where
  "get_size_ext fs files =
     (case stat_sizes fs files of
        Inl e \<Rightarrow> Inl e
      | Inr bytes \<Rightarrow> Inr (bytes, set (map (\<lambda>f. path_suffix (path_name f)) files)))"

section \<open>The three actions\<close>

definition arrow :: string where
  "arrow = [CHR 0xE2, CHR 0x86, CHR 0x92]"

text \<open>
  Action 1, the loop body of lines 69--80: \<open>stat\<close> and the month folder's \<open>mkdir\<close>
  stand outside the \<open>try\<close>, so their exceptions end the loop and the function; only the
  exception of \<open>shutil.move\<close> is caught, printed, and the loop goes on.
\<close>

fun move_files :: "path \<Rightarrow> path list \<Rightarrow> world \<Rightarrow> (exn + unit) \<times> world" where
  "move_files dir [] w = (Inr (), w)"
| "move_files dir (f # rest) w =
     (case os_stat (disk w) f of
        Inl e \<Rightarrow> (Inl e, w)
      | Inr st \<Rightarrow>
          (let month_dir = dir @ [month_folder (tz w) (st_ctime st)]
           in case path_mkdir False True (clock w) month_dir (disk w) of
                Inl e \<Rightarrow> (Inl e, w)
              | Inr d1 \<Rightarrow>
                  (case shutil_move (clock w) f (month_dir @ [path_name f]) d1 of
                     Inr d2 \<Rightarrow>
                       move_files dir rest
                         (print_line (''Moved: '' @ path_name f @ '' '' @ arrow @ '' '' @
                                      render_path month_dir) (w\<lparr>disk := d2\<rparr>))
                   | Inl e \<Rightarrow>
                       move_files dir rest
                         (print_line (''Error moving '' @ path_name f @ '': '' @ exn_str e)
                                     (w\<lparr>disk := d1\<rparr>)))))"

text \<open>Action 2 after confirmation, lines 85--90: every \<open>unlink\<close> is in its own \<open>try\<close>.\<close>

fun delete_files :: "path list \<Rightarrow> world \<Rightarrow> world" where
  "delete_files [] w = w"
| "delete_files (f # rest) w =
     (case os_unlink f (disk w) of
        Inr d \<Rightarrow> delete_files rest (print_line (''Deleted: '' @ path_name f) (w\<lparr>disk := d\<rparr>))
      | Inl e \<Rightarrow> delete_files rest (print_line (''Error deleting '' @ path_name f @ '': '' @ exn_str e) w))"

text \<open>Action 3, lines 95--97: the \<open>stat\<close> of each file is not guarded.\<close>

fun list_files :: "path list \<Rightarrow> world \<Rightarrow> (exn + unit) \<times> world" where
  "list_files [] w = (Inr (), w)"
| "list_files (f # rest) w =
     (case os_stat (disk w) f of
        Inl e \<Rightarrow> (Inl e, w)
      | Inr st \<Rightarrow>
          list_files rest
            (print_line (path_name f @ '' ('' @ human_size (int (st_size st)) @ '')'') w))"

section \<open>\<open>organize_screenshots\<close>\<close>

definition menu_prompt :: string where
  "menu_prompt =
     nl @ ''Choose action:'' @ nl @ ''1. Move to organized folders by date'' @ nl @
     ''2. Delete all found screenshots'' @ nl @ ''3. List all screenshots'' @ nl @
     ''4. Cancel'' @ nl @ ''Enter choice (1-4): ''"

definition confirm_prompt :: "nat \<Rightarrow> string" where
  "confirm_prompt n =
     nl @ ''Are you sure you want to delete '' @ str_nat n @ '' screenshots? (yes/no): ''"

definition screenshots_dir :: "world \<Rightarrow> path" where
  "screenshots_dir w = home w @ [''Pictures'', ''Screenshots'']"

text \<open>The summary of lines 50--54.\<close>

definition print_summary :: "nat \<Rightarrow> nat \<Rightarrow> string set \<Rightarrow> world \<Rightarrow> world" where
  "print_summary n bytes exts w =
     print_line (''File types: '' @ join_str '', '' (sorted_list_of_set exts))
       (print_line (''Total size: '' @ human_size (int bytes))
         (print_line (nl @ ''Found '' @ str_nat n @ '' screenshots'') w))"

text \<open>Action 1, lines 67--80: create the root of the month folders, then the loop.\<close>

definition move_action :: "path list \<Rightarrow> world \<Rightarrow> (exn + unit) \<times> world" where
  "move_action files w =
     (case path_mkdir True True (clock w) (screenshots_dir w) (disk w) of
        Inl e \<Rightarrow> (Inl e, w)
      | Inr d \<Rightarrow> move_files (screenshots_dir w) files (w\<lparr>disk := d\<rparr>))"

text \<open>Action 2, lines 83--92: the confirmation prompt, then the loop or a cancellation.\<close>

definition confirm_delete :: "path list \<Rightarrow> world \<Rightarrow> (exn + unit) \<times> world" where
  "confirm_delete files w =
     (case py_input (confirm_prompt (length files)) w of
        (Inl e, w') \<Rightarrow> (Inl e, w')
      | (Inr confirm, w') \<Rightarrow>
          if lower confirm = ''yes'' then (Inr (), delete_files files w')
          else (Inr (), print_line ''Operation cancelled'' w'))"

text \<open>The dispatch on the menu choice, lines 66--100.\<close>

definition run_choice :: "path list \<Rightarrow> string \<Rightarrow> world \<Rightarrow> (exn + unit) \<times> world" where
  "run_choice files action w =
     (if action = ''1'' then move_action files w
      else if action = ''2'' then confirm_delete files w
      else if action = ''3'' then list_files files (print_line (nl @ ''Found screenshots:'') w)
      else (Inr (), print_line ''Operation cancelled'' w))"

definition organize_screenshots :: "path list \<Rightarrow> world \<Rightarrow> (exn + unit) \<times> world" where
  "organize_screenshots files w =
     (if files = [] then (Inr (), print_line ''No screenshot files found'' w)
      else case get_size_ext (disk w) files of
        Inl e \<Rightarrow> (Inl e, w)
      | Inr (bytes, exts) \<Rightarrow>
          (case py_input menu_prompt (print_summary (length files) bytes exts w) of
             (Inl e, w1) \<Rightarrow> (Inl e, w1)
           | (Inr action, w1) \<Rightarrow> run_choice files action w1))"

declare print_line_def [py_eval] py_input_def [py_eval] get_size_ext_def [py_eval] arrow_def [py_eval]
  menu_prompt_def [py_eval] confirm_prompt_def [py_eval] screenshots_dir_def [py_eval]
  print_summary_def [py_eval] move_action_def [py_eval] confirm_delete_def [py_eval]
  run_choice_def [py_eval] organize_screenshots_def [py_eval]

section \<open>The move action, abstractly\<close>

text \<open>
  The specification's MoveByDate (section 4.4) as an abstract operation on the regular
  files: the filesystem seen as a map from paths to the inodes of regular files
  (\<open>file_map\<close>), and the move as the renaming of each file to its destination
  \<open>~/Pictures/Screenshots/YYYY-MM/name\<close>, in order (\<open>move_spec\<close>). The destination of a
  file is what lines 71--72 and 77 compute from the file's \<open>st_ctime\<close>.
  \<open>move_preconds\<close> says when the move has no collision: distinct regular files whose
  destinations are distinct, do not exist yet, and have no regular file on their path.
\<close>

definition file_map :: "fs \<Rightarrow> path \<Rightarrow> inode option" where
  "file_map fs p = (case map_of fs p of Some i \<Rightarrow> if kind i = RegFile then Some i else None | None \<Rightarrow> None)"

definition move_dest :: "path \<Rightarrow> world \<Rightarrow> path \<Rightarrow> path" where
  "move_dest dir w f = dir @ [month_folder (tz w) (st_ctime (the (map_of (disk w) f))), path_name f]"

fun move_spec :: "(path \<Rightarrow> inode option) \<Rightarrow> (path \<times> path) list \<Rightarrow> path \<Rightarrow> inode option" where
  "move_spec m [] = m"
| "move_spec m ((s, d) # ps) = move_spec (m(d := m s, s := None)) ps"

definition move_preconds :: "path \<Rightarrow> path list \<Rightarrow> world \<Rightarrow> bool" where
  "move_preconds dir files w \<longleftrightarrow>
     distinct files \<and> (\<forall>f \<in> set files. is_file (disk w) f) \<and>
     distinct (map (move_dest dir w) files) \<and>
     (\<forall>f \<in> set files. move_dest dir w f \<notin> fst ` set (disk w)) \<and>
     (\<forall>f \<in> set files. \<forall>q \<in> set (butlast (prefixes (move_dest dir w f))). \<not> is_file (disk w) q)"

section \<open>Example worlds\<close>

text \<open>
  Worlds over the example home of \<open>Discovery\<close>, in UTC, at a clock in March 2024.
  \<open>clash_fs\<close> has a screenshot of the same name and month on the Desktop and in
  Downloads; \<open>blocked_fs\<close> has a regular file where the month folder of the Desktop
  screenshot should go.
\<close>

definition mk_world :: "fs \<Rightarrow> input_line list \<Rightarrow> world" where
  "mk_world d inp = \<lparr>disk = d, home = demo_home, stdin = inp, stdout = [],
     clock = 1710000000, tz = (\<lambda>_. 0)\<rparr>"

definition clash_fs :: fs where
  "clash_fs =
     [([], dir_inode 0), ([''Users''], dir_inode 0), (demo_home, dir_inode 0),
      (demo_home @ [''Desktop''], dir_inode 0),
      (demo_home @ [''Desktop'', ''Screenshot A.png''], demo_file 100 1700000000),
      (demo_home @ [''Downloads''], dir_inode 0),
      (demo_home @ [''Downloads'', ''Screenshot A.png''], demo_file 200 1700000000),
      (demo_home @ [''Pictures''], dir_inode 0),
      (demo_home @ [''Pictures'', ''Screenshots''], dir_inode 0)]"

definition blocked_fs :: fs where
  "blocked_fs =
     [([], dir_inode 0), ([''Users''], dir_inode 0), (demo_home, dir_inode 0),
      (demo_home @ [''Desktop''], dir_inode 0),
      (demo_home @ [''Desktop'', ''Screenshot A.png''], demo_file 100 1700000000),
      (demo_home @ [''Pictures''], dir_inode 0),
      (demo_home @ [''Pictures'', ''Screenshot B.png''], demo_file 300 1709251199),
      (demo_home @ [''Pictures'', ''Screenshots''], dir_inode 0),
      (demo_home @ [''Pictures'', ''Screenshots'', ''2023-11''], demo_file 1 0)]"

definition clash_files :: "path list" where
  "clash_files =
     [demo_home @ [''Desktop'', ''Screenshot A.png''], demo_home @ [''Downloads'', ''Screenshot A.png'']]"

definition blocked_files :: "path list" where
  "blocked_files =
     [demo_home @ [''Desktop'', ''Screenshot A.png''], demo_home @ [''Pictures'', ''Screenshot B.png'']]"

text \<open>
  A month folder in which the destination name is already taken by a directory that holds
  an entry of that name: \<open>shutil.move\<close> into it fails.
\<close>

definition taken_fs :: fs where
  "taken_fs =
     [([], dir_inode 0), ([''Users''], dir_inode 0), (demo_home, dir_inode 0),
      (demo_home @ [''Desktop''], dir_inode 0),
      (demo_home @ [''Desktop'', ''Screenshot A.png''], demo_file 100 1700000000),
      (demo_home @ [''Pictures''], dir_inode 0),
      (demo_home @ [''Pictures'', ''Screenshots''], dir_inode 0),
      (demo_home @ [''Pictures'', ''Screenshots'', ''2023-11''], dir_inode 0),
      (demo_home @ [''Pictures'', ''Screenshots'', ''2023-11'', ''Screenshot A.png''], dir_inode 0),
      (demo_home @ [''Pictures'', ''Screenshots'', ''2023-11'', ''Screenshot A.png'', ''Screenshot A.png''],
       demo_file 7 0)]"

declare mk_world_def [py_eval] clash_fs_def [py_eval] blocked_fs_def [py_eval]
  clash_files_def [py_eval] blocked_files_def [py_eval]

section \<open>Frame lemmas\<close>

lemma print_line_fields [simp]:
  "disk (print_line s w) = disk w" "stdin (print_line s w) = stdin w"
  "home (print_line s w) = home w" "clock (print_line s w) = clock w" "tz (print_line s w) = tz w"
  "stdout (print_line s w) = stdout w @ [s]"
  by (simp_all add: print_line_def)

lemma print_summary_fields [simp]:
  "disk (print_summary n b e w) = disk w" "stdin (print_summary n b e w) = stdin w"
  "home (print_summary n b e w) = home w" "clock (print_summary n b e w) = clock w"
  by (simp_all add: print_summary_def)

lemma py_input_disk: "py_input p w = (r, w') \<Longrightarrow> disk w' = disk w"
  by (auto simp: py_input_def Let_def split: list.splits input_line.splits)

lemma py_input_Line:
  "stdin w = Line s # rest \<Longrightarrow>
   py_input p w = (Inr s, w\<lparr>stdout := stdout w @ [p], stdin := rest\<rparr>)"
  by (simp add: py_input_def)

lemma py_input_not_Line:
  "(\<And>s rest. stdin w \<noteq> Line s # rest) \<Longrightarrow>
   \<exists>e w'. py_input p w = (Inl e, w') \<and> disk w' = disk w"
  by (auto simp: py_input_def Let_def split: list.splits input_line.splits)

lemma list_files_disk: "disk (snd (list_files files w)) = disk w"
  by (induction files arbitrary: w) (auto split: sum.splits)

text \<open>
  Each prompt consumes the first item of standard input, if any; the loops read nothing.
\<close>

lemma py_input_stdin: "py_input p w = (r, w') \<Longrightarrow> stdin w' = drop 1 (stdin w)"
  by (auto simp: py_input_def Let_def split: list.splits input_line.splits)

lemma move_files_stdin: "stdin (snd (move_files dir files w)) = stdin w"
  by (induction files arbitrary: w) (auto simp: Let_def split: sum.splits)

lemma delete_files_stdin: "stdin (delete_files files w) = stdin w"
  by (induction files arbitrary: w) (auto split: sum.splits)

lemma list_files_stdin: "stdin (snd (list_files files w)) = stdin w"
  by (induction files arbitrary: w) (auto split: sum.splits)

lemma confirm_delete_stdin: "stdin (snd (confirm_delete files w)) = drop 1 (stdin w)"
proof -
  obtain r w' where i: "py_input (confirm_prompt (length files)) w = (r, w')" by fastforce
  then show ?thesis
    using py_input_stdin [OF i] by (auto simp: confirm_delete_def delete_files_stdin split: sum.splits)
qed

lemma run_choice_stdin: "\<exists>k \<le> 1. stdin (snd (run_choice files a w)) = drop k (stdin w)"
proof -
  have "stdin (snd (run_choice files a w)) = stdin w \<or> stdin (snd (run_choice files a w)) = drop 1 (stdin w)"
    by (auto simp: run_choice_def move_action_def move_files_stdin list_files_stdin confirm_delete_stdin
        split: sum.splits)
  then show ?thesis by (metis drop_0 le_refl zero_le)
qed

lemma organize_stdin: "\<exists>k \<le> 2. stdin (snd (organize_screenshots files w)) = drop k (stdin w)"
proof (cases "files = [] \<or> (\<exists>e. get_size_ext (disk w) files = Inl e)")
  case True
  then show ?thesis by (auto simp: organize_screenshots_def intro: exI [of _ 0])
next
  case False
  then obtain b ex where ne: "files \<noteq> []" and be: "get_size_ext (disk w) files = Inr (b, ex)"
    by (metis old.prod.exhaust sum.exhaust)
  obtain r w1 where i: "py_input menu_prompt (print_summary (length files) b ex w) = (r, w1)" by fastforce
  have s1: "stdin w1 = drop 1 (stdin w)" using py_input_stdin [OF i] by simp
  show ?thesis
  proof (cases r)
    case (Inl e)
    with ne be i s1 show ?thesis by (auto simp: organize_screenshots_def intro!: exI [of _ 1])
  next
    case (Inr a)
    obtain k where k: "k \<le> 1" "stdin (snd (run_choice files a w1)) = drop k (stdin w1)"
      using run_choice_stdin by blast
    with ne be i s1 Inr show ?thesis
      by (auto simp: organize_screenshots_def intro!: exI [of _ "k + 1"])
  qed
qed

section \<open>Standard output only grows\<close>

text \<open>Every step appends to standard output; nothing printed is taken back.\<close>

lemma py_input_stdout: "py_input p w = (r, w') \<Longrightarrow> stdout w' = stdout w @ [p]"
  by (auto simp: py_input_def Let_def split: list.splits input_line.splits)

lemma stdout_extends: "stdout w' = stdout w @ xs \<Longrightarrow> prefix (stdout w') z \<Longrightarrow> prefix (stdout w) z"
  by (metis append_prefixD)

lemma move_files_stdout: "prefix (stdout w) (stdout (snd (move_files dir files w)))"
proof (induction files arbitrary: w)
  case Nil
  then show ?case by simp
next
  case (Cons f rest)
  have step: "\<And>w' s. stdout w' = stdout w @ [s] \<Longrightarrow>
      prefix (stdout w) (stdout (snd (move_files dir rest w')))"
    by (metis Cons.IH append_prefixD)
  show ?case
    by (auto simp: Let_def split: sum.splits intro!: step)
qed

lemma delete_files_stdout: "prefix (stdout w) (stdout (delete_files files w))"
proof (induction files arbitrary: w)
  case Nil
  then show ?case by simp
next
  case (Cons f rest)
  have step: "\<And>w' s. stdout w' = stdout w @ [s] \<Longrightarrow> prefix (stdout w) (stdout (delete_files rest w'))"
    by (metis Cons.IH append_prefixD)
  show ?case
    by (auto split: sum.splits intro!: step)
qed

lemma list_files_stdout: "prefix (stdout w) (stdout (snd (list_files files w)))"
proof (induction files arbitrary: w)
  case Nil
  then show ?case by simp
next
  case (Cons f rest)
  have step: "\<And>w' s. stdout w' = stdout w @ [s] \<Longrightarrow>
      prefix (stdout w) (stdout (snd (list_files rest w')))"
    by (metis Cons.IH append_prefixD)
  show ?case
    by (auto split: sum.splits intro!: step)
qed

lemma run_choice_stdout: "prefix (stdout w) (stdout (snd (run_choice files a w)))"
proof -
  have "prefix (stdout w) (stdout (snd (move_action files w)))"
    using move_files_stdout [of "w\<lparr>disk := d\<rparr>" for d]
    by (auto simp: move_action_def split: sum.splits)
  moreover have "prefix (stdout w) (stdout (snd (confirm_delete files w)))"
  proof -
    obtain r w1 where inp: "py_input (confirm_prompt (length files)) w = (r, w1)"
      by (metis prod.exhaust)
    have "prefix (stdout w1) (stdout (snd (confirm_delete files w)))"
      using inp delete_files_stdout [of w1 files]
      by (auto simp: confirm_delete_def split: sum.splits)
    then show ?thesis
      using stdout_extends [OF py_input_stdout [OF inp]] by blast
  qed
  moreover have "prefix (stdout w) (stdout (snd (list_files files (print_line s w))))" for s
    using list_files_stdout [of "print_line s w" files] by (auto dest: append_prefixD)
  ultimately show ?thesis
    by (auto simp: run_choice_def)
qed

section \<open>Which inputs change the disk\<close>

text \<open>
  C6: \<open>organize_screenshots\<close> leaves the filesystem unchanged unless the first input line
  is \<open>1\<close>, or it is \<open>2\<close> and the second line, lower-cased, is \<open>yes\<close>: the empty set, the
  list action, a cancel (any other line), an unconfirmed delete, and end of input or an
  interrupt at either prompt are all non-destructive (specification, sections 4.4 and 8).
\<close>

lemma run_choice_disk:
  "action \<noteq> ''1'' \<Longrightarrow> action \<noteq> ''2'' \<Longrightarrow> disk (snd (run_choice files action w)) = disk w"
  by (simp add: run_choice_def list_files_disk)

lemma confirm_delete_disk:
  assumes "\<And>c rest. stdin w = Line c # rest \<Longrightarrow> lower c \<noteq> ''yes''"
  shows "disk (snd (confirm_delete files w)) = disk w"
proof (cases "\<exists>c rest. stdin w = Line c # rest")
  case True
  then obtain c rest where "stdin w = Line c # rest" by blast
  with assms show ?thesis by (simp add: confirm_delete_def py_input_Line)
next
  case False
  then obtain e w' where "py_input (confirm_prompt (length files)) w = (Inl e, w')"
    and "disk w' = disk w"
    using py_input_not_Line by blast
  then show ?thesis by (simp add: confirm_delete_def)
qed

theorem organize_disk_change_needs_action:
  assumes "disk (snd (organize_screenshots files w)) \<noteq> disk w"
  shows "(\<exists>rest. stdin w = Line ''1'' # rest) \<or>
         (\<exists>c rest. stdin w = Line ''2'' # Line c # rest \<and> lower c = ''yes'')"
proof (rule ccontr)
  assume none: "\<not> ?thesis"
  have "disk (snd (organize_screenshots files w)) = disk w"
  proof (cases "files = [] \<or> (\<exists>e. get_size_ext (disk w) files = Inl e)")
    case True
    then show ?thesis by (auto simp: organize_screenshots_def)
  next
    case False
    then obtain b ex where ne: "files \<noteq> []" and be: "get_size_ext (disk w) files = Inr (b, ex)"
      by (metis old.prod.exhaust sum.exhaust)
    let ?w0 = "print_summary (length files) b ex w"
    have org: "organize_screenshots files w =
      (case py_input menu_prompt ?w0 of (Inl e, w1) \<Rightarrow> (Inl e, w1)
       | (Inr action, w1) \<Rightarrow> run_choice files action w1)"
      using ne be by (simp add: organize_screenshots_def)
    show ?thesis
    proof (cases "\<exists>a rest. stdin w = Line a # rest")
      case False
      then obtain e w1 where "py_input menu_prompt ?w0 = (Inl e, w1)" and "disk w1 = disk w"
        using py_input_not_Line [of ?w0 menu_prompt] by auto
      then show ?thesis by (simp add: org)
    next
      case True
      then obtain a rest where st: "stdin w = Line a # rest" by blast
      let ?w1 = "?w0\<lparr>stdout := stdout ?w0 @ [menu_prompt], stdin := rest\<rparr>"
      have menu: "py_input menu_prompt ?w0 = (Inr a, ?w1)"
        using st by (simp add: py_input_Line)
      from none st have a1: "a \<noteq> ''1''" by auto
      show ?thesis
      proof (cases "a = ''2''")
        case False
        with a1 show ?thesis by (simp add: org menu run_choice_disk)
      next
        case True
        with none st have "\<And>c rest'. stdin ?w1 = Line c # rest' \<Longrightarrow> lower c \<noteq> ''yes''"
          by auto
        then have "disk (snd (confirm_delete files ?w1)) = disk ?w1"
          by (rule confirm_delete_disk)
        with True show ?thesis by (simp add: org menu run_choice_def)
      qed
    qed
  qed
  with assms show False by simp
qed

theorem organize_disk_change_needs_action_witness:
  "disk (snd (organize_screenshots [demo_home @ [''Desktop'', ''Screenshot 1.png'']]
      (mk_world demo_fs [Line ''2'', Line ''yes'']))) \<noteq> disk (mk_world demo_fs [Line ''2'', Line ''yes'']) \<and>
   ((\<exists>rest. stdin (mk_world demo_fs [Line ''2'', Line ''yes'']) = Line ''1'' # rest) \<or>
    (\<exists>c rest. stdin (mk_world demo_fs [Line ''2'', Line ''yes'']) = Line ''2'' # Line c # rest \<and> lower c = ''yes''))"
proof -
  have h: "disk (snd (organize_screenshots [demo_home @ [''Desktop'', ''Screenshot 1.png'']]
      (mk_world demo_fs [Line ''2'', Line ''yes'']))) \<noteq> disk (mk_world demo_fs [Line ''2'', Line ''yes''])"
    by (simp add: py_eval demo_fs_def demo_home_def demo_file_def)
  show ?thesis using organize_disk_change_needs_action [OF h] h by blast
qed

section \<open>Aggregation\<close>

lemma stat_sizes_present:
  "(\<forall>f \<in> set files. map_of fs f \<noteq> None) \<Longrightarrow>
   stat_sizes fs files = Inr (sum_list (map (\<lambda>f. st_size (the (map_of fs f))) files))"
  by (induction files) (auto simp: os_stat_def)

lemma stat_sizes_missing:
  "f \<in> set files \<Longrightarrow> map_of fs f = None \<Longrightarrow> \<exists>e. stat_sizes fs files = Inl e"
  by (induction files) (auto simp: os_stat_def split: option.splits sum.splits)

text \<open>
  C12: when every file is present, \<open>get_size_ext\<close> returns the sum of the files'
  \<open>st_size\<close> and the set of their suffixes, independent of order and duplicates
  (specification, sections 4.2 and 8).
\<close>

theorem get_size_ext_present:
  assumes "\<forall>f \<in> set files. map_of fs f \<noteq> None"
  shows "get_size_ext fs files =
           Inr (sum_list (map (\<lambda>f. st_size (the (map_of fs f))) files),
                (\<lambda>f. path_suffix (path_name f)) ` set files)"
  using stat_sizes_present [OF assms] by (simp add: get_size_ext_def)

theorem get_size_ext_present_witness:
  "get_size_ext demo_fs [demo_home @ [''Desktop'', ''Screenshot 1.png''], demo_home @ [''Pictures'', ''Screenshot 2.png'']] = Inr (3584, {''.png''})"
proof -
  have h: "\<forall>f \<in> set [demo_home @ [''Desktop'', ''Screenshot 1.png''], demo_home @ [''Pictures'', ''Screenshot 2.png'']]. map_of demo_fs f \<noteq> None"
    by (simp add: demo_fs_def demo_home_def)
  show ?thesis
    using get_size_ext_present [OF h]
    by (simp add: demo_fs_def demo_home_def demo_file_def py_eval)
qed

text \<open>
  C13: a file that is gone when the summary is computed is not isolated: \<open>get_size_ext\<close>
  raises, and so does \<open>organize_screenshots\<close>, before any prompt (specification,
  section 7).
\<close>

theorem organize_missing_file_raises:
  assumes "f \<in> set files" and "map_of (disk w) f = None"
  shows "\<exists>e. organize_screenshots files w = (Inl e, w)"
proof -
  obtain e where "stat_sizes (disk w) files = Inl e"
    using stat_sizes_missing [OF assms] by blast
  with assms(1) show ?thesis
    by (auto simp: organize_screenshots_def get_size_ext_def)
qed

theorem organize_missing_file_raises_witness:
  "demo_home @ [''Desktop'', ''gone.png''] \<in> set [demo_home @ [''Desktop'', ''gone.png'']] \<and>
   map_of (disk (mk_world demo_fs [])) (demo_home @ [''Desktop'', ''gone.png'']) = None \<and>
   (\<exists>e. organize_screenshots [demo_home @ [''Desktop'', ''gone.png'']] (mk_world demo_fs []) =
      (Inl e, mk_world demo_fs []))"
proof -
  have m: "map_of (disk (mk_world demo_fs [])) (demo_home @ [''Desktop'', ''gone.png'']) = None"
    by (simp add: mk_world_def demo_fs_def demo_home_def)
  show ?thesis
    using organize_missing_file_raises [OF _ m] m by simp
qed

section \<open>Deleting\<close>

lemma delete_files_fold:
  assumes "distinct files" and "\<forall>f \<in> set files. is_file (disk w) f"
  shows "delete_files files w =
           w\<lparr>disk := fold AList.delete files (disk w),
             stdout := stdout w @ map (\<lambda>f. ''Deleted: '' @ path_name f) files\<rparr>"
  using assms
proof (induction files arbitrary: w)
  case Nil
  then show ?case by simp
next
  case (Cons f rest)
  from Cons.prems obtain i where fi: "map_of (disk w) f = Some i" and k: "kind i = RegFile"
    by (auto simp: is_file_def split: option.splits)
  let ?w' = "print_line (''Deleted: '' @ path_name f) (w\<lparr>disk := AList.delete f (disk w)\<rparr>)"
  have "\<forall>g \<in> set rest. is_file (disk ?w') g"
  proof
    fix g assume g: "g \<in> set rest"
    with Cons.prems have "g \<noteq> f" and "is_file (disk w) g" by auto
    then show "is_file (disk ?w') g" by (simp add: is_file_def)
  qed
  with Cons.prems have "delete_files rest ?w' =
      ?w'\<lparr>disk := fold AList.delete rest (disk ?w'),
          stdout := stdout ?w' @ map (\<lambda>f. ''Deleted: '' @ path_name f) rest\<rparr>"
    by (intro Cons.IH) auto
  moreover have "delete_files (f # rest) w = delete_files rest ?w'"
    using fi k by (simp add: os_unlink_def)
  ultimately show ?case by (simp add: print_line_def)
qed

lemma fold_delete_keys: "fst ` set (fold AList.delete ps d) = fst ` set d - set ps"
  by (induction ps arbitrary: d) (auto simp: keys_delete)

text \<open>
  C7: a confirmed delete of distinct regular files removes exactly those files, in order,
  and reports \<open>Deleted: name\<close> for each: no discovered file is left, every other entry
  stays (specification, section 8, delete scenario).
\<close>

theorem confirm_delete_yes:
  assumes "stdin w = Line c # rest" and "lower c = ''yes''"
    and "distinct files" and "\<forall>f \<in> set files. is_file (disk w) f"
  shows "snd (confirm_delete files w) =
           w\<lparr>stdin := rest, disk := fold AList.delete files (disk w),
             stdout := stdout w @ [confirm_prompt (length files)] @
                       map (\<lambda>f. ''Deleted: '' @ path_name f) files\<rparr> \<and>
         fst ` set (disk (snd (confirm_delete files w))) = fst ` set (disk w) - set files"
proof -
  let ?w1 = "w\<lparr>stdout := stdout w @ [confirm_prompt (length files)], stdin := rest\<rparr>"
  have "confirm_delete files w = (Inr (), delete_files files ?w1)"
    using assms(1,2) by (simp add: confirm_delete_def py_input_Line)
  moreover have "delete_files files ?w1 =
      ?w1\<lparr>disk := fold AList.delete files (disk ?w1),
           stdout := stdout ?w1 @ map (\<lambda>f. ''Deleted: '' @ path_name f) files\<rparr>"
    using assms(3,4) by (intro delete_files_fold) auto
  ultimately show ?thesis by (simp add: fold_delete_keys)
qed

theorem confirm_delete_yes_witness:
  "fst ` set (disk (snd (confirm_delete [demo_home @ [''Desktop'', ''Screenshot 1.png''], demo_home @ [''Pictures'', ''Screenshot 2.png'']] (mk_world demo_fs [Line ''YES''])))) =
     fst ` set demo_fs - set [demo_home @ [''Desktop'', ''Screenshot 1.png''], demo_home @ [''Pictures'', ''Screenshot 2.png'']]"
proof -
  have h1: "stdin (mk_world demo_fs [Line ''YES'']) = Line ''YES'' # []" by (simp add: mk_world_def)
  have h2: "lower ''YES'' = ''yes''" by (simp add: py_eval)
  have h3: "distinct [demo_home @ [''Desktop'', ''Screenshot 1.png''], demo_home @ [''Pictures'', ''Screenshot 2.png'']]"
    by simp
  have h4: "\<forall>f \<in> set [demo_home @ [''Desktop'', ''Screenshot 1.png''], demo_home @ [''Pictures'', ''Screenshot 2.png'']]. is_file (disk (mk_world demo_fs [Line ''YES''])) f"
    by (simp add: mk_world_def demo_fs_def demo_home_def is_file_def demo_file_def)
  have d: "disk (mk_world demo_fs [Line ''YES'']) = demo_fs"
    by (simp add: mk_world_def)
  from confirm_delete_yes [OF h1 h2 h3 h4]
  have "fst ` set (disk (snd (confirm_delete [demo_home @ [''Desktop'', ''Screenshot 1.png''],
      demo_home @ [''Pictures'', ''Screenshot 2.png'']] (mk_world demo_fs [Line ''YES''])))) =
    fst ` set (disk (mk_world demo_fs [Line ''YES''])) -
      set [demo_home @ [''Desktop'', ''Screenshot 1.png''], demo_home @ [''Pictures'', ''Screenshot 2.png'']]"
    by (rule conjunct2)
  then show ?thesis
    by (simp only: d)
qed

text \<open>
  C8: every file of a confirmed delete gets exactly one report line, whether its
  \<open>unlink\<close> succeeds or fails, and no entry other than the listed files changes: a
  failure is reported and skipped, never fatal (specification, sections 4.4 and 7).
\<close>

theorem delete_files_isolated:
  "length (stdout (delete_files files w)) = length (stdout w) + length files \<and>
   (\<forall>p. p \<notin> set files \<longrightarrow> map_of (disk (delete_files files w)) p = map_of (disk w) p)"
proof (induction files arbitrary: w)
  case Nil
  then show ?case by simp
next
  case (Cons f rest)
  then show ?case
    by (auto simp: os_unlink_def split: option.splits if_splits)
qed

theorem delete_files_isolated_witness:
  "length (stdout (delete_files [demo_home @ [''Desktop'', ''Screenshot dir.png''], demo_home @ [''Desktop'', ''Screenshot 1.png'']] (mk_world demo_fs []))) = 2 \<and>
   map_of (disk (delete_files [demo_home @ [''Desktop'', ''Screenshot dir.png''], demo_home @ [''Desktop'', ''Screenshot 1.png'']] (mk_world demo_fs []))) (demo_home @ [''Desktop'', ''notes.txt'']) =
     Some (demo_file 10 1700000000)"
proof -
  have n: "demo_home @ [''Desktop'', ''notes.txt''] \<notin> set [demo_home @ [''Desktop'', ''Screenshot dir.png''], demo_home @ [''Desktop'', ''Screenshot 1.png'']]"
    by (simp add: demo_home_def)
  show ?thesis
    using delete_files_isolated [of "[demo_home @ [''Desktop'', ''Screenshot dir.png''], demo_home @ [''Desktop'', ''Screenshot 1.png'']]" "mk_world demo_fs []"] n
    by (simp add: mk_world_def demo_fs_def demo_home_def)
qed

section \<open>Listing\<close>

lemma list_files_present:
  "\<forall>f \<in> set files. map_of (disk w) f \<noteq> None \<Longrightarrow>
   list_files files w = (Inr (), w\<lparr>stdout := stdout w @ map (\<lambda>f. path_name f @ '' ('' @ human_size (int (st_size (the (map_of (disk w) f)))) @ '')'') files\<rparr>)"
  by (induction files arbitrary: w) (auto simp: os_stat_def print_line_def)

text \<open>
  C26: action 3 (lines 94--97) prints the heading \<open>Found screenshots:\<close> and then, for each
  file in discovery order, its name and its size through \<open>human_size\<close> in parentheses;
  it completes normally when every file can be \<open>stat\<close>ed, and changes neither the disk
  nor the input.
\<close>

theorem list_action_prints:
  assumes "\<forall>f \<in> set files. map_of (disk w) f \<noteq> None"
  shows "fst (run_choice files ''3'' w) = Inr () \<and>
         stdout (snd (run_choice files ''3'' w)) =
           stdout w @ (nl @ ''Found screenshots:'') #
             map (\<lambda>f. path_name f @ '' ('' @ human_size (int (st_size (the (map_of (disk w) f)))) @ '')'') files \<and>
         disk (snd (run_choice files ''3'' w)) = disk w \<and> stdin (snd (run_choice files ''3'' w)) = stdin w"
  using list_files_present [of files "print_line (nl @ ''Found screenshots:'') w"] assms
  by (simp add: run_choice_def)

theorem list_action_prints_witness:
  "fst (run_choice [demo_home @ [''Desktop'', ''Screenshot 1.png'']] ''3'' (mk_world demo_fs [])) = Inr () \<and>
   stdout (snd (run_choice [demo_home @ [''Desktop'', ''Screenshot 1.png'']] ''3'' (mk_world demo_fs []))) =
     [nl @ ''Found screenshots:'', ''Screenshot 1.png (1.50 KB)'']"
proof -
  have h: "\<forall>f \<in> set [demo_home @ [''Desktop'', ''Screenshot 1.png'']]. map_of (disk (mk_world demo_fs [])) f \<noteq> None"
    by (simp add: mk_world_def demo_fs_def demo_home_def)
  have m: "map_of (disk (mk_world demo_fs [])) (demo_home @ [''Desktop'', ''Screenshot 1.png'']) = Some (demo_file 1536 1700000000)"
    by (simp add: mk_world_def demo_fs_def demo_home_def)
  have hs: "human_size 1536 = ''1.50 KB''" by code_simp
  show ?thesis using list_action_prints [OF h] m hs
    by (simp add: mk_world_def demo_file_def path_name_def)
qed

text \<open>
  C28: every other answer to the menu (line 99) cancels: \<open>run_choice\<close> prints
  \<open>Operation cancelled\<close> and does nothing else. The choice is compared as read, so
  \<open>4\<close>, an empty line, \<open>q\<close> and \<open> 1\<close> with a leading space all cancel
  (specification, section 2: an unrecognised choice is Cancel).
\<close>

theorem run_choice_other_cancels:
  assumes "action \<notin> {''1'', ''2'', ''3''}"
  shows "run_choice files action w = (Inr (), print_line ''Operation cancelled'' w)"
  using assms by (simp add: run_choice_def)

theorem run_choice_other_cancels_witness:
  "'' 1'' \<notin> {''1'', ''2'', ''3''} \<and>
   run_choice [demo_home @ [''Desktop'', ''Screenshot 1.png'']] '' 1'' (mk_world demo_fs []) =
     (Inr (), print_line ''Operation cancelled'' (mk_world demo_fs []))"
proof -
  have h: "'' 1'' \<notin> {''1'', ''2'', ''3''}" by simp
  show ?thesis using run_choice_other_cancels [OF h] h by blast
qed

section \<open>Moving\<close>

text \<open>
  C9: when \<open>shutil.move\<close> fails for a file whose \<open>stat\<close> and month folder succeeded,
  the exception is caught (lines 76--80): the loop prints \<open>Error moving name: str(e)\<close>
  and goes on with the remaining files, from the world in which the month folder now
  exists (specification, section 4.4: a failure is reported and the batch continues).
  In the witness the destination name is taken by a directory that already holds an
  entry of that name, so \<open>shutil.move\<close> raises \<open>shutil.Error\<close>.
\<close>

theorem move_files_move_error:
  assumes "os_stat (disk w) f = Inr st"
    and "path_mkdir False True (clock w) (dir @ [month_folder (tz w) (st_ctime st)]) (disk w) = Inr d1"
    and "shutil_move (clock w) f (dir @ [month_folder (tz w) (st_ctime st), path_name f]) d1 = Inl e"
  shows "move_files dir (f # rest) w =
           move_files dir rest (print_line (''Error moving '' @ path_name f @ '': '' @ exn_str e) (w\<lparr>disk := d1\<rparr>))"
  using assms by simp

theorem move_files_move_error_witness:
  "(os_stat (disk (mk_world taken_fs [])) (demo_home @ [''Desktop'', ''Screenshot A.png'']) = Inr (demo_file 100 1700000000)) \<and>
   (path_mkdir False True (clock (mk_world taken_fs [])) ((demo_home @ [''Pictures'', ''Screenshots'']) @ [month_folder (tz (mk_world taken_fs [])) (st_ctime (demo_file 100 1700000000))]) (disk (mk_world taken_fs [])) = Inr taken_fs) \<and>
   (shutil_move (clock (mk_world taken_fs [])) (demo_home @ [''Desktop'', ''Screenshot A.png''])
     ((demo_home @ [''Pictures'', ''Screenshots'']) @ [month_folder (tz (mk_world taken_fs [])) (st_ctime (demo_file 100 1700000000)), path_name (demo_home @ [''Desktop'', ''Screenshot A.png''])]) taken_fs =
     Inl (ShutilDestExists (demo_home @ [''Pictures'', ''Screenshots'', ''2023-11'', ''Screenshot A.png'', ''Screenshot A.png'']))) \<and>
   (move_files (demo_home @ [''Pictures'', ''Screenshots'']) [demo_home @ [''Desktop'', ''Screenshot A.png'']] (mk_world taken_fs []) =
     move_files (demo_home @ [''Pictures'', ''Screenshots'']) []
       (print_line (''Error moving '' @ path_name (demo_home @ [''Desktop'', ''Screenshot A.png'']) @ '': '' @
          exn_str (ShutilDestExists (demo_home @ [''Pictures'', ''Screenshots'', ''2023-11'', ''Screenshot A.png'', ''Screenshot A.png''])))
        ((mk_world taken_fs [])\<lparr>disk := taken_fs\<rparr>)))"
proof -
  have h1: "os_stat (disk (mk_world taken_fs [])) (demo_home @ [''Desktop'', ''Screenshot A.png'']) = Inr (demo_file 100 1700000000)"
    by code_simp
  have h2: "path_mkdir False True (clock (mk_world taken_fs [])) ((demo_home @ [''Pictures'', ''Screenshots'']) @ [month_folder (tz (mk_world taken_fs [])) (st_ctime (demo_file 100 1700000000))]) (disk (mk_world taken_fs [])) = Inr taken_fs"
    by code_simp
  have h3: "shutil_move (clock (mk_world taken_fs [])) (demo_home @ [''Desktop'', ''Screenshot A.png''])
     ((demo_home @ [''Pictures'', ''Screenshots'']) @ [month_folder (tz (mk_world taken_fs [])) (st_ctime (demo_file 100 1700000000)), path_name (demo_home @ [''Desktop'', ''Screenshot A.png''])]) taken_fs =
     Inl (ShutilDestExists (demo_home @ [''Pictures'', ''Screenshots'', ''2023-11'', ''Screenshot A.png'', ''Screenshot A.png'']))"
    by code_simp
  have m: "move_files (demo_home @ [''Pictures'', ''Screenshots'']) [demo_home @ [''Desktop'', ''Screenshot A.png'']] (mk_world taken_fs []) =
     move_files (demo_home @ [''Pictures'', ''Screenshots'']) []
       (print_line (''Error moving '' @ path_name (demo_home @ [''Desktop'', ''Screenshot A.png'']) @ '': '' @
          exn_str (ShutilDestExists (demo_home @ [''Pictures'', ''Screenshots'', ''2023-11'', ''Screenshot A.png'', ''Screenshot A.png''])))
        ((mk_world taken_fs [])\<lparr>disk := taken_fs\<rparr>))"
    using move_files_move_error [where dir = "(demo_home @ [''Pictures'', ''Screenshots''])", OF h1 h2 h3] by simp
  from h1 h2 h3 m show ?thesis by blast
qed

text \<open>
  C11: a month folder that cannot be created ends the loop at once: the \<open>mkdir\<close> of
  line 73 stands outside the \<open>try\<close>, so its exception is returned with the world as it
  was, and neither the file at hand nor any later one is moved or reported, whatever
  their month folders. In the witness a regular file has the folder's name.
\<close>

theorem move_files_mkdir_aborts:
  assumes "os_stat (disk w) f = Inr st"
    and "path_mkdir False True (clock w) (dir @ [month_folder (tz w) (st_ctime st)]) (disk w) = Inl e"
  shows "move_files dir (f # rest) w = (Inl e, w)"
  using assms by simp

theorem move_files_mkdir_aborts_witness:
  "(os_stat (disk (mk_world blocked_fs [])) (demo_home @ [''Desktop'', ''Screenshot A.png'']) = Inr (demo_file 100 1700000000)) \<and>
   (path_mkdir False True (clock (mk_world blocked_fs [])) ((demo_home @ [''Pictures'', ''Screenshots'']) @ [month_folder (tz (mk_world blocked_fs [])) (st_ctime (demo_file 100 1700000000))]) (disk (mk_world blocked_fs [])) =
     Inl (OSError EEXIST (demo_home @ [''Pictures'', ''Screenshots'', ''2023-11'']) None)) \<and>
   (move_files (demo_home @ [''Pictures'', ''Screenshots'']) blocked_files (mk_world blocked_fs []) =
     (Inl (OSError EEXIST (demo_home @ [''Pictures'', ''Screenshots'', ''2023-11'']) None), mk_world blocked_fs []))"
proof -
  have h1: "os_stat (disk (mk_world blocked_fs [])) (demo_home @ [''Desktop'', ''Screenshot A.png'']) = Inr (demo_file 100 1700000000)"
    by code_simp
  have h2: "path_mkdir False True (clock (mk_world blocked_fs [])) ((demo_home @ [''Pictures'', ''Screenshots'']) @ [month_folder (tz (mk_world blocked_fs [])) (st_ctime (demo_file 100 1700000000))]) (disk (mk_world blocked_fs [])) =
     Inl (OSError EEXIST (demo_home @ [''Pictures'', ''Screenshots'', ''2023-11'']) None)"
    by code_simp
  have m: "move_files (demo_home @ [''Pictures'', ''Screenshots'']) blocked_files (mk_world blocked_fs []) =
     (Inl (OSError EEXIST (demo_home @ [''Pictures'', ''Screenshots'', ''2023-11'']) None), mk_world blocked_fs [])"
    unfolding blocked_files_def using move_files_mkdir_aborts [where dir = "(demo_home @ [''Pictures'', ''Screenshots''])", OF h1 h2] by simp
  from h1 h2 m show ?thesis by blast
qed

section \<open>The move action refines MoveByDate\<close>

lemma proper_prefixes_iff: "q \<in> set (butlast (prefixes p)) \<longleftrightarrow> prefix q p \<and> q \<noteq> p"
  by (induction p rule: rev_induct) (auto simp: prefixes_snoc prefix_snoc)

lemma proper_prefix_shorter: "prefix q p \<Longrightarrow> q \<noteq> p \<Longrightarrow> length q < length p"
  by (rule prefix_length_less) (simp add: strict_prefix_def)

lemma file_map_None_iff: "file_map fs q = None \<longleftrightarrow> \<not> is_file fs q"
  by (auto simp: file_map_def is_file_def split: option.splits kind.splits)

lemma file_map_cong: "map_of fs' q = map_of fs q \<Longrightarrow> file_map fs' q = file_map fs q"
  by (simp add: file_map_def)

lemma is_file_cong: "map_of fs' q = map_of fs q \<Longrightarrow> is_file fs' q = is_file fs q"
  by (simp add: is_file_def)

lemma length_move_dest: "length (move_dest dir w f) = length dir + 2"
  by (simp add: move_dest_def)

lemma move_preconds_Cons:
  "move_preconds dir (f # rest) w \<longleftrightarrow>
     f \<notin> set rest \<and> is_file (disk w) f \<and> move_dest dir w f \<notin> move_dest dir w ` set rest \<and>
     move_dest dir w f \<notin> fst ` set (disk w) \<and>
     (\<forall>q. prefix q (move_dest dir w f) \<and> q \<noteq> move_dest dir w f \<longrightarrow> \<not> is_file (disk w) q) \<and>
     move_preconds dir rest w"
  by (auto simp: move_preconds_def proper_prefixes_iff)

text \<open>One iteration of the move loop on a file whose destination is free.\<close>

lemma move_files_step:
  assumes wf: "wf_fs (disk w)" and dir: "is_dir (disk w) dir"
    and f: "map_of (disk w) f = Some si" "kind si = RegFile"
    and fresh: "move_dest dir w f \<notin> fst ` set (disk w)"
    and path: "\<forall>q. prefix q (move_dest dir w f) \<and> q \<noteq> move_dest dir w f \<longrightarrow> \<not> is_file (disk w) q"
  obtains d2 where
    "move_files dir (f # rest) w =
       move_files dir rest (print_line (''Moved: '' @ path_name f @ '' '' @ arrow @ '' '' @
          render_path (butlast (move_dest dir w f))) (w\<lparr>disk := d2\<rparr>))"
    "wf_fs d2"
    "\<And>q. q \<noteq> butlast (move_dest dir w f) \<Longrightarrow> map_of d2 q =
       (if q = move_dest dir w f then Some si else if q = f then None else map_of (disk w) q)"
    "is_dir d2 (butlast (move_dest dir w f))"
proof -
  let ?md = "dir @ [month_folder (tz w) (st_ctime si)]"
  let ?dst = "move_dest dir w f"
  have dst: "?dst = ?md @ [path_name f]" using f by (simp add: move_dest_def)
  have mdp: "prefix ?md ?dst" "?md \<noteq> ?dst" using dst by auto
  have bl: "butlast ?dst = ?md" using dst by (simp add: butlast_append)
  have mdf: "\<not> is_file (disk w) ?md" using path mdp by blast
  have "is_dir (disk w) (butlast ?md)" using dir by simp
  then obtain d1 where m1: "path_mkdir False True (clock w) ?md (disk w) = Inr d1"
    and d1: "is_dir d1 ?md" "wf_fs d1" "\<And>q. q \<noteq> ?md \<Longrightarrow> map_of d1 q = map_of (disk w) q"
    and k1: "fst ` set d1 = insert ?md (fst ` set (disk w))"
    using path_mkdir_existing_ok [OF wf _ mdf] by blast
  have ff: "is_file (disk w) f" using f by (simp add: is_file_def)
  have fmd: "f \<noteq> ?md" using ff mdf by blast
  have f1: "map_of d1 f = Some si" using d1(3) [OF fmd] f(1) by simp
  have fresh1: "?dst \<notin> fst ` set d1" using fresh k1 mdp(2) by auto
  have par1: "is_dir d1 (butlast ?dst)" using d1(1) bl by simp
  have fk: "f \<in> fst ` set (disk w)" using f(1) by (rule map_of_SomeD_keys)
  have np: "\<not> prefix f ?dst"
  proof
    assume "prefix f ?dst"
    moreover have "f \<noteq> ?dst" using fk fresh by metis
    ultimately show False using path ff by blast
  qed
  obtain d2 where m2: "shutil_move (clock w) f ?dst d1 = Inr d2" and w2: "wf_fs d2"
    and d2: "\<forall>q. map_of d2 q = (if q = ?dst then Some si else if q = f then None else map_of d1 q)"
    using shutil_move_fresh_file [OF d1(2) f1 f(2) fresh1 par1 np] by blast
  show ?thesis
  proof
    show "move_files dir (f # rest) w =
       move_files dir rest (print_line (''Moved: '' @ path_name f @ '' '' @ arrow @ '' '' @
          render_path (butlast ?dst)) (w\<lparr>disk := d2\<rparr>))"
      using f m1 m2 dst bl by (simp add: os_stat_def Let_def)
    show "wf_fs d2" by (rule w2)
    show "map_of d2 q = (if q = ?dst then Some si else if q = f then None else map_of (disk w) q)"
      if "q \<noteq> butlast ?dst" for q
      using that d2 d1(3) bl by simp
    have "map_of d2 ?md = map_of d1 ?md" using d2 mdp(2) fmd by simp
    then show "is_dir d2 (butlast ?dst)" using d1(1) bl by (simp add: is_dir_def)
  qed
qed

lemma move_files_refines:
  assumes "wf_fs (disk w)" and "is_dir (disk w) dir" and "move_preconds dir files w"
  shows "fst (move_files dir files w) = Inr () \<and>
         file_map (disk (snd (move_files dir files w))) =
           move_spec (file_map (disk w)) (map (\<lambda>f. (f, move_dest dir w f)) files) \<and>
         wf_fs (disk (snd (move_files dir files w)))"
  using assms
proof (induction files arbitrary: w)
  case Nil
  then show ?case by simp
next
  case (Cons f rest)
  let ?dst = "move_dest dir w f"
  let ?md = "butlast ?dst"
  from Cons.prems(3) have nr: "f \<notin> set rest" and ff: "is_file (disk w) f"
    and dd: "?dst \<notin> move_dest dir w ` set rest" and fresh: "?dst \<notin> fst ` set (disk w)"
    and path: "\<forall>q. prefix q ?dst \<and> q \<noteq> ?dst \<longrightarrow> \<not> is_file (disk w) q"
    and pr: "move_preconds dir rest w"
    by (simp_all add: move_preconds_Cons)
  from ff obtain si where f: "map_of (disk w) f = Some si" "kind si = RegFile"
    by (auto simp: is_file_def split: option.splits)
  obtain d2 where eq: "move_files dir (f # rest) w =
       move_files dir rest (print_line (''Moved: '' @ path_name f @ '' '' @ arrow @ '' '' @
          render_path ?md) (w\<lparr>disk := d2\<rparr>))"
    and w2: "wf_fs d2"
    and fr: "\<And>q. q \<noteq> ?md \<Longrightarrow> map_of d2 q =
       (if q = ?dst then Some si else if q = f then None else map_of (disk w) q)"
    and mdd: "is_dir d2 ?md"
    using move_files_step [OF Cons.prems(1,2) f fresh path] by blast
  let ?w2 = "print_line (''Moved: '' @ path_name f @ '' '' @ arrow @ '' '' @ render_path ?md)
                (w\<lparr>disk := d2\<rparr>)"
  have lmd: "length ?md = length dir + 1" by (simp add: length_move_dest)
  have "length ?md \<noteq> length ?dst" using lmd length_move_dest [of dir w f] by simp
  then have mdne: "?md \<noteq> ?dst" by metis
  have mdnf: "\<not> is_file (disk w) ?md"
    using mdne path prefix_butlast by blast
  have fk: "f \<in> fst ` set (disk w)" using f(1) by (rule map_of_SomeD_keys)
  have fdst: "f \<noteq> ?dst" using fk fresh by metis
  have same: "map_of d2 g = map_of (disk w) g" if g: "g \<in> set rest" for g
  proof -
    have gf: "is_file (disk w) g" using pr g by (simp add: move_preconds_def)
    then have "g \<noteq> ?md" using mdnf by blast
    moreover have "g \<in> fst ` set (disk w)"
      using gf by (auto simp: is_file_def dest: map_of_SomeD_keys split: option.splits)
    then have "g \<noteq> ?dst" using fresh by metis
    moreover have "g \<noteq> f" using nr g by blast
    ultimately show ?thesis using fr by simp
  qed
  have dest_same: "move_dest dir ?w2 g = move_dest dir w g" if "g \<in> set rest" for g
    using same [OF that] by (simp add: move_dest_def)
  have dests: "map (move_dest dir ?w2) rest = map (move_dest dir w) rest"
    using dest_same by simp
  have dir2: "is_dir d2 dir"
  proof -
    have "length dir \<noteq> length ?md" "length dir \<noteq> length ?dst"
      using lmd length_move_dest [of dir w f] by simp_all
    then have "dir \<noteq> ?md" "dir \<noteq> ?dst" by metis+
    moreover have "dir \<noteq> f" using Cons.prems(2) ff is_dir_not_file by blast
    ultimately show ?thesis using fr Cons.prems(2) by (simp add: is_dir_def)
  qed
  have pre2: "move_preconds dir rest ?w2"
    unfolding move_preconds_def
  proof (intro conjI ballI)
    show "distinct rest" using pr by (simp add: move_preconds_def)
    show "is_file (disk ?w2) g" if "g \<in> set rest" for g
      using pr that same [OF that] by (simp add: move_preconds_def is_file_def)
    have "distinct (map (move_dest dir w) rest)" using pr by (simp add: move_preconds_def)
    then show "distinct (map (move_dest dir ?w2) rest)" by (simp only: dests)
    fix g assume g: "g \<in> set rest"
    let ?dg = "move_dest dir w g"
    have ldg: "length ?dg = length dir + 2" by (rule length_move_dest)
    have dg_md: "?dg \<noteq> ?md" using ldg lmd by auto
    have dg_dst: "?dg \<noteq> ?dst" using dd g by (metis image_eqI)
    have dg_w: "map_of (disk w) ?dg = None"
      using pr g by (simp add: move_preconds_def map_of_eq_None_iff)
    have "?dg \<noteq> f" using fk dg_w by (auto simp: map_of_eq_None_iff)
    then have "map_of d2 ?dg = None" using fr [OF dg_md] dg_dst dg_w by simp
    then show "move_dest dir ?w2 g \<notin> fst ` set (disk ?w2)"
      using dest_same [OF g] by (simp add: map_of_eq_None_iff)
    show "\<not> is_file (disk ?w2) q" if q: "q \<in> set (butlast (prefixes (move_dest dir ?w2 g)))" for q
    proof -
      from q dest_same [OF g] have pq: "prefix q ?dg" "q \<noteq> ?dg" by (simp_all add: proper_prefixes_iff)
      have "length q < length ?dg" using pq by (rule proper_prefix_shorter)
      show ?thesis
      proof (cases "q = ?md")
        case True
        then show ?thesis using mdd is_dir_not_file by simp
      next
        case False
        have "q \<noteq> ?dst" using \<open>length q < length ?dg\<close> ldg length_move_dest [of dir w f] by auto
        moreover have "\<not> is_file (disk w) q"
          using pr g pq by (simp add: move_preconds_def proper_prefixes_iff)
        ultimately show ?thesis using fr [OF False] by (simp add: is_file_def)
      qed
    qed
  qed
  have fm: "file_map d2 = (file_map (disk w))(?dst := file_map (disk w) f, f := None)"
  proof
    fix q
    show "file_map d2 q = ((file_map (disk w))(?dst := file_map (disk w) f, f := None)) q"
    proof (cases "q = ?md")
      case True
      note mdne
      moreover have "?md \<noteq> f" using mdnf ff by metis
      moreover have "file_map d2 ?md = None" using mdd is_dir_not_file file_map_None_iff by blast
      moreover have "file_map (disk w) ?md = None" using mdnf file_map_None_iff by blast
      ultimately show ?thesis using True by simp
    next
      case False
      then show ?thesis using fr [OF False] f fdst by (simp add: file_map_def)
    qed
  qed
  have ih: "fst (move_files dir rest ?w2) = Inr () \<and>
      file_map (disk (snd (move_files dir rest ?w2))) =
        move_spec (file_map (disk ?w2)) (map (\<lambda>g. (g, move_dest dir ?w2 g)) rest) \<and>
      wf_fs (disk (snd (move_files dir rest ?w2)))"
    using Cons.IH [of ?w2] w2 dir2 pre2 by simp
  have mp: "map (\<lambda>g. (g, move_dest dir ?w2 g)) rest = map (\<lambda>g. (g, move_dest dir w g)) rest"
    using dest_same by simp
  have dw2: "disk ?w2 = d2" by simp
  have ms: "move_spec (file_map (disk ?w2)) (map (\<lambda>g. (g, move_dest dir ?w2 g)) rest) =
      move_spec (file_map (disk w)) (map (\<lambda>f. (f, move_dest dir w f)) (f # rest))"
    by (simp only: dw2 mp fm list.map move_spec.simps)
  show ?case
    unfolding eq ms [symmetric] by (rule ih)
qed

lemma map_of_append_dirs:
  assumes "\<forall>(q, i) \<in> set zs. i = dir_inode t" and "map_of zs q = Some i"
  shows "kind i = Directory"
proof -
  from assms(2) have "(q, i) \<in> set zs" by (rule map_of_SomeD)
  with assms(1) have "i = dir_inode t" by auto
  then show ?thesis by (simp add: dir_inode_def)
qed

lemma is_file_append_dirs:
  assumes "\<forall>(q, i) \<in> set zs. i = dir_inode t"
  shows "is_file (fs @ zs) q = is_file fs q" and "file_map (fs @ zs) q = file_map fs q"
  using map_of_append_dirs [OF assms, of q]
  by (auto simp: is_file_def file_map_def map_add_def split: option.splits)

text \<open>
  C2: when the move has no collision (the destinations are distinct and new, and no
  regular file lies on their paths or on the path of \<open>~/Pictures/Screenshots\<close>), the
  move action of \<open>organize_screenshots\<close> refines the specification's MoveByDate: it
  completes, the regular files afterwards are exactly those of \<open>move_spec\<close>, each file
  renamed to \<open>Screenshots/YYYY-MM/name\<close> of its own \<open>st_ctime\<close>, and the filesystem
  is still a tree (specification, sections 4.4 and 8).
\<close>

theorem move_action_refines:
  assumes wf: "wf_fs (disk w)"
    and sd: "\<forall>q \<in> set (prefixes (screenshots_dir w)). \<not> is_file (disk w) q"
    and pre: "move_preconds (screenshots_dir w) files w"
  shows "fst (move_action files w) = Inr () \<and>
         file_map (disk (snd (move_action files w))) =
           move_spec (file_map (disk w)) (map (\<lambda>f. (f, move_dest (screenshots_dir w) w f)) files) \<and>
         wf_fs (disk (snd (move_action files w)))"
proof -
  let ?S = "screenshots_dir w"
  have "\<forall>q. prefix q ?S \<longrightarrow> \<not> is_file (disk w) q" using sd in_set_prefixes by blast
  then obtain d where m: "path_mkdir True True (clock w) ?S (disk w) = Inr d"
    and dS: "is_dir d ?S" and wfd: "wf_fs d"
    using path_mkdir_parents_succeeds [OF wf] by blast
  obtain zs where z: "d = disk w @ zs" "\<forall>(q, i) \<in> set zs. prefix q ?S \<and> i = dir_inode (clock w)"
    using path_mkdir_adds [OF m] by blast
  have zd: "\<forall>(q, i) \<in> set zs. i = dir_inode (clock w)" using z(2) by auto
  let ?w1 = "w\<lparr>disk := d\<rparr>"
  have act: "move_action files w = move_files ?S files ?w1"
    using m by (simp add: move_action_def screenshots_dir_def)
  have S1: "screenshots_dir ?w1 = ?S" by (simp add: screenshots_dir_def)
  have fk: "f \<in> fst ` set (disk w)" if "f \<in> set files" for f
    using pre that by (auto simp: move_preconds_def is_file_def dest: map_of_SomeD_keys split: option.splits)
  have dest1: "move_dest ?S ?w1 f = move_dest ?S w f" if "f \<in> set files" for f
    using map_of_append_old [OF fk [OF that], of zs] z(1) by (simp add: move_dest_def)
  have dests1: "map (move_dest ?S ?w1) files = map (move_dest ?S w) files"
    using dest1 by simp
  have pre1: "move_preconds ?S files ?w1"
    unfolding move_preconds_def
  proof (intro conjI ballI)
    show "distinct files" using pre by (simp add: move_preconds_def)
    show "is_file (disk ?w1) f" if "f \<in> set files" for f
      using pre that z(1) is_file_append_dirs(1) [OF zd] by (simp add: move_preconds_def)
    have "distinct (map (move_dest ?S w) files)" using pre by (simp add: move_preconds_def)
    then show "distinct (map (move_dest ?S ?w1) files)" by (simp only: dests1)
    fix f assume f: "f \<in> set files"
    have nk: "move_dest ?S w f \<notin> fst ` set (disk w)" using pre f by (simp add: move_preconds_def)
    have "move_dest ?S w f \<notin> fst ` set zs"
    proof
      assume "move_dest ?S w f \<in> fst ` set zs"
      with z(2) have "prefix (move_dest ?S w f) ?S" by auto
      then have "length (move_dest ?S w f) \<le> length ?S" by (rule prefix_length_le)
      then show False by (simp add: length_move_dest)
    qed
    with nk z(1) show "move_dest ?S ?w1 f \<notin> fst ` set (disk ?w1)"
      using dest1 [OF f] by auto
    show "\<not> is_file (disk ?w1) q" if "q \<in> set (butlast (prefixes (move_dest ?S ?w1 f)))" for q
      using pre f that dest1 [OF f] z(1) is_file_append_dirs(1) [OF zd] by (simp add: move_preconds_def)
  qed
  have fm: "file_map d = file_map (disk w)"
    using z(1) is_file_append_dirs(2) [OF zd] by auto
  have mp: "map (\<lambda>f. (f, move_dest ?S ?w1 f)) files = map (\<lambda>f. (f, move_dest ?S w f)) files"
    using dest1 by simp
  have r: "fst (move_files ?S files ?w1) = Inr () \<and>
      file_map (disk (snd (move_files ?S files ?w1))) =
        move_spec (file_map (disk ?w1)) (map (\<lambda>f. (f, move_dest ?S ?w1 f)) files) \<and>
      wf_fs (disk (snd (move_files ?S files ?w1)))"
    using move_files_refines [of ?w1 ?S files] wfd dS pre1 by simp
  show ?thesis
  proof -
    have dw1: "disk ?w1 = d" by simp
    show ?thesis unfolding act using r by (simp only: mp dw1 fm)
  qed
qed

theorem move_action_refines_witness:
  "fst (move_action [demo_home @ [''Desktop'', ''Screenshot 1.png''], demo_home @ [''Pictures'', ''Screenshot 2.png'']] (mk_world demo_fs [])) = Inr () \<and>
   file_map (disk (snd (move_action [demo_home @ [''Desktop'', ''Screenshot 1.png''], demo_home @ [''Pictures'', ''Screenshot 2.png'']] (mk_world demo_fs [])))) =
     move_spec (file_map demo_fs)
       [(demo_home @ [''Desktop'', ''Screenshot 1.png''],
         demo_home @ [''Pictures'', ''Screenshots'', ''2023-11'', ''Screenshot 1.png'']),
        (demo_home @ [''Pictures'', ''Screenshot 2.png''],
         demo_home @ [''Pictures'', ''Screenshots'', ''2024-02'', ''Screenshot 2.png''])]"
proof -
  have h1: "wf_fs (disk (mk_world demo_fs []))"
    by (simp add: mk_world_def wf_fs_def demo_fs_def demo_home_def is_dir_def dir_inode_def demo_file_def)
  have h2: "\<forall>q \<in> set (prefixes (screenshots_dir (mk_world demo_fs []))). \<not> is_file (disk (mk_world demo_fs [])) q"
    by (simp add: mk_world_def screenshots_dir_def demo_fs_def demo_home_def is_file_def dir_inode_def demo_file_def)
  have h3: "move_preconds (screenshots_dir (mk_world demo_fs [])) [demo_home @ [''Desktop'', ''Screenshot 1.png''], demo_home @ [''Pictures'', ''Screenshot 2.png'']] (mk_world demo_fs [])"
    by (simp add: move_preconds_def move_dest_def py_eval demo_fs_def demo_home_def demo_file_def)
  have d: "map (\<lambda>f. (f, move_dest (screenshots_dir (mk_world demo_fs [])) (mk_world demo_fs []) f)) [demo_home @ [''Desktop'', ''Screenshot 1.png''], demo_home @ [''Pictures'', ''Screenshot 2.png'']] =
       [(demo_home @ [''Desktop'', ''Screenshot 1.png''],
         demo_home @ [''Pictures'', ''Screenshots'', ''2023-11'', ''Screenshot 1.png'']),
        (demo_home @ [''Pictures'', ''Screenshot 2.png''],
         demo_home @ [''Pictures'', ''Screenshots'', ''2024-02'', ''Screenshot 2.png''])]"
    by (simp add: move_dest_def py_eval demo_fs_def demo_home_def demo_file_def)
  have e: "disk (mk_world demo_fs []) = demo_fs" by (simp add: mk_world_def)
  from move_action_refines [OF h1 h2 h3] show ?thesis
    by (simp only: d e)
qed

section \<open>Name collisions\<close>

text \<open>
  C10: two regular files with the same name and the same month folder, the first
  destination new: both are reported as moved into the folder, but the second
  \<open>shutil.move\<close> replaces the first file there (\<open>rename(2)\<close> onto a regular file).
  Afterwards the destination holds the second file's inode and neither source exists,
  so the first file is gone without an error. The specification says a collision in
  the destination is reported, not silently resolved.
\<close>

theorem move_clash_overwrites:
  assumes wf: "wf_fs (disk w)" and dir: "is_dir (disk w) dir"
    and f1: "map_of (disk w) f1 = Some s1" "kind s1 = RegFile"
    and f2: "map_of (disk w) f2 = Some s2" "kind s2 = RegFile"
    and ne: "f1 \<noteq> f2" and same: "move_dest dir w f2 = move_dest dir w f1"
    and fresh: "move_dest dir w f1 \<notin> fst ` set (disk w)"
    and path: "\<forall>q \<in> set (butlast (prefixes (move_dest dir w f1))). \<not> is_file (disk w) q"
  shows "fst (move_files dir [f1, f2] w) = Inr () \<and>
    stdout (snd (move_files dir [f1, f2] w)) = stdout w @
      [''Moved: '' @ path_name f1 @ '' '' @ arrow @ '' '' @ render_path (butlast (move_dest dir w f1)),
       ''Moved: '' @ path_name f2 @ '' '' @ arrow @ '' '' @ render_path (butlast (move_dest dir w f1))] \<and>
    map_of (disk (snd (move_files dir [f1, f2] w))) (move_dest dir w f1) = Some s2 \<and>
    map_of (disk (snd (move_files dir [f1, f2] w))) f1 = None \<and>
    map_of (disk (snd (move_files dir [f1, f2] w))) f2 = None"
proof -
  let ?d = "move_dest dir w f1"
  let ?md = "butlast ?d"
  let ?L1 = "''Moved: '' @ path_name f1 @ '' '' @ arrow @ '' '' @ render_path ?md"
  let ?L2 = "''Moved: '' @ path_name f2 @ '' '' @ arrow @ '' '' @ render_path ?md"
  have path': "\<forall>q. prefix q ?d \<and> q \<noteq> ?d \<longrightarrow> \<not> is_file (disk w) q"
    using path proper_prefixes_iff by blast
  obtain d2 where st1: "move_files dir (f1 # [f2]) w = move_files dir [f2] (print_line ?L1 (w\<lparr>disk := d2\<rparr>))"
    and wf2: "wf_fs d2"
    and m2: "\<And>q. q \<noteq> ?md \<Longrightarrow> map_of d2 q = (if q = ?d then Some s1 else if q = f1 then None else map_of (disk w) q)"
    and dir2: "is_dir d2 ?md"
    using move_files_step [OF wf dir f1 fresh path'] by blast
  have d1: "?d = dir @ [month_folder (tz w) (st_ctime s1), path_name f1]"
    using f1(1) by (simp add: move_dest_def)
  have d2e: "move_dest dir w f2 = dir @ [month_folder (tz w) (st_ctime s2), path_name f2]"
    using f2(1) by (simp add: move_dest_def)
  have md: "?md = dir @ [month_folder (tz w) (st_ctime s2)]" and nm: "path_name f2 = path_name f1"
    using same d1 d2e by (simp_all add: butlast_append)
  have mdp: "prefix ?md ?d" "?md \<noteq> ?d" using d1 by (auto simp: butlast_append)
  have f2file: "is_file (disk w) f2" and f1file: "is_file (disk w) f1"
    using f1 f2 by (simp_all add: is_file_def)
  have nmd: "\<not> is_file (disk w) ?md" using path' [rule_format, OF conjI [OF mdp]] .
  have f2md: "f2 \<noteq> ?md" using nmd f2file by metis
  have f1md: "f1 \<noteq> ?md" using nmd f1file by metis
  have f2d: "f2 \<noteq> ?d" using fresh map_of_SomeD_keys [OF f2(1)] by metis
  have f1d: "f1 \<noteq> ?d" using fresh map_of_SomeD_keys [OF f1(1)] by metis
  have map2f2: "map_of d2 f2 = Some s2" using m2 [of f2] f2md f2d ne f2(1) by simp
  have dirmd: "butlast ?md = dir" using d1 by (simp add: butlast_append)
  have dir_ne: "dir \<noteq> ?md" "dir \<noteq> ?d" using d1 by (simp_all add: butlast_append)
  have "map_of d2 dir = map_of (disk w) dir"
    using m2 [of dir] dir_ne dir f1file by (auto simp: is_dir_def is_file_def split: option.splits)
  then have par: "is_dir d2 (butlast ?md)" using dir dirmd by (simp add: is_dir_def)
  have nf: "\<not> is_file d2 ?md" using dir2 by (auto simp: is_dir_def is_file_def split: option.splits)
  obtain d3 where p3: "path_mkdir False True (clock w) ?md d2 = Inr d3" and wf3: "wf_fs d3"
    and m3: "\<forall>q. q \<noteq> ?md \<longrightarrow> map_of d3 q = map_of d2 q"
    using path_mkdir_existing_ok [OF wf2 par nf, of "clock w"] by blast
  have map3d: "map_of d3 ?d = Some s1" using m3 m2 [of ?d] mdp by simp
  have map3f2: "map_of d3 f2 = Some s2" using m3 map2f2 f2md by simp
  obtain d4 where sm: "shutil_move (clock w) f2 ?d d3 = Inr d4" and r4: "map_of d4 ?d = Some s2"
    "map_of d4 f2 = None" and o4: "\<forall>p. p \<noteq> f2 \<and> p \<noteq> ?d \<longrightarrow> map_of d4 p = map_of d3 p"
    using shutil_move_replaces_file [OF wf3 map3f2 f2(2) map3d f1(2) f2d] by blast
  have m12: "month_folder (tz w) (st_ctime s2) = month_folder (tz w) (st_ctime s1)"
    using same d1 d2e by simp
  have dd: "dir @ [month_folder (tz w) (st_ctime s2), path_name f2] = ?d" using d1 m12 nm by simp
  have st2: "move_files dir [f2] (print_line ?L1 (w\<lparr>disk := d2\<rparr>)) =
      (Inr (), print_line ?L2 ((print_line ?L1 (w\<lparr>disk := d2\<rparr>))\<lparr>disk := d4\<rparr>))"
    using map2f2 p3 sm md dd by (simp add: os_stat_def Let_def)
  have f1_4: "map_of d4 f1 = None"
    using o4 ne f1d m3 f1md m2 [of f1] f1d by simp
  show ?thesis using st1 st2 r4 f1_4 by simp
qed

theorem move_clash_overwrites_witness:
  "(wf_fs (disk (mk_world clash_fs []))) \<and>
   (is_dir (disk (mk_world clash_fs [])) (demo_home @ [''Pictures'', ''Screenshots''])) \<and>
   (map_of (disk (mk_world clash_fs [])) (demo_home @ [''Desktop'', ''Screenshot A.png'']) = Some (demo_file 100 1700000000)) \<and>
   (kind (demo_file 100 1700000000) = RegFile) \<and>
   (map_of (disk (mk_world clash_fs [])) (demo_home @ [''Downloads'', ''Screenshot A.png'']) = Some (demo_file 200 1700000000)) \<and>
   (kind (demo_file 200 1700000000) = RegFile) \<and>
   ((demo_home @ [''Desktop'', ''Screenshot A.png'']) \<noteq> (demo_home @ [''Downloads'', ''Screenshot A.png''])) \<and>
   (move_dest (demo_home @ [''Pictures'', ''Screenshots'']) (mk_world clash_fs []) (demo_home @ [''Downloads'', ''Screenshot A.png'']) = move_dest (demo_home @ [''Pictures'', ''Screenshots'']) (mk_world clash_fs []) (demo_home @ [''Desktop'', ''Screenshot A.png''])) \<and>
   (move_dest (demo_home @ [''Pictures'', ''Screenshots'']) (mk_world clash_fs []) (demo_home @ [''Desktop'', ''Screenshot A.png'']) \<notin> fst ` set (disk (mk_world clash_fs []))) \<and>
   (fst (move_files (demo_home @ [''Pictures'', ''Screenshots'']) [(demo_home @ [''Desktop'', ''Screenshot A.png'']), (demo_home @ [''Downloads'', ''Screenshot A.png''])] (mk_world clash_fs [])) = Inr () \<and>
    stdout (snd (move_files (demo_home @ [''Pictures'', ''Screenshots'']) [(demo_home @ [''Desktop'', ''Screenshot A.png'']), (demo_home @ [''Downloads'', ''Screenshot A.png''])] (mk_world clash_fs []))) = stdout (mk_world clash_fs []) @
      [''Moved: '' @ path_name (demo_home @ [''Desktop'', ''Screenshot A.png'']) @ '' '' @ arrow @ '' '' @ render_path (butlast (move_dest (demo_home @ [''Pictures'', ''Screenshots'']) (mk_world clash_fs []) (demo_home @ [''Desktop'', ''Screenshot A.png'']))),
       ''Moved: '' @ path_name (demo_home @ [''Downloads'', ''Screenshot A.png'']) @ '' '' @ arrow @ '' '' @ render_path (butlast (move_dest (demo_home @ [''Pictures'', ''Screenshots'']) (mk_world clash_fs []) (demo_home @ [''Desktop'', ''Screenshot A.png''])))] \<and>
    map_of (disk (snd (move_files (demo_home @ [''Pictures'', ''Screenshots'']) [(demo_home @ [''Desktop'', ''Screenshot A.png'']), (demo_home @ [''Downloads'', ''Screenshot A.png''])] (mk_world clash_fs [])))) (move_dest (demo_home @ [''Pictures'', ''Screenshots'']) (mk_world clash_fs []) (demo_home @ [''Desktop'', ''Screenshot A.png''])) = Some (demo_file 200 1700000000) \<and>
    map_of (disk (snd (move_files (demo_home @ [''Pictures'', ''Screenshots'']) [(demo_home @ [''Desktop'', ''Screenshot A.png'']), (demo_home @ [''Downloads'', ''Screenshot A.png''])] (mk_world clash_fs [])))) (demo_home @ [''Desktop'', ''Screenshot A.png'']) = None \<and>
    map_of (disk (snd (move_files (demo_home @ [''Pictures'', ''Screenshots'']) [(demo_home @ [''Desktop'', ''Screenshot A.png'']), (demo_home @ [''Downloads'', ''Screenshot A.png''])] (mk_world clash_fs [])))) (demo_home @ [''Downloads'', ''Screenshot A.png'']) = None)"
proof -
  have h1: "wf_fs (disk (mk_world clash_fs []))" by code_simp
  have h2: "is_dir (disk (mk_world clash_fs [])) (demo_home @ [''Pictures'', ''Screenshots''])" by code_simp
  have h3: "map_of (disk (mk_world clash_fs [])) (demo_home @ [''Desktop'', ''Screenshot A.png'']) = Some (demo_file 100 1700000000)" by code_simp
  have h4: "kind (demo_file 100 1700000000) = RegFile" by code_simp
  have h5: "map_of (disk (mk_world clash_fs [])) (demo_home @ [''Downloads'', ''Screenshot A.png'']) = Some (demo_file 200 1700000000)" by code_simp
  have h6: "kind (demo_file 200 1700000000) = RegFile" by code_simp
  have h7: "(demo_home @ [''Desktop'', ''Screenshot A.png'']) \<noteq> (demo_home @ [''Downloads'', ''Screenshot A.png''])" by code_simp
  have h8: "move_dest (demo_home @ [''Pictures'', ''Screenshots'']) (mk_world clash_fs []) (demo_home @ [''Downloads'', ''Screenshot A.png'']) = move_dest (demo_home @ [''Pictures'', ''Screenshots'']) (mk_world clash_fs []) (demo_home @ [''Desktop'', ''Screenshot A.png''])" by code_simp
  have h9: "move_dest (demo_home @ [''Pictures'', ''Screenshots'']) (mk_world clash_fs []) (demo_home @ [''Desktop'', ''Screenshot A.png'']) \<notin> fst ` set (disk (mk_world clash_fs []))" by code_simp
  have h10: "\<forall>q \<in> set (butlast (prefixes (move_dest (demo_home @ [''Pictures'', ''Screenshots'']) (mk_world clash_fs []) (demo_home @ [''Desktop'', ''Screenshot A.png''])))). \<not> is_file (disk (mk_world clash_fs [])) q" by code_simp
  note c = move_clash_overwrites [OF h1 h2 h3 h4 h5 h6 h7 h8 h9 h10]
  from h1 h2 h3 h4 h5 h6 h7 h8 h9 h10 c show ?thesis by blast
qed

end
