(* ===== verification/Program.thy ===== *)
theory Program
  imports Organizer
begin

text \<open>
  The entry points of \<open>src/main.py\<close>: \<open>main\<close> (lines 102--112), which runs the
  organiser on the discovered files and turns its exceptions into a message and exit
  status 1, and the module-level platform check (lines 7--8) with \<open>sys.exit(main())\<close>
  (lines 114--115). A run of the script yields its exit status, what it wrote to standard
  error, and the final world.
\<close>

section \<open>\<open>main\<close> and the script\<close>

text \<open>
  \<open>KeyboardInterrupt\<close> is caught by the first handler; every other exception of the model
  is an \<open>Exception\<close> (\<open>OSError\<close>, \<open>shutil.Error\<close>, \<open>EOFError\<close>), caught by the second.
\<close>

definition main :: "world \<Rightarrow> nat \<times> world" where
  "main w =
     (case organize_screenshots (find_screenshots (disk w) (home w)) w of
        (Inr _, w') \<Rightarrow> (0, w')
      | (Inl KeyboardInterrupt, w') \<Rightarrow> (1, print_line (nl @ ''Operation cancelled by user'') w')
      | (Inl e, w') \<Rightarrow> (1, print_line (''Error: '' @ exn_str e) w'))"

text \<open>
  \<open>raise SystemExit(message)\<close> at import prints the message on standard error and exits
  with status 1 before \<open>main\<close> runs.
\<close>

text \<open>
  \<open>if __name__ == "__main__": sys.exit(main())\<close> (lines 114--115): the exit status is
  the value \<open>main\<close> returns, and nothing is written to standard error.
\<close>

definition script_main :: "world \<Rightarrow> nat \<times> string list \<times> world" where
  "script_main w = (case main w of (c, w') \<Rightarrow> (c, [], w'))"

definition run_script :: "string \<Rightarrow> world \<Rightarrow> nat \<times> string list \<times> world" where
  "run_script system w =
     (if system \<noteq> ''Darwin''
      then (1, [system @ '' is not supported - this tool is for macOS only''], w)
      else script_main w)"

section \<open>Discovery feeds aggregation\<close>

lemma screenshot_name_suffix:
  assumes "is_screenshot_name n"
  shows "path_suffix n = ''.png''"
proof -
  from assms obtain b where n: "n = b @ ''.png''" and pre: "prefix ''Screenshot'' n"
    by (auto simp: is_screenshot_name_def suffix_def)
  have "b \<noteq> []"
    using pre n by auto
  then show ?thesis
    using path_suffix_ext [of "''png''" b] n by simp
qed

text \<open>
  Every discovered file exists, so the \<open>stat\<close> calls of \<open>get_size_ext\<close> succeed, and every
  discovered name has the suffix \<open>.png\<close>.
\<close>

lemma get_size_ext_found:
  "get_size_ext fs (find_screenshots fs h) =
     Inr (sum_list (map (\<lambda>f. st_size (the (map_of fs f))) (find_screenshots fs h)),
          if find_screenshots fs h = [] then {} else {''.png''})"
proof -
  let ?fs = "find_screenshots fs h"
  have "\<forall>f \<in> set ?fs. map_of fs f \<noteq> None"
    using find_screenshots_entry by (auto simp: map_of_eq_None_iff)
  moreover have "\<forall>f \<in> set ?fs. path_suffix (path_name f) = ''.png''"
    using find_screenshots_entry screenshot_name_suffix by blast
  then have "(\<lambda>f. path_suffix (path_name f)) ` set ?fs = (\<lambda>f. ''.png'') ` set ?fs"
    by (simp cong: image_cong)
  then have "(\<lambda>f. path_suffix (path_name f)) ` set ?fs = (if ?fs = [] then {} else {''.png''})"
    by (simp add: image_constant_conv)
  ultimately show ?thesis
    by (simp add: get_size_ext_def stat_sizes_present)
qed

lemma organize_found:
  assumes "find_screenshots (disk w) (home w) \<noteq> []"
  shows "organize_screenshots (find_screenshots (disk w) (home w)) w =
     (case py_input menu_prompt
             (print_summary (length (find_screenshots (disk w) (home w)))
                (sum_list (map (\<lambda>f. st_size (the (map_of (disk w) f))) (find_screenshots (disk w) (home w))))
                {''.png''} w) of
        (Inl e, w1) \<Rightarrow> (Inl e, w1)
      | (Inr action, w1) \<Rightarrow> run_choice (find_screenshots (disk w) (home w)) action w1)"
  using assms by (simp add: organize_screenshots_def get_size_ext_found)

lemma main_stdout:
  assumes "prefix (stdout w0) (stdout (snd (organize_screenshots (find_screenshots (disk w) (home w)) w)))"
  shows "prefix (stdout w0) (stdout (snd (main w)))"
proof -
  obtain r w' where o: "organize_screenshots (find_screenshots (disk w) (home w)) w = (r, w')"
    by (metis prod.exhaust)
  with assms have "prefix (stdout w0) (stdout w')" by simp
  with o show ?thesis
    by (auto simp: main_def split: sum.splits exn.splits intro: prefix_prefix)
qed

section \<open>Properties of the script\<close>

text \<open>
  C17: on any platform but macOS the script stops at import with exit status 1 and the
  message \<open>"<system> is not supported - this tool is for macOS only"\<close> on standard error,
  before it looks at a file, reads input or prints anything.
\<close>

theorem run_script_not_darwin:
  assumes "system \<noteq> ''Darwin''"
  shows "run_script system w = (1, [system @ '' is not supported - this tool is for macOS only''], w)"
  using assms by (simp add: run_script_def)

theorem run_script_not_darwin_witness:
  "''Linux'' \<noteq> ''Darwin'' \<and>
   run_script ''Linux'' (mk_world demo_fs []) =
     (1, [''Linux is not supported - this tool is for macOS only''], mk_world demo_fs [])"
  using run_script_not_darwin [of "''Linux''" "mk_world demo_fs []"] by simp

text \<open>
  C16: when no location holds a screenshot, \<open>main\<close> prints
  \<open>No screenshot files found\<close>, reads nothing, changes nothing and returns 0.
\<close>

theorem main_no_screenshots:
  assumes "find_screenshots (disk w) (home w) = []"
  shows "main w = (0, print_line ''No screenshot files found'' w)"
  using assms by (simp add: main_def organize_screenshots_def)

theorem main_no_screenshots_witness:
  "find_screenshots (disk (mk_world [([], dir_inode 0)] [])) (home (mk_world [([], dir_inode 0)] [])) = [] \<and>
   main (mk_world [([], dir_inode 0)] []) =
     (0, print_line ''No screenshot files found'' (mk_world [([], dir_inode 0)] []))"
proof -
  have h: "find_screenshots (disk (mk_world [([], dir_inode 0)] [])) (home (mk_world [([], dir_inode 0)] [])) = []"
    by (simp add: find_screenshots_def screenshot_locations_def path_exists_def mk_world_def)
  show ?thesis
    using main_no_screenshots [OF h] h by simp
qed

lemma find_screenshots_demo_nonempty: "find_screenshots demo_fs demo_home \<noteq> []"
  by (simp add: find_screenshots_def screenshot_locations_def path_glob_def children_def
      demo_fs_def demo_home_def is_dir_def path_exists_def dir_inode_def demo_file_def
      screenshot_pattern_def path_name_def)

text \<open>
  C14: end of input at the menu prompt (\<open>input()\<close> raises \<open>EOFError\<close>) is reported
  as \<open>Error: EOF when reading a line\<close> with exit status 1, after the summary and the
  prompt; no file is touched: the unclassified runtime failure of the specification,
  section 7.
\<close>

theorem main_eof_at_menu:
  assumes "find_screenshots (disk w) (home w) \<noteq> []" and "stdin w = []"
  shows "fst (main w) = 1 \<and> disk (snd (main w)) = disk w \<and>
         last (stdout (snd (main w))) = ''Error: EOF when reading a line''"
  using organize_found [OF assms(1)] assms(2) by (simp add: main_def py_input_def)

theorem main_eof_at_menu_witness:
  "find_screenshots (disk (mk_world demo_fs [])) (home (mk_world demo_fs [])) \<noteq> [] \<and>
   stdin (mk_world demo_fs []) = [] \<and>
   fst (main (mk_world demo_fs [])) = 1 \<and> disk (snd (main (mk_world demo_fs []))) = disk (mk_world demo_fs []) \<and>
   last (stdout (snd (main (mk_world demo_fs [])))) = ''Error: EOF when reading a line''"
proof -
  have h1: "find_screenshots (disk (mk_world demo_fs [])) (home (mk_world demo_fs [])) \<noteq> []"
    using find_screenshots_demo_nonempty by (simp add: mk_world_def)
  have h2: "stdin (mk_world demo_fs []) = []"
    by (simp add: mk_world_def)
  show ?thesis
    using main_eof_at_menu [OF h1 h2] h1 h2 by blast
qed

text \<open>
  C15: Ctrl-C at the menu prompt ends the run with \<open>Operation cancelled by user\<close> on a
  line of its own and exit status 1, without touching a file (specification, section 7).
\<close>

theorem main_interrupt_at_menu:
  assumes "find_screenshots (disk w) (home w) \<noteq> []" and "stdin w = Interrupt # rest"
  shows "fst (main w) = 1 \<and> disk (snd (main w)) = disk w \<and>
         last (stdout (snd (main w))) = nl @ ''Operation cancelled by user''"
  using organize_found [OF assms(1)] assms(2) by (simp add: main_def py_input_def)

theorem main_interrupt_at_menu_witness:
  "find_screenshots (disk (mk_world demo_fs [Interrupt])) (home (mk_world demo_fs [Interrupt])) \<noteq> [] \<and>
   stdin (mk_world demo_fs [Interrupt]) = Interrupt # [] \<and>
   fst (main (mk_world demo_fs [Interrupt])) = 1 \<and>
   disk (snd (main (mk_world demo_fs [Interrupt]))) = disk (mk_world demo_fs [Interrupt]) \<and>
   last (stdout (snd (main (mk_world demo_fs [Interrupt])))) = nl @ ''Operation cancelled by user''"
proof -
  have h1: "find_screenshots (disk (mk_world demo_fs [Interrupt])) (home (mk_world demo_fs [Interrupt])) \<noteq> []"
    using find_screenshots_demo_nonempty by (simp add: mk_world_def)
  have h2: "stdin (mk_world demo_fs [Interrupt]) = Interrupt # []"
    by (simp add: mk_world_def)
  show ?thesis
    using main_interrupt_at_menu [OF h1 h2] h1 h2 by blast
qed

text \<open>
  C25: a run of \<open>main\<close> reads at most two items of standard input, from the front: the
  menu choice and, for action 2, the confirmation. The script never loops on its input;
  whatever follows stays unread.
\<close>

theorem main_reads_at_most_two:
  "\<exists>k \<le> 2. stdin (snd (main w)) = drop k (stdin w)"
proof -
  obtain k where k: "k \<le> 2" "stdin (snd (organize_screenshots (find_screenshots (disk w) (home w)) w)) = drop k (stdin w)"
    using organize_stdin by blast
  then show ?thesis
    by (auto simp: main_def split: prod.splits sum.splits exn.splits)
qed

text \<open>
  C27: the exit status of \<open>main\<close> is 0 or 1, and it is 0 exactly when
  \<open>organize_screenshots\<close> returns normally: every exception, \<open>KeyboardInterrupt\<close>
  included, ends in status 1 (specification, section 7).
\<close>

theorem main_exit_status:
  "(fst (main w) = 0 \<or> fst (main w) = 1) \<and>
   (fst (main w) = 0 \<longleftrightarrow> fst (organize_screenshots (find_screenshots (disk w) (home w)) w) = Inr ())"
  by (auto simp: main_def split: prod.splits sum.splits exn.splits)

end
