(* ===== verification/Spec2Isabelle.thy ===== *)
theory Spec2Isabelle
  imports Program
begin

text \<open>
  \<^bold>\<open>A verification model of CleanMyMac's screenshot organiser (\<open>src/main.py\<close>).\<close>

  The program is one Python script. At import it refuses to run on anything but macOS
  (lines 7--8). \<open>main\<close> (lines 102--112) calls \<open>find_screenshots\<close> (lines 10--26),
  which lists the entries of \<open>~/Desktop\<close>, \<open>~/Downloads\<close> and \<open>~/Pictures\<close> that match
  the glob \<open>Screenshot*.png\<close>, and hands the list to \<open>organize_screenshots\<close>
  (lines 43--100). That function prints a summary (count, total size through
  \<open>get_size_ext\<close> and \<open>human_size\<close>, the sorted extensions), reads one menu choice
  and moves the files into \<open>~/Pictures/Screenshots/YYYY-MM\<close>, deletes them after a second
  confirmation, lists them, or cancels. \<open>main\<close> turns a \<open>KeyboardInterrupt\<close> or any other
  exception into a message and exit status 1.

  \<^bold>\<open>Theories and what they model.\<close>
  \<^item> \<open>Prelude\<close>: paths as lists of components; the Python helpers the script uses:
    \<open>str(int)\<close> (\<open>str_nat\<close>), \<open>str.join\<close> (\<open>join_str\<close>), \<open>str.lower\<close> on ASCII
    (\<open>lower\<close>), \<open>str(Path)\<close> (\<open>render_path\<close>), \<open>Path.name\<close> (\<open>path_name\<close>),
    \<open>Path.suffix\<close> (\<open>path_suffix\<close> through \<open>rfind\<close>); the evaluation collection
    \<open>py_eval\<close>; generic lemmas on floor division and on splitting a string at a
    separator. These helpers model the library calls at the expressions of the
    script that make them.
  \<^item> \<open>Glob\<close>: \<open>fnmatch\<close> of a compiled glob, the matcher behind \<open>Path.glob\<close> (line
    23); its equivalence with the specification's prefix/suffix filter.
  \<^item> \<open>HumanSize\<close>: \<open>human_size\<close> (lines 28--34). The magnitude is an exact rational:
    dividing by 1024 is exact in binary floating point, so no rounding happens before the
    \<open>.2f\<close> format, modelled with round-half-even on the exact value. Closed form, the
    byte range, the behaviour at and above 1 TiB, and the bound on the magnitude.
  \<^item> \<open>FileSystem\<close>: the filesystem as an association list from paths to inodes (kind,
    \<open>st_size\<close>, \<open>st_ctime\<close>) in listing order; the library calls the script makes
    (\<open>Path.exists\<close>, \<open>is_dir\<close>, \<open>stat\<close>, \<open>os.mkdir\<close>, pathlib \<open>mkdir\<close> with its
    recursion on the parents, \<open>unlink\<close>, \<open>os.rename\<close>, \<open>shutil.move\<close> with its
    \<open>copy2\<close> and \<open>copytree\<close> fallbacks), each returning \<open>exn + fs\<close>; \<open>str(e)\<close> of
    the exceptions; the tree invariant \<open>wf_fs\<close>.
  \<^item> \<open>FsInvariant\<close>: \<open>wf_fs\<close> preserved by each library call that changes the disk,
    when \<open>mkdir -p\<close> succeeds, and \<open>shutil.move\<close> of a file onto a fresh path: the
    facts the move proofs of \<open>Organizer\<close> are built on.
  \<^item> \<open>Discovery\<close>: \<open>find_screenshots\<close> (lines 10--26) and an example home.
  \<^item> \<open>Calendar\<close>: the \<open>YYYY-MM\<close> folder of a timestamp (lines 71--72):
    \<open>datetime.fromtimestamp\<close> as Hinnant's \<open>civil_from_days\<close> on local time, the
    local UTC offset being a function of the world, then \<open>strftime("%Y-%m")\<close>;
    the ranges of the civil month and day; a reader of folder names with which the name
    reads back as the local year and month.
  \<^item> \<open>Organizer\<close>: the \<open>world\<close> record (filesystem, home, standard input as lines,
    standard output as the printed strings, clock, UTC offset); \<open>get_size_ext\<close>; the
    three actions (\<open>move_files\<close>, \<open>delete_files\<close>, \<open>list_files\<close>) and
    \<open>organize_screenshots\<close> with its prompts, composed as the code composes them; an
    abstract MoveByDate (\<open>file_map\<close>, \<open>move_spec\<close>) and the refinement lemma; the
    error branches of the move loop and name collisions; what each prompt consumes of
    standard input; the output of the list action.
  \<^item> \<open>Program\<close>: \<open>main\<close> (lines 102--112) with its two exception handlers, and the
    module-level platform check (\<open>run_script\<close>, lines 7--8) with the entry block
    \<open>sys.exit(main())\<close> (\<open>script_main\<close>, lines 114--115).
  \<^item> This theory: the properties that span discovery, aggregation, formatting and output.

  \<^bold>\<open>What the lemmas show.\<close> Discovery finds exactly the matching entries of the existing
  locations, once each. The summary printed first is the count, \<open>human_size\<close> of the
  total and \<open>.png\<close>. Only the inputs \<open>1\<close>, or \<open>2\<close> then \<open>yes\<close>, change the disk. A
  confirmed delete removes exactly the files; each file of a delete or move loop gets
  exactly one report line. A collision-free move refines MoveByDate and keeps the
  filesystem a tree. In the move loop a failing \<open>shutil.move\<close> is reported and the
  loop goes on, while a failing \<open>stat\<close> or month-folder \<open>mkdir\<close> ends it. Every
  month folder name ends in one of \<open>01\<close> to \<open>12\<close>:
  \<open>civil_from_days\<close> keeps the month in \<open>[1, 12]\<close> and the day in \<open>[1, 31]\<close>, proved
  by splitting a 400-year era into centuries and four-year groups; the name reads back
  as the local year and month. \<open>main\<close> reads at most two input items and exits with 0 exactly when the
  organiser returns normally, 1 otherwise; any unrecognised menu answer cancels.
  Several findings are proved as general theorems: two files with the same name and
  month are both reported moved while the second silently replaces the first, a month
  folder that cannot be created aborts the whole move, the confirmation is not trimmed
  (C6), sizes of 1 TiB and more print in GB, and the glob returns directories (C1 does
  not restrict discovery to files).

  \<^bold>\<open>Evaluation.\<close> Examples run on concrete worlds with \<open>simp\<close> and the \<open>py_eval\<close>
  rules, or with \<open>code_simp\<close> where a library call, a move loop or the calendar is
  evaluated; they serve as witnesses of the theorems with hypotheses. No
  fuel is needed: every loop of the script is a recursion over the list of files or the
  components of a path, and pathlib's \<open>mkdir\<close> terminates by the length of the path
  (its \<open>termination\<close> proof is the measure on the path, then on the \<open>parents\<close> flag).
  The script reads at most two input lines, so no run can wait or loop on its input;
  termination is thus a property of the definitions, and no separate theorem states it.

  \<^bold>\<open>Not modelled.\<close> The timing of the calls and other processes acting on the disk
  meanwhile, beyond what the model's explicit world order expresses; symbolic links,
  permissions, file contents and extended attributes, which the script never inspects;
  \<open>str.lower\<close> beyond ASCII letters; the fractional part of \<open>st_ctime\<close>; the
  interpreter's output buffering and standard error of Python's own traceback (every
  exception of the model is caught by \<open>main\<close>).
\<close>

section \<open>Properties across components\<close>

text \<open>
  C4: when screenshots are found, \<open>main\<close> first prints the summary of the specification,
  section 4.2: the number of files, their total size through \<open>human_size\<close>, and the file
  types, which are always exactly \<open>.png\<close> because every name the glob admits ends in
  \<open>.png\<close>; then the menu prompt. Whatever the user answers, this output stays in front.
\<close>

theorem main_prints_summary:
  assumes "find_screenshots (disk w) (home w) \<noteq> []"
  shows "prefix
     (stdout w @
      [nl @ ''Found '' @ str_nat (length (find_screenshots (disk w) (home w))) @ '' screenshots'',
       ''Total size: '' @ human_size (int (sum_list (map (\<lambda>f. st_size (the (map_of (disk w) f)))
                                            (find_screenshots (disk w) (home w))))),
       ''File types: .png'', menu_prompt])
     (stdout (snd (main w)))"
proof -
  let ?w0 = "print_summary (length (find_screenshots (disk w) (home w)))
     (sum_list (map (\<lambda>f. st_size (the (map_of (disk w) f))) (find_screenshots (disk w) (home w))))
     {''.png''} w"
  obtain r w1 where inp: "py_input menu_prompt ?w0 = (r, w1)"
    by (metis prod.exhaust)
  have s1: "stdout w1 = stdout w @
      [nl @ ''Found '' @ str_nat (length (find_screenshots (disk w) (home w))) @ '' screenshots'',
       ''Total size: '' @ human_size (int (sum_list (map (\<lambda>f. st_size (the (map_of (disk w) f)))
                                            (find_screenshots (disk w) (home w))))),
       ''File types: .png'', menu_prompt]"
    using py_input_stdout [OF inp] by (simp add: print_summary_def)
  have "prefix (stdout w1) (stdout (snd (organize_screenshots (find_screenshots (disk w) (home w)) w)))"
    using organize_found [OF assms] inp run_choice_stdout [of w1]
    by (auto split: sum.splits)
  then have "prefix (stdout w1) (stdout (snd (main w)))"
    by (rule main_stdout)
  then show ?thesis
    by (simp add: s1)
qed

theorem main_prints_summary_witness:
  "find_screenshots (disk (mk_world demo_fs [Line ''4''])) (home (mk_world demo_fs [Line ''4''])) \<noteq> [] \<and>
   prefix
     (stdout (mk_world demo_fs [Line ''4'']) @
      [nl @ ''Found '' @ str_nat (length (find_screenshots (disk (mk_world demo_fs [Line ''4'']))
                                        (home (mk_world demo_fs [Line ''4''])))) @ '' screenshots'',
       ''Total size: '' @ human_size (int (sum_list (map (\<lambda>f. st_size (the (map_of (disk (mk_world demo_fs [Line ''4''])) f)))
          (find_screenshots (disk (mk_world demo_fs [Line ''4''])) (home (mk_world demo_fs [Line ''4''])))))),
       ''File types: .png'', menu_prompt])
     (stdout (snd (main (mk_world demo_fs [Line ''4'']))))"
proof -
  have h: "find_screenshots (disk (mk_world demo_fs [Line ''4''])) (home (mk_world demo_fs [Line ''4''])) \<noteq> []"
    using find_screenshots_demo_nonempty by (simp add: mk_world_def)
  show ?thesis
    using main_prints_summary [OF h] h by blast
qed

end
